(* ===== verification/Rust_Prelude.thy ===== *)
theory Rust_Prelude
  imports Main "HOL-Library.Word" "HOL-Library.Sublist"
begin

text \<open>
  What every component of the development shares: the machine types of the Rust sources, big- and
  little-endian integers, \<open>slice::chunks\<close>, splitting a byte stream into lines, the result type, and the
  generic lemmas on them; strings are in \<open>Rust_Strings\<close>.

  A Rust \<open>Vec<u8>\<close> or \<open>&[u8]\<close> is a list of 8-bit words.  A Rust \<open>&str\<close> is the list
  of its UTF-8 bytes, each byte a HOL \<open>char\<close>; where the code looks at characters beyond ASCII
  the definition works on the UTF-8 sequences.  A fallible function returns a sum, the error on
  the left; a function that need not return (unbounded recursion, panic) returns an option.
\<close>

unbundle bit_operations_syntax

type_synonym byte = "8 word"
type_synonym bytes = "byte list"
type_synonym u16 = "16 word"
type_synonym u32 = "32 word"

named_theorems wire_simps \<open>byte-level facts of the wire formats\<close>
named_theorems str_simps \<open>facts about the string functions\<close>

subsection \<open>Results\<close>

definition bind_result :: "('e + 'a) \<Rightarrow> ('a \<Rightarrow> 'e + 'b) \<Rightarrow> 'e + 'b" where
  "bind_result m f = (case m of Inl e \<Rightarrow> Inl e | Inr a \<Rightarrow> f a)"

lemma bind_result_simps [simp]:
  "bind_result (Inl e) f = Inl e"
  "bind_result (Inr a) f = f a"
  by (simp_all add: bind_result_def)

lemma bind_result_Inr_iff:
  "bind_result m f = Inr b \<longleftrightarrow> (\<exists>a. m = Inr a \<and> f a = Inr b)"
  by (cases m) simp_all

definition ok_or :: "'e \<Rightarrow> 'a option \<Rightarrow> 'e + 'a" where
  "ok_or e x = (case x of None \<Rightarrow> Inl e | Some a \<Rightarrow> Inr a)"

lemma ok_or_simps [simp]:
  "ok_or e None = Inl e"
  "ok_or e (Some a) = Inr a"
  "ok_or e x = Inr a \<longleftrightarrow> x = Some a"
  "ok_or e x = Inl e' \<longleftrightarrow> x = None \<and> e' = e"
  by (auto simp: ok_or_def split: option.splits)

subsection \<open>Big- and little-endian integers\<close>

text \<open>\<open>u16::from_be_bytes\<close>, \<open>u16::to_be_bytes\<close>, \<open>u16::from_le_bytes\<close>,
  \<open>u32::from_le_bytes\<close>.\<close>

definition from_be16 :: "byte \<Rightarrow> byte \<Rightarrow> u16" where
  "from_be16 hi lo = of_nat (256 * unat hi + unat lo)"

definition to_be16 :: "u16 \<Rightarrow> bytes" where
  "to_be16 w = [ucast (drop_bit 8 w), ucast w]"

definition from_le16 :: "byte \<Rightarrow> byte \<Rightarrow> u16" where
  "from_le16 lo hi = of_nat (256 * unat hi + unat lo)"

definition from_le32 :: "byte \<Rightarrow> byte \<Rightarrow> byte \<Rightarrow> byte \<Rightarrow> u32" where
  "from_le32 a b c d = of_nat (unat a + 256 * unat b + 65536 * unat c + 16777216 * unat d)"

lemma unat_byte_less [simp]: "unat (b :: byte) < 256"
  using unsigned_less [of b, where ?'a = nat] by simp

lemma unat_byte_le [simp]: "unat (b :: byte) \<le> 255"
  using unat_byte_less [of b] by linarith

lemma unat_u16_less [simp]: "unat (w :: u16) < 65536"
  using unsigned_less [of w, where ?'a = nat] by simp

lemma unat_of_nat_byte: "n < 256 \<Longrightarrow> unat (of_nat n :: byte) = n"
  by (simp add: unat_of_nat)

lemma unat_of_nat_u16: "n < 65536 \<Longrightarrow> unat (of_nat n :: u16) = n"
  by (simp add: unat_of_nat)

lemma be16_bound: "256 * unat (hi :: byte) + unat (lo :: byte) < 65536"
  using unat_byte_le [of hi] unat_byte_less [of lo] by linarith

lemma unat_from_be16 [wire_simps]: "unat (from_be16 hi lo) = 256 * unat hi + unat lo"
  unfolding from_be16_def by (rule unat_of_nat_u16 [OF be16_bound])

lemma unat_from_le16 [wire_simps]: "unat (from_le16 lo hi) = 256 * unat hi + unat lo"
  unfolding from_le16_def by (rule unat_of_nat_u16 [OF be16_bound])

lemma unat_ucast_byte_u16 [wire_simps]: "unat (ucast (w :: u16) :: byte) = unat w mod 256"
  by (simp add: unsigned_ucast_eq take_bit_eq_mod)

lemma unat_drop_bit_8 [wire_simps]: "unat (drop_bit 8 (w :: u16)) = unat w div 256"
  unfolding unat_drop_bit_eq by (simp add: drop_bit_eq_div)

lemma unat_u16_div_less [simp]: "unat (w :: u16) div 256 < 256"
  using unat_u16_less [of w] by linarith

lemma from_be16_to_be16 [wire_simps]:
  "from_be16 (ucast (drop_bit 8 w)) (ucast w) = w"
proof -
  have "unat (from_be16 (ucast (drop_bit 8 w)) (ucast w)) = unat w"
    by (simp only: unat_from_be16 unat_ucast_byte_u16 unat_drop_bit_8) simp
  then show ?thesis by (rule unsigned_word_eqI)
qed

lemma to_be16_length [simp]: "length (to_be16 w) = 2"
  by (simp add: to_be16_def)

subsection \<open>Slices\<close>

text \<open>\<open>slice::chunks(n)\<close> for a positive \<open>n\<close>; Rust panics on zero, which no caller passes.\<close>

function chunks :: "nat \<Rightarrow> 'a list \<Rightarrow> 'a list list" where
  "chunks n xs = (if xs = [] \<or> n = 0 then [] else take n xs # chunks n (drop n xs))"
  by pat_completeness auto
termination
  by (relation "measure (\<lambda>(n, xs). length xs)") auto

declare chunks.simps [simp del]

lemma chunks_Nil [simp]: "chunks n [] = []"
  by (simp add: chunks.simps)

lemma chunks_step:
  "xs \<noteq> [] \<Longrightarrow> 0 < n \<Longrightarrow> chunks n xs = take n xs # chunks n (drop n xs)"
  by (subst chunks.simps) simp

lemma concat_chunks: "0 < n \<Longrightarrow> concat (chunks n xs) = xs"
proof (induction n xs rule: chunks.induct)
  case (1 n xs)
  show ?case
  proof (cases "xs = []")
    case False
    with 1 show ?thesis by (simp add: chunks_step)
  qed simp
qed

lemma chunks_bound: "c \<in> set (chunks n xs) \<Longrightarrow> c \<noteq> [] \<and> length c \<le> n"
proof (induction n xs rule: chunks.induct)
  case (1 n xs)
  show ?case
  proof (cases "xs = [] \<or> n = 0")
    case True
    with "1.prems" show ?thesis by (simp add: chunks.simps)
  next
    case False
    with "1.prems" have "c = take n xs \<or> c \<in> set (chunks n (drop n xs))"
      by (simp add: chunks_step)
    with False "1.IH" show ?thesis by auto
  qed
qed

lemma id_take_nth_drop2:
  assumes "2 \<le> n" and "n \<le> length xs"
  shows "take (n - 2) xs @ xs ! (n - 2) # xs ! (n - 1) # drop n xs = xs"
proof -
  obtain m where m: "n = Suc (Suc m)" using assms(1) by (metis add_2_eq_Suc le_Suc_ex)
  with assms show ?thesis
    by (simp add: Cons_nth_drop_Suc)
qed

subsection \<open>Newline-delimited streams\<close>

text \<open>
  The complete lines of a byte stream, without their line feeds, and the unterminated rest.
  The incremental line assemblers of the sources are proved equal to it.
\<close>

fun split_lines :: "bytes \<Rightarrow> bytes list \<times> bytes" where
  "split_lines [] = ([], [])"
| "split_lines (b # bs) =
     (case split_lines bs of (ls, rest) \<Rightarrow>
       if b = 10 then ([] # ls, rest)
       else (case ls of [] \<Rightarrow> ([], b # rest) | l # ls' \<Rightarrow> ((b # l) # ls', rest)))"

lemma split_lines_line:
  "10 \<notin> set l \<Longrightarrow>
    split_lines (l @ 10 # bs) = (l # fst (split_lines bs), snd (split_lines bs))"
  by (induction l) (auto split: prod.splits)

lemma split_lines_concat:
  "\<forall>l \<in> set ls. 10 \<notin> set l \<Longrightarrow>
    split_lines (concat (map (\<lambda>l. l @ [10]) ls) @ bs) =
      (ls @ fst (split_lines bs), snd (split_lines bs))"
  by (induction ls) (auto simp: split_lines_line)

lemma split_lines_concat_only:
  "\<forall>l \<in> set ls. 10 \<notin> set l \<Longrightarrow>
    split_lines (concat (map (\<lambda>l. l @ [10]) ls)) = (ls, [])"
  using split_lines_concat [of ls "[]"] by simp

lemma split_lines_no_newline: "10 \<notin> set bs \<Longrightarrow> split_lines bs = ([], bs)"
  by (induction bs) auto

lemma split_lines_rest_no_newline: "split_lines bs = (ls, rest) \<Longrightarrow> 10 \<notin> set rest"
  by (induction bs arbitrary: ls rest) (auto split: prod.splits if_splits list.splits)

lemma split_lines_append:
  "split_lines bs = (ls, rest) \<Longrightarrow>
    split_lines (bs @ cs) = (ls @ fst (split_lines (rest @ cs)), snd (split_lines (rest @ cs)))"
proof (induction bs arbitrary: ls rest)
  case (Cons b bs)
  obtain ls' rest' where rec: "split_lines bs = (ls', rest')" by fastforce
  note IH = Cons.IH [OF rec]
  show ?case
  proof (cases "b = 10")
    case True
    with Cons.prems rec IH show ?thesis by auto
  next
    case False
    with Cons.prems rec IH show ?thesis by (auto split: list.splits prod.splits)
  qed
qed simp

subsection \<open>Computations that may panic\<close>

text \<open>
  A slice index out of range and an overflowing addition in a build with overflow checks are
  panics.  \<open>usize\<close> has the width of the target's pointers: the sources are built for 64-bit and
  for 32-bit (\<open>armv7hf\<close>) machines, and a release build wraps where a checked build panics.
\<close>

datatype 'a outcome = Panic | Done 'a

record usize_cfg =
  ptr_bits :: nat
  overflow_checks :: bool

definition usize_add :: "usize_cfg \<Rightarrow> nat \<Rightarrow> nat \<Rightarrow> nat outcome" where
  "usize_add c a b =
     (if a + b < 2 ^ ptr_bits c then Done (a + b)
      else if overflow_checks c then Panic
      else Done ((a + b) mod 2 ^ ptr_bits c))"

definition checked_add :: "usize_cfg \<Rightarrow> nat \<Rightarrow> nat \<Rightarrow> nat option" where
  "checked_add c a b = (if a + b < 2 ^ ptr_bits c then Some (a + b) else None)"

lemma usize_add_Done [simp]: "a + b < 2 ^ ptr_bits c \<Longrightarrow> usize_add c a b = Done (a + b)"
  by (simp add: usize_add_def)

definition byte_at :: "bytes \<Rightarrow> nat \<Rightarrow> byte outcome" where
  "byte_at bs i = (if i < length bs then Done (bs ! i) else Panic)"

definition u16le_at :: "bytes \<Rightarrow> nat \<Rightarrow> u16 outcome" where
  "u16le_at bs i = (if i + 1 < length bs then Done (from_le16 (bs ! i) (bs ! (i + 1))) else Panic)"

subsection \<open>Decimal numbers\<close>

text \<open>\<open>{}\<close> applied to an unsigned integer.\<close>

definition digit_char :: "nat \<Rightarrow> char" where
  "digit_char d = ''0123456789abcdef'' ! d"

fun radix_string :: "nat \<Rightarrow> nat \<Rightarrow> string" where
  "radix_string r n =
     (if r < 2 \<or> n < r then [digit_char n] else radix_string r (n div r) @ [digit_char (n mod r)])"

declare radix_string.simps [simp del]

abbreviation dec_string :: "nat \<Rightarrow> string" where
  "dec_string \<equiv> radix_string 10"

text \<open>\<open>{:x}\<close>: lower-case hexadecimal without leading zeros.\<close>

abbreviation hex_string :: "nat \<Rightarrow> string" where
  "hex_string \<equiv> radix_string 16"

end
