(* ===== verification/Base64_Engine.thy ===== *)
theory Base64_Engine
  imports Rust_Prelude
begin

text \<open>
  The \<open>base64\<close> crate's \<open>STANDARD\<close> engine is third-party code, so the framing codec takes
  its \<open>encode\<close> and \<open>decode\<close> as parameters.  The locale below is the interface the codec relies
  on, every law a documented consequence of RFC 4648: decoding inverts encoding, a strict prefix
  of an encoding either is rejected (its length is no multiple of four) or decodes to a strict
  prefix of the data, and the alphabet has no line feed.

  \<open>rfc4648_encode\<close> and \<open>rfc4648_decode\<close> are an executable rendering of RFC 4648, section 4,
  with canonical padding.  They show that the laws can hold together and let concrete packets be
  evaluated; no model definition mentions them.
\<close>

locale base64_engine =
  fixes b64_encode :: "bytes \<Rightarrow> bytes"
    and b64_decode :: "bytes \<Rightarrow> bytes option"
  assumes decode_encode: "b64_decode (b64_encode xs) = Some xs"
    and decode_prefix: "n < length (b64_encode xs) \<Longrightarrow>
      b64_decode (take n (b64_encode xs)) = None \<or>
      (\<exists>k < length xs. b64_decode (take n (b64_encode xs)) = Some (take k xs))"
    and encode_no_newline: "10 \<notin> set (b64_encode xs)"
begin

lemma encode_inject: "b64_encode xs = b64_encode ys \<longleftrightarrow> xs = ys"
  using decode_encode by (metis option.inject)

lemma encode_nonempty: "xs \<noteq> [] \<Longrightarrow> b64_encode xs \<noteq> []"
  using decode_encode [of xs] decode_encode [of "[]"] decode_prefix [of 0 "[]"]
  by (cases "b64_encode [] = []") auto

end

subsection \<open>RFC 4648\<close>

definition b64_symbol :: "nat \<Rightarrow> byte" where
  "b64_symbol n = of_nat
     (if n < 26 then 65 + n else if n < 52 then 71 + n else if n < 62 then n - 4
      else if n = 62 then 43 else 47)"

definition b64_value :: "byte \<Rightarrow> nat option" where
  "b64_value b = (let n = unat b in
     if 65 \<le> n \<and> n \<le> 90 then Some (n - 65)
     else if 97 \<le> n \<and> n \<le> 122 then Some (n - 71)
     else if 48 \<le> n \<and> n \<le> 57 then Some (n + 4)
     else if n = 43 then Some 62 else if n = 47 then Some 63 else None)"

fun rfc4648_encode :: "bytes \<Rightarrow> bytes" where
  "rfc4648_encode [] = []"
| "rfc4648_encode [a] =
     [b64_symbol (unat a div 4), b64_symbol (unat a mod 4 * 16), 61, 61]"
| "rfc4648_encode [a, b] =
     [b64_symbol (unat a div 4), b64_symbol (unat a mod 4 * 16 + unat b div 16),
      b64_symbol (unat b mod 16 * 4), 61]"
| "rfc4648_encode (a # b # c # rest) =
     b64_symbol (unat a div 4) # b64_symbol (unat a mod 4 * 16 + unat b div 16)
     # b64_symbol (unat b mod 16 * 4 + unat c div 64) # b64_symbol (unat c mod 64)
     # rfc4648_encode rest"

definition b64_byte :: "nat \<Rightarrow> byte" where
  "b64_byte n = of_nat n"

fun rfc4648_decode :: "bytes \<Rightarrow> bytes option" where
  "rfc4648_decode [] = Some []"
| "rfc4648_decode (p # q # r # s # rest) =
     (case (b64_value p, b64_value q) of
        (Some x, Some y) \<Rightarrow>
          (if rest = [] \<and> s = 61 \<and> r = 61 then
             (if y mod 16 = 0 then Some [b64_byte (x * 4 + y div 16)] else None)
           else (case b64_value r of
             None \<Rightarrow> None
           | Some z \<Rightarrow>
               (if rest = [] \<and> s = 61 then
                  (if z mod 4 = 0
                   then Some [b64_byte (x * 4 + y div 16), b64_byte (y mod 16 * 16 + z div 4)]
                   else None)
                else (case (b64_value s, rfc4648_decode rest) of
                  (Some w, Some ds) \<Rightarrow>
                    Some (b64_byte (x * 4 + y div 16) # b64_byte (y mod 16 * 16 + z div 4)
                          # b64_byte (z mod 4 * 64 + w) # ds)
                | _ \<Rightarrow> None))))
      | _ \<Rightarrow> None)"
| "rfc4648_decode _ = None"

lemma unat_b64_symbol:
  "n < 64 \<Longrightarrow> unat (b64_symbol n) =
     (if n < 26 then 65 + n else if n < 52 then 71 + n else if n < 62 then n - 4
      else if n = 62 then 43 else 47)"
  unfolding b64_symbol_def by (rule unat_of_nat_byte) auto

lemma b64_value_symbol [simp]: "n < 64 \<Longrightarrow> b64_value (b64_symbol n) = Some n"
  by (auto simp: b64_value_def unat_b64_symbol Let_def)

lemma b64_symbol_neq:
  "n < 64 \<Longrightarrow> b64_symbol n \<noteq> 61 \<and> b64_symbol n \<noteq> 10"
proof -
  assume n: "n < 64"
  have "unat (b64_symbol n) \<noteq> 61 \<and> unat (b64_symbol n) \<noteq> 10"
    using n by (auto simp: unat_b64_symbol)
  then show ?thesis by auto
qed

lemma byte_parts [simp]:
  fixes a :: byte
  shows "unat a div 4 < 64" "unat a div 16 < 16" "unat a div 64 < 4"
  using unat_byte_less [of a] by linarith+

lemma mod_parts [simp]:
  fixes n :: nat
  shows "n mod 4 * 16 < 64" "n mod 16 * 4 < 64"
  using mod_less_divisor [of 4 n] mod_less_divisor [of 16 n] by linarith+

lemma b64_sextets [simp]:
  fixes n :: nat
  shows "n mod 4 * 16 + unat (b :: byte) div 16 < 64"
    and "n mod 16 * 4 + unat (c :: byte) div 64 < 64"
  using mod_less_divisor [of 4 n] mod_less_divisor [of 16 n] byte_parts(2) [of b] byte_parts(3) [of c]
  by linarith+

lemma b64_symbol_neqs [simp]:
  "n < 64 \<Longrightarrow> b64_symbol n \<noteq> 61" "n < 64 \<Longrightarrow> b64_symbol n \<noteq> 10"
  "n < 64 \<Longrightarrow> 10 \<noteq> b64_symbol n"
  using b64_symbol_neq [of n] by auto

lemma b64_byte_unat [simp]: "b64_byte (unat (a :: byte)) = a"
  by (simp add: b64_byte_def)

lemma split16 [simp]:
  fixes n m :: nat
  assumes "m < 16"
  shows "(n * 16 + m) div 16 = n" "(n * 16 + m) mod 16 = m"
  using assms by simp_all

lemma split4 [simp]:
  fixes n m :: nat
  assumes "m < 4"
  shows "(n * 4 + m) div 4 = n" "(n * 4 + m) mod 4 = m"
  using assms by simp_all

lemma rejoin:
  fixes n :: nat
  shows "n div 4 * 4 + n mod 4 = n" "n div 16 * 16 + n mod 16 = n" "n div 64 * 64 + n mod 64 = n"
  by simp_all

lemma rfc4648_decode_encode: "rfc4648_decode (rfc4648_encode xs) = Some xs"
proof (induction xs rule: rfc4648_encode.induct)
  case (4 a b c rest)
  then show ?case by (simp add: rejoin)
qed (simp_all add: rejoin)

lemma rfc4648_no_newline: "10 \<notin> set (rfc4648_encode xs)"
  by (induction xs rule: rfc4648_encode.induct) auto

lemma less_four: "n < 4 \<Longrightarrow> n = 0 \<or> n = 1 \<or> n = 2 \<or> n = (3 :: nat)"
  by auto

lemma rfc4648_decode_short:
  assumes "rfc4648_encode xs = p # q # r # s # rest" and "xs \<noteq> []" and "n < 4"
  shows "rfc4648_decode (take n (rfc4648_encode xs)) = None \<or>
    (\<exists>k < length xs. rfc4648_decode (take n (rfc4648_encode xs)) = Some (take k xs))"
proof (cases "n = 0")
  case True
  with assms(2) have "0 < length xs \<and>
    rfc4648_decode (take n (rfc4648_encode xs)) = Some (take 0 xs)" by simp
  then show ?thesis by blast
next
  case False
  with less_four [OF assms(3)] have "rfc4648_decode (take n (p # q # r # s # rest)) = None"
    by (elim disjE) (simp_all add: numeral_2_eq_2 numeral_3_eq_3)
  with assms(1) show ?thesis by simp
qed

lemma rfc4648_decode_quad:
  "rfc4648_decode (take (Suc (Suc (Suc (Suc m)))) (rfc4648_encode (a # b # c # rest))) =
    map_option (\<lambda>ds. a # b # c # ds) (rfc4648_decode (take m (rfc4648_encode rest)))"
  by (simp add: rejoin split: option.splits)

lemma rfc4648_decode_prefix:
  "n < length (rfc4648_encode xs) \<Longrightarrow>
    rfc4648_decode (take n (rfc4648_encode xs)) = None \<or>
    (\<exists>k < length xs. rfc4648_decode (take n (rfc4648_encode xs)) = Some (take k xs))"
proof (induction xs arbitrary: n rule: rfc4648_encode.induct)
  case (2 a)
  then show ?case by (intro rfc4648_decode_short [OF rfc4648_encode.simps(2)]) simp_all
next
  case (3 a b)
  then show ?case by (intro rfc4648_decode_short [OF rfc4648_encode.simps(3)]) simp_all
next
  case (4 a b c rest)
  show ?case
  proof (cases "n < 4")
    case True
    then show ?thesis by (intro rfc4648_decode_short [OF rfc4648_encode.simps(4)]) simp_all
  next
    case False
    define m where "m = n - 4"
    with False have n: "n = Suc (Suc (Suc (Suc m)))" by simp
    with "4.prems" have "m < length (rfc4648_encode rest)" by simp
    from "4.IH" [OF this] show ?thesis
      unfolding n rfc4648_decode_quad by fastforce
  qed
qed simp

interpretation rfc4648: base64_engine rfc4648_encode rfc4648_decode
  by unfold_locales
    (rule rfc4648_decode_encode, erule rfc4648_decode_prefix, rule rfc4648_no_newline)

end
