(* ===== verification/Codec.thy ===== *)
theory Codec
  imports Base64_Engine
begin

text \<open>
  The SMP console framing of \<open>crates/runtt-mock/src/codec.rs\<close>: the 8-byte SMP header
  (\<open>Frame::header_bytes\<close>, \<open>Frame::parse\<close>), packets cut into marked base64 lines (\<open>encode\<close>)
  and their reassembly (\<open>Decoder::push_line\<close>).  The \<open>crc\<close> crate's checksum and the \<open>base64\<close>
  crate's engine are the parameters \<open>crc\<close>, \<open>b64\<close> and \<open>unb64\<close>.
\<close>

datatype codec_error =
    BodyTooShort nat                 \<comment> \<open>SMP body too short\<close>
  | LengthMismatch nat nat           \<comment> \<open>declared, got\<close>
  | LineTooSmall nat                 \<comment> \<open>\<open>max_line\<close> implausibly small\<close>
  | NoRoomForCrc                     \<comment> \<open>packet too short to contain a CRC\<close>
  | CrcMismatch u16 u16              \<comment> \<open>got, computed\<close>

definition MARKER_START :: bytes where "MARKER_START = [6, 9]"
definition MARKER_CONT :: bytes where "MARKER_CONT = [4, 20]"
definition MAX_LINE :: nat where "MAX_LINE = 127"

definition OP_READ :: byte where "OP_READ = 0"
definition OP_READ_RSP :: byte where "OP_READ_RSP = 1"
definition OP_WRITE :: byte where "OP_WRITE = 2"
definition OP_WRITE_RSP :: byte where "OP_WRITE_RSP = 3"

definition GROUP_OS :: u16 where "GROUP_OS = 0"
definition GROUP_IMG :: u16 where "GROUP_IMG = 1"
definition GROUP_PERUSER :: u16 where "GROUP_PERUSER = 64"

subsection \<open>SMP frames\<close>

record frame =
  fr_op :: byte
  fr_version :: byte
  fr_flags :: byte
  fr_group :: u16
  fr_seq :: byte
  fr_cmd :: byte
  fr_payload :: bytes

definition header_bytes :: "frame \<Rightarrow> bytes" where
  "header_bytes f =
     (let len = of_nat (length (fr_payload f)) :: u16 in
      [(fr_op f AND 7) OR push_bit 3 (fr_version f AND 3),
       fr_flags f,
       ucast (drop_bit 8 len), ucast (len AND 255),
       ucast (drop_bit 8 (fr_group f)), ucast (fr_group f AND 255),
       fr_seq f,
       fr_cmd f])"

definition frame_parse :: "bytes \<Rightarrow> codec_error + frame" where
  "frame_parse body =
     (if length body < 8 then Inl (BodyTooShort (length body))
      else
        let declared = unat (from_be16 (body ! 2) (body ! 3));
            payload = drop 8 body
        in if length payload \<noteq> declared then Inl (LengthMismatch declared (length payload))
           else Inr \<lparr>fr_op = body ! 0 AND 7,
                     fr_version = drop_bit 3 (body ! 0) AND 3,
                     fr_flags = body ! 1,
                     fr_group = from_be16 (body ! 4) (body ! 5),
                     fr_seq = body ! 6,
                     fr_cmd = body ! 7,
                     fr_payload = payload\<rparr>)"

definition response_op :: "frame \<Rightarrow> byte" where
  "response_op f =
     (if fr_op f = OP_READ then OP_READ_RSP
      else if fr_op f = OP_WRITE then OP_WRITE_RSP
      else fr_op f)"

subsection \<open>Packets on the wire\<close>

fun emit_lines :: "bool \<Rightarrow> bytes list \<Rightarrow> bytes" where
  "emit_lines first [] = []"
| "emit_lines first (chunk # rest) =
     (if first then MARKER_START else MARKER_CONT) @ chunk @ [10] @ emit_lines False rest"

definition encode ::
    "(bytes \<Rightarrow> u16) \<Rightarrow> (bytes \<Rightarrow> bytes) \<Rightarrow> frame \<Rightarrow> nat \<Rightarrow> codec_error + bytes" where
  "encode crc b64 f max_line =
     (if max_line < 16 then Inl (LineTooSmall max_line)
      else
        let body = header_bytes f @ fr_payload f;
            inner = to_be16 (of_nat (length body + 2)) @ body @ to_be16 (crc body);
            encoded = b64 inner;
            per_line = max_line - 3
        in Inr (emit_lines True (chunks per_line encoded)))"

record decoder =
  dec_acc :: bytes
  dec_in_packet :: bool

definition decoder_new :: decoder where
  "decoder_new = \<lparr>dec_acc = [], dec_in_packet = False\<rparr>"

text \<open>The tail of \<open>push_line\<close>, once the line has been appended to \<open>acc\<close>.\<close>

definition try_complete ::
    "(bytes \<Rightarrow> u16) \<Rightarrow> (bytes \<Rightarrow> bytes option) \<Rightarrow> decoder
      \<Rightarrow> (codec_error + bytes option) \<times> decoder" where
  "try_complete crc unb64 d =
     (case unb64 (dec_acc d) of
        None \<Rightarrow> (Inr None, d)
      | Some decoded \<Rightarrow>
          if length decoded < 2 then (Inr None, d)
          else
            let declared = unat (from_be16 (decoded ! 0) (decoded ! 1)) in
            if length decoded - 2 < declared then (Inr None, d)
            else
              let d' = d\<lparr>dec_in_packet := False\<rparr>;
                  payload_and_crc = take declared (drop 2 decoded)
              in if length payload_and_crc < 2 then (Inl NoRoomForCrc, d')
                 else
                   let split = length payload_and_crc - 2;
                       body = take split payload_and_crc;
                       got = from_be16 (payload_and_crc ! split) (payload_and_crc ! (split + 1));
                       want = crc body
                   in if got \<noteq> want then (Inl (CrcMismatch got want), d')
                      else (Inr (Some body), d'))"

definition push_line ::
    "(bytes \<Rightarrow> u16) \<Rightarrow> (bytes \<Rightarrow> bytes option) \<Rightarrow> decoder \<Rightarrow> bytes
      \<Rightarrow> (codec_error + bytes option) \<times> decoder" where
  "push_line crc unb64 d line =
     (if length line < 2 then (Inr None, d)
      else
        let marker = take 2 line; rest = drop 2 line in
        if marker = MARKER_START then
          try_complete crc unb64 (d\<lparr>dec_acc := rest, dec_in_packet := True\<rparr>)
        else if marker = MARKER_CONT then
          (if \<not> dec_in_packet d then (Inr None, d)
           else try_complete crc unb64 (d\<lparr>dec_acc := dec_acc d @ rest\<rparr>))
        else (Inr None, d))"

text \<open>The results of pushing the lines of a stream one after the other.\<close>

fun push_lines ::
    "(bytes \<Rightarrow> u16) \<Rightarrow> (bytes \<Rightarrow> bytes option) \<Rightarrow> decoder \<Rightarrow> bytes list
      \<Rightarrow> (codec_error + bytes option) list \<times> decoder" where
  "push_lines crc unb64 d [] = ([], d)"
| "push_lines crc unb64 d (l # ls) =
     (case push_line crc unb64 d l of (r, d') \<Rightarrow>
       case push_lines crc unb64 d' ls of (rs, d'') \<Rightarrow> (r # rs, d''))"

subsection \<open>Headers\<close>

lemma length_header_bytes [simp]: "length (header_bytes f) = 8"
  by (simp add: header_bytes_def Let_def)

lemma byte_mask_3: "(7 :: byte) = mask 3"
  by (simp add: mask_eq_exp_minus_1)

lemma byte_mask_2: "(3 :: byte) = mask 2"
  by (simp add: mask_eq_exp_minus_1)

lemma u16_mask_8: "(255 :: u16) = mask 8"
  by (simp add: mask_eq_exp_minus_1)

lemma byte0_op [wire_simps]:
  "((a AND 7) OR push_bit 3 (v AND 3)) AND 7 = (a AND 7 :: byte)"
  unfolding byte_mask_3 by (auto intro!: bit_word_eqI simp: bit_and_iff bit_or_iff bit_push_bit_iff bit_mask_iff)

lemma byte0_version [wire_simps]:
  "drop_bit 3 ((a AND 7) OR push_bit 3 (v AND 3)) AND 3 = (v AND 3 :: byte)"
  unfolding byte_mask_3 byte_mask_2
  by (auto intro!: bit_word_eqI
      simp: bit_and_iff bit_or_iff bit_push_bit_iff bit_mask_iff bit_drop_bit_eq)

text \<open>The same two facts in the form the simplifier brings the header to.\<close>

lemma byte_mask_24: "(24 :: byte) = push_bit 3 (mask 2)"
  by (simp add: mask_eq_exp_minus_1)

lemma byte0_op' [wire_simps]: "((a AND 7) OR (push_bit 3 v AND 24)) AND 7 = (a AND 7 :: byte)"
  unfolding byte_mask_3 byte_mask_24
  by (auto intro!: bit_word_eqI simp: bit_and_iff bit_or_iff bit_push_bit_iff bit_mask_iff)

lemma byte0_version' [wire_simps]: "drop_bit 3 (push_bit 3 v) AND 3 = (v AND 3 :: byte)"
  unfolding byte_mask_2
  by (auto intro!: bit_word_eqI simp: bit_and_iff bit_push_bit_iff bit_mask_iff bit_drop_bit_eq)

lemma ucast_and_255 [wire_simps]: "(ucast ((w :: u16) AND 255) :: byte) = ucast w"
  unfolding u16_mask_8
  by (auto intro!: bit_word_eqI simp: bit_and_iff bit_mask_iff Word.bit_unsigned_iff)

lemma frame_parse_header:
  assumes "length (fr_payload f) < 65536"
  shows "frame_parse (header_bytes f @ fr_payload f) =
    Inr (f\<lparr>fr_op := fr_op f AND 7, fr_version := fr_version f AND 3\<rparr>)"
proof -
  have "unat (from_be16 ((header_bytes f @ fr_payload f) ! 2) ((header_bytes f @ fr_payload f) ! 3))
    = length (fr_payload f)"
    using assms by (simp add: header_bytes_def Let_def wire_simps unat_of_nat_u16)
  then show ?thesis
    by (cases f) (simp add: frame_parse_def header_bytes_def Let_def wire_simps)
qed

subsection \<open>Lines\<close>

text \<open>The lines \<open>encode\<close> writes, without their line feeds.\<close>

fun marked_lines :: "bool \<Rightarrow> bytes list \<Rightarrow> bytes list" where
  "marked_lines first [] = []"
| "marked_lines first (chunk # rest) =
     ((if first then MARKER_START else MARKER_CONT) @ chunk) # marked_lines False rest"

lemma emit_lines_marked:
  "emit_lines first cs = concat (map (\<lambda>l. l @ [10]) (marked_lines first cs))"
  by (induction first cs rule: emit_lines.induct) simp_all

lemma length_marked_lines [simp]: "length (marked_lines first cs) = length cs"
  by (induction first cs rule: marked_lines.induct) simp_all

lemma marker_lengths [simp]:
  "length MARKER_START = 2" "length MARKER_CONT = 2" "MARKER_CONT \<noteq> MARKER_START"
  "take 2 (MARKER_START @ c) = MARKER_START" "drop 2 (MARKER_START @ c) = c"
  "take 2 (MARKER_CONT @ c) = MARKER_CONT" "drop 2 (MARKER_CONT @ c) = c"
  by (simp_all add: MARKER_START_def MARKER_CONT_def)

lemma marked_lines_no_newline:
  "10 \<notin> set (concat cs) \<Longrightarrow> \<forall>l \<in> set (marked_lines first cs). 10 \<notin> set l"
  by (induction first cs rule: marked_lines.induct) (auto simp: MARKER_START_def MARKER_CONT_def)

lemma marked_lines_bound:
  "l \<in> set (marked_lines first cs) \<Longrightarrow> \<exists>c \<in> set cs. length l = length c + 2"
  by (induction first cs rule: marked_lines.induct) auto

subsection \<open>Reassembly\<close>

text \<open>The packet \<open>encode\<close> puts under base64: length prefix, body and checksum.\<close>

definition packet :: "(bytes \<Rightarrow> u16) \<Rightarrow> bytes \<Rightarrow> bytes" where
  "packet crc body = to_be16 (of_nat (length body + 2)) @ body @ to_be16 (crc body)"

lemma length_packet [simp]: "length (packet crc body) = length body + 4"
  by (simp add: packet_def)

lemma packet_not_Nil [simp]: "packet crc body \<noteq> []"
  by (simp add: packet_def to_be16_def)

lemma packet_declared:
  assumes "length body + 2 < 65536"
  shows "unat (from_be16 (packet crc body ! 0) (packet crc body ! Suc 0)) = length body + 2"
  unfolding packet_def to_be16_def
  by (simp only: append.simps nth_Cons_0 nth_Cons_Suc from_be16_to_be16
      unat_of_nat_u16 [OF assms])

lemma packet_body: "take (length body) (drop 2 (packet crc body)) = body"
  by (simp add: packet_def to_be16_def)

lemma packet_crc:
  "from_be16 (packet crc body ! Suc (Suc (length body)))
     (packet crc body ! Suc (Suc (Suc (length body)))) = crc body"
  by (simp add: packet_def to_be16_def nth_append from_be16_to_be16)

lemma try_complete_partial:
  assumes "length body + 2 < 65536"
    and "unb64 (dec_acc d) = None \<or>
      (\<exists>k < length (packet crc body). unb64 (dec_acc d) = Some (take k (packet crc body)))"
  shows "try_complete crc' unb64 d = (Inr None, d)"
  using assms(2)
proof
  assume "\<exists>k < length (packet crc body). unb64 (dec_acc d) = Some (take k (packet crc body))"
  then obtain k where k: "k < length (packet crc body)"
    and dec: "unb64 (dec_acc d) = Some (take k (packet crc body))" by blast
  show ?thesis
  proof (cases "k < 2")
    case True
    with dec show ?thesis by (simp add: try_complete_def)
  next
    case False
    then have "unat (from_be16 (take k (packet crc body) ! 0) (take k (packet crc body) ! Suc 0))
        = length body + 2"
      using packet_declared [OF assms(1)] by (simp add: not_less)
    with False k dec show ?thesis by (simp add: try_complete_def)
  qed
qed (simp add: try_complete_def)

lemma try_complete_whole:
  assumes "length body + 2 < 65536" and "unb64 (dec_acc d) = Some (packet crc body)"
  shows "try_complete crc unb64 d = (Inr (Some body), d\<lparr>dec_in_packet := False\<rparr>)"
  using assms by (simp add: try_complete_def Let_def packet_declared packet_body packet_crc)

context base64_engine
begin

lemma push_continuations:
  assumes "length body + 2 < 65536"
  shows "dec_in_packet d \<Longrightarrow> cs \<noteq> [] \<Longrightarrow> \<forall>c \<in> set cs. c \<noteq> [] \<Longrightarrow>
    dec_acc d @ concat cs = b64_encode (packet crc body) \<Longrightarrow>
    \<exists>d'. push_lines crc b64_decode d (marked_lines False cs) =
      (replicate (length cs - 1) (Inr None) @ [Inr (Some body)], d')"
proof (induction cs arbitrary: d)
  case (Cons c cs)
  let ?d = "d\<lparr>dec_acc := dec_acc d @ c\<rparr>"
  have step: "push_line crc b64_decode d (MARKER_CONT @ c) = try_complete crc b64_decode ?d"
    using Cons.prems(1) by (simp add: push_line_def)
  show ?case
  proof (cases "cs = []")
    case True
    with Cons.prems(4) have "b64_decode (dec_acc ?d) = Some (packet crc body)"
      by (simp add: decode_encode)
    then have "try_complete crc b64_decode ?d = (Inr (Some body), ?d\<lparr>dec_in_packet := False\<rparr>)"
      by (rule try_complete_whole [OF assms])
    with True step show ?thesis by simp
  next
    case False
    with Cons.prems(3) have "concat cs \<noteq> []" by (cases cs) auto
    moreover have enc: "b64_encode (packet crc body) = dec_acc ?d @ concat cs"
      using Cons.prems(4) by simp
    ultimately have "length (dec_acc ?d) < length (b64_encode (packet crc body))"
      and "take (length (dec_acc ?d)) (b64_encode (packet crc body)) = dec_acc ?d"
      by simp_all
    then have "b64_decode (dec_acc ?d) = None \<or> (\<exists>k < length (packet crc body).
        b64_decode (dec_acc ?d) = Some (take k (packet crc body)))"
      using decode_prefix by metis
    then have "try_complete crc b64_decode ?d = (Inr None, ?d)"
      by (rule try_complete_partial [OF assms])
    moreover from Cons.IH [of ?d] False Cons.prems obtain d' where
      "push_lines crc b64_decode ?d (marked_lines False cs) =
        (replicate (length cs - 1) (Inr None) @ [Inr (Some body)], d')" by auto
    moreover from False obtain m where "length cs = Suc m" by (cases cs) auto
    ultimately show ?thesis using step by simp
  qed
qed simp

lemma push_packet:
  assumes "length body + 2 < 65536" and "cs \<noteq> []" and "\<forall>c \<in> set cs. c \<noteq> []"
    and "concat cs = b64_encode (packet crc body)"
  shows "\<exists>d'. push_lines crc b64_decode d (marked_lines True cs) =
    (replicate (length cs - 1) (Inr None) @ [Inr (Some body)], d')"
proof -
  obtain c cs' where cs: "cs = c # cs'" using assms(2) by (cases cs) auto
  let ?d = "d\<lparr>dec_acc := c, dec_in_packet := True\<rparr>"
  have step: "push_line crc b64_decode d (MARKER_START @ c) = try_complete crc b64_decode ?d"
    by (simp add: push_line_def)
  have enc: "b64_encode (packet crc body) = dec_acc ?d @ concat cs'"
    using assms(4) cs by simp
  show ?thesis
  proof (cases "cs' = []")
    case True
    with enc have "b64_decode (dec_acc ?d) = Some (packet crc body)"
      using decode_encode [of "packet crc body"] by simp
    then have "try_complete crc b64_decode ?d = (Inr (Some body), ?d\<lparr>dec_in_packet := False\<rparr>)"
      by (rule try_complete_whole [OF assms(1)])
    with True step cs show ?thesis by simp
  next
    case False
    with assms(3) cs have "concat cs' \<noteq> []" by (cases cs') auto
    with enc have "length (dec_acc ?d) < length (b64_encode (packet crc body))"
      and "take (length (dec_acc ?d)) (b64_encode (packet crc body)) = dec_acc ?d" by simp_all
    then have "b64_decode (dec_acc ?d) = None \<or> (\<exists>k < length (packet crc body).
        b64_decode (dec_acc ?d) = Some (take k (packet crc body)))"
      using decode_prefix by metis
    then have "try_complete crc b64_decode ?d = (Inr None, ?d)"
      by (rule try_complete_partial [OF assms(1)])
    moreover from push_continuations [OF assms(1), of ?d cs'] False assms(3) enc [symmetric] cs
    obtain d' where "push_lines crc b64_decode ?d (marked_lines False cs') =
        (replicate (length cs' - 1) (Inr None) @ [Inr (Some body)], d')" by auto
    moreover from False obtain m where "length cs' = Suc m" by (cases cs') auto
    ultimately show ?thesis using step cs by simp
  qed
qed

lemma encode_lines:
  assumes "encode crc b64_encode f m = Inr wire"
  shows "\<exists>cs. split_lines wire = (marked_lines True cs, []) \<and> cs \<noteq> [] \<and>
    (\<forall>c \<in> set cs. c \<noteq> [] \<and> length c \<le> m - 3) \<and>
    concat cs = b64_encode (packet crc (header_bytes f @ fr_payload f)) \<and> 16 \<le> m"
proof -
  let ?e = "b64_encode (packet crc (header_bytes f @ fr_payload f))"
  from assms have m: "16 \<le> m" and wire: "wire = emit_lines True (chunks (m - 3) ?e)"
    by (auto simp: encode_def Let_def packet_def split: if_splits)
  have cat: "concat (chunks (m - 3) ?e) = ?e" using m by (intro concat_chunks) simp
  moreover have "split_lines wire = (marked_lines True (chunks (m - 3) ?e), [])"
    unfolding wire emit_lines_marked
    by (rule split_lines_concat_only)
      (use cat encode_no_newline in \<open>intro marked_lines_no_newline\<close>, simp)
  moreover have "?e \<noteq> []" by (rule encode_nonempty) simp
  then have "chunks (m - 3) ?e \<noteq> []" using cat by auto
  moreover have "\<forall>c \<in> set (chunks (m - 3) ?e). c \<noteq> [] \<and> length c \<le> m - 3"
    using chunks_bound by blast
  ultimately show ?thesis using m by blast
qed

lemma encode_pushed:
  assumes "encode crc b64_encode f m = Inr wire" and "length (fr_payload f) < 65526"
  shows "\<exists>k d'. push_lines crc b64_decode d (fst (split_lines wire)) =
    (replicate k (Inr None) @ [Inr (Some (header_bytes f @ fr_payload f))], d')"
proof -
  from encode_lines [OF assms(1)] obtain cs where
    cs: "split_lines wire = (marked_lines True cs, [])" "cs \<noteq> []" "\<forall>c \<in> set cs. c \<noteq> []"
      "concat cs = b64_encode (packet crc (header_bytes f @ fr_payload f))" by blast
  have "length (header_bytes f @ fr_payload f) + 2 < 65536" using assms(2) by simp
  from push_packet [OF this cs(2-4), of d] cs(1) show ?thesis by auto
qed

lemma encode_stream:
  assumes "encode crc b64_encode f m = Inr wire"
  shows "\<exists>ls. split_lines wire = (ls, []) \<and> wire = concat (map (\<lambda>l. l @ [10]) ls) \<and>
    (\<forall>l \<in> set ls. 10 \<notin> set l)"
proof -
  let ?e = "b64_encode (packet crc (header_bytes f @ fr_payload f))"
  from assms have m: "16 \<le> m" and wire: "wire = emit_lines True (chunks (m - 3) ?e)"
    by (auto simp: encode_def Let_def packet_def split: if_splits)
  have "concat (chunks (m - 3) ?e) = ?e" using m by (intro concat_chunks) simp
  with encode_no_newline have "\<forall>l \<in> set (marked_lines True (chunks (m - 3) ?e)). 10 \<notin> set l"
    by (intro marked_lines_no_newline) simp
  then show ?thesis unfolding wire emit_lines_marked using split_lines_concat_only by blast
qed

end

text \<open>The decoded text is a length prefix, the body and the body's checksum, then leftovers.\<close>

definition carries :: "(bytes \<Rightarrow> u16) \<Rightarrow> bytes \<Rightarrow> bytes \<Rightarrow> bool" where
  "carries crc decoded body \<longleftrightarrow>
     (\<exists>a b hi lo rest. decoded = a # b # body @ hi # lo # rest \<and>
        unat (from_be16 a b) = length body + 2 \<and> from_be16 hi lo = crc body)"

lemma try_complete_decoded:
  assumes "unb64 (dec_acc d) = Some (a # b # ds)" and "unat (from_be16 a b) = n"
  shows "try_complete crc unb64 d =
    (if length ds < n then (Inr None, d)
     else if n < 2 then (Inl NoRoomForCrc, d\<lparr>dec_in_packet := False\<rparr>)
     else if from_be16 (ds ! (n - 2)) (ds ! (n - 1)) \<noteq> crc (take (n - 2) ds)
     then (Inl (CrcMismatch (from_be16 (ds ! (n - 2)) (ds ! (n - 1))) (crc (take (n - 2) ds))),
           d\<lparr>dec_in_packet := False\<rparr>)
     else (Inr (Some (take (n - 2) ds)), d\<lparr>dec_in_packet := False\<rparr>))"
proof (cases "length ds < n \<or> n < 2")
  case False
  then have "length (take n ds) = n" and "take n ds ! (n - 2) = ds ! (n - 2)"
    and "take n ds ! (n - 2 + 1) = ds ! (n - 1)" and "take (n - 2) (take n ds) = take (n - 2) ds"
    by (simp_all add: Suc_diff_Suc numeral_2_eq_2)
  with assms False show ?thesis by (simp add: try_complete_def Let_def)
qed (use assms in \<open>auto simp: try_complete_def Let_def\<close>)

lemma try_complete_verified:
  assumes "try_complete crc unb64 d = (Inr (Some body), d')"
  shows "\<not> dec_in_packet d' \<and> (\<exists>decoded. unb64 (dec_acc d') = Some decoded \<and> carries crc decoded body)"
proof -
  from assms obtain decoded where "unb64 (dec_acc d) = Some decoded" and "2 \<le> length decoded"
    by (auto simp: try_complete_def not_less split: option.splits if_splits)
  then obtain a b ds where dec: "unb64 (dec_acc d) = Some (a # b # ds)"
    by (cases decoded; cases "tl decoded") auto
  define n where "n = unat (from_be16 a b)"
  from assms have n: "2 \<le> n" "n \<le> length ds" and d': "d' = d\<lparr>dec_in_packet := False\<rparr>"
    and body: "body = take (n - 2) ds"
    and crc: "from_be16 (ds ! (n - 2)) (ds ! (n - 1)) = crc body"
    unfolding try_complete_decoded [of unb64 d a b ds n crc, OF dec n_def [symmetric]] by (auto split: if_splits)
  have "a # b # ds = a # b # body @ ds ! (n - 2) # ds ! (n - 1) # drop n ds"
    using body id_take_nth_drop2 [OF n] by simp
  moreover have "n = length body + 2" using n body by simp
  ultimately have "carries crc (a # b # ds) body"
    unfolding carries_def using crc n_def by metis
  with dec d' show ?thesis by simp
qed

subsection \<open>A concrete checksum\<close>

text \<open>
  CRC-16/XMODEM as the module comment of \<open>codec.rs\<close> documents it (polynomial 0x1021, initial
  value 0), to evaluate packets with; the check value is the one the source's own test states.
\<close>

definition crc16_shift :: "u16 \<Rightarrow> u16" where
  "crc16_shift c = (if bit c 15 then push_bit 1 c XOR 4129 else push_bit 1 c)"

definition crc16_byte :: "u16 \<Rightarrow> byte \<Rightarrow> u16" where
  "crc16_byte c b = crc16_shift (crc16_shift (crc16_shift (crc16_shift
     (crc16_shift (crc16_shift (crc16_shift (crc16_shift (c XOR push_bit 8 (ucast b)))))))))"

definition crc16_xmodem :: "bytes \<Rightarrow> u16" where
  "crc16_xmodem bs = foldl crc16_byte 0 bs"

lemma crc16_xmodem_check: "crc16_xmodem [49, 50, 51, 52, 53, 54, 55, 56, 57] = 12739"
  by (simp add: crc16_xmodem_def crc16_byte_def crc16_shift_def)

subsection \<open>Properties\<close>

text \<open>C37: a frame survives the wire.  For every frame whose payload fits the 16-bit length prefix,
  every line limit the encoder accepts and whatever state the decoder was left in, \<open>encode\<close>
  succeeds, and pushing its lines yields nothing until the last one, which yields a body that
  \<open>Frame::parse\<close> turns back into the frame (with op and version cut to their 3 and 2 bits).\<close>
theorem packet_roundtrip:
  assumes "base64_engine b64 unb64" and "16 \<le> m" and "length (fr_payload f) < 65526"
  shows "\<exists>wire k body d'. encode crc b64 f m = Inr wire \<and>
    push_lines crc unb64 d (fst (split_lines wire)) = (replicate k (Inr None) @ [Inr (Some body)], d') \<and>
    frame_parse body = Inr (f\<lparr>fr_op := fr_op f AND 7, fr_version := fr_version f AND 3\<rparr>)"
proof -
  obtain wire where wire: "encode crc b64 f m = Inr wire"
    using assms(2) by (auto simp: encode_def Let_def)
  have "frame_parse (header_bytes f @ fr_payload f) =
      Inr (f\<lparr>fr_op := fr_op f AND 7, fr_version := fr_version f AND 3\<rparr>)"
    using assms(3) by (intro frame_parse_header) simp
  with wire base64_engine.encode_pushed [OF assms(1) wire assms(3)] show ?thesis by blast
qed

text \<open>An \<open>os\<close> echo request as \<open>mcumgr-toolkit\<close> sends it: a write, SMP version 1.\<close>

definition echo_request :: frame where
  "echo_request = \<lparr>fr_op = 2, fr_version = 1, fr_flags = 0, fr_group = 0, fr_seq = 66, fr_cmd = 0,
     fr_payload = [161, 97, 100, 98, 104, 98]\<rparr>"

theorem packet_roundtrip_witness:
  "\<exists>wire k body d'. encode crc16_xmodem rfc4648_encode echo_request 16 = Inr wire \<and>
    push_lines crc16_xmodem rfc4648_decode decoder_new (fst (split_lines wire)) =
      (replicate k (Inr None) @ [Inr (Some body)], d') \<and>
    frame_parse body = Inr echo_request"
  using packet_roundtrip [OF rfc4648.base64_engine_axioms, of 16 echo_request crc16_xmodem decoder_new]
  by (simp add: echo_request_def)

text \<open>Every line on the wire obeys the framing rules: the stream consists of complete lines
  only, the first carries the start marker and every later one the continuation marker, and with
  its line feed no line is longer than the limit.\<close>
theorem encode_framing:
  assumes "base64_engine b64 unb64" and "encode crc b64 f m = Inr wire"
  shows "snd (split_lines wire) = [] \<and>
    (\<exists>l ls. fst (split_lines wire) = l # ls \<and> take 2 l = MARKER_START \<and>
      (\<forall>c \<in> set ls. take 2 c = MARKER_CONT) \<and> (\<forall>c \<in> set (l # ls). length c + 1 \<le> m))"
proof -
  from base64_engine.encode_lines [OF assms] obtain cs where
    cs: "split_lines wire = (marked_lines True cs, [])" "cs \<noteq> []"
      "\<forall>c \<in> set cs. length c \<le> m - 3" "16 \<le> m" by blast
  then obtain c cs' where [simp]: "cs = c # cs'" by (cases cs) auto
  have "\<forall>l \<in> set (marked_lines False cs'). take 2 l = MARKER_CONT"
    by (induction cs') auto
  moreover have "\<forall>l \<in> set (marked_lines True cs). length l + 1 \<le> m"
    using cs(3,4) by (fastforce dest: marked_lines_bound)
  ultimately show ?thesis using cs(1) by simp
qed

theorem encode_framing_witness:
  "\<exists>wire. encode crc16_xmodem rfc4648_encode echo_request 16 = Inr wire \<and> snd (split_lines wire) = [] \<and>
    (\<exists>l ls. fst (split_lines wire) = l # ls \<and> take 2 l = MARKER_START \<and>
      (\<forall>c \<in> set ls. take 2 c = MARKER_CONT) \<and> (\<forall>c \<in> set (l # ls). length c + 1 \<le> 16))"
proof -
  obtain wire where wire: "encode crc16_xmodem rfc4648_encode echo_request 16 = Inr wire"
    by (auto simp: encode_def Let_def)
  then show ?thesis using encode_framing [OF rfc4648.base64_engine_axioms wire] by blast
qed

text \<open>The decoder hands on only what it has verified.  A body comes out of \<open>push_line\<close> only for
  a start line, or for a continuation of a packet that was started; it is then exactly the part of
  the decoded text its length prefix delimits, less the two checksum bytes, and the checksum of
  the body is the one that was sent.\<close>
theorem push_line_verified:
  assumes "push_line crc unb64 d line = (Inr (Some body), d')"
  shows "(take 2 line = MARKER_START \<or> (take 2 line = MARKER_CONT \<and> dec_in_packet d)) \<and>
    \<not> dec_in_packet d' \<and>
    (\<exists>decoded. unb64 (dec_acc d') = Some decoded \<and> carries crc decoded body)"
  using assms
  by (auto simp: push_line_def Let_def dest: try_complete_verified split: if_splits)

text \<open>The single start line of an echo request, as the encoder writes it.\<close>

lemma echo_request_wire:
  "encode crc16_xmodem rfc4648_encode echo_request 127 =
    Inr ([6, 9, 65, 66, 65, 75, 65, 65, 65, 71, 65, 65, 66, 67, 65, 75, 70, 104, 90, 71, 74, 111, 89,
      105, 112, 104, 10])"
  by (simp add: encode_def echo_request_def header_bytes_def to_be16_def crc16_xmodem_def crc16_byte_def
      crc16_shift_def b64_symbol_def chunks_step MARKER_START_def)

theorem push_line_verified_witness:
  "push_line crc16_xmodem rfc4648_decode decoder_new
      [6, 9, 65, 66, 65, 75, 65, 65, 65, 71, 65, 65, 66, 67, 65, 75, 70, 104, 90, 71, 74, 111, 89,
        105, 112, 104]
    = (Inr (Some [10, 0, 0, 6, 0, 0, 66, 0, 161, 97, 100, 98, 104, 98]),
       \<lparr>dec_acc = [65, 66, 65, 75, 65, 65, 65, 71, 65, 65, 66, 67, 65, 75, 70, 104, 90, 71, 74, 111,
          89, 105, 112, 104], dec_in_packet = False\<rparr>) \<and>
   (\<exists>decoded. rfc4648_decode [65, 66, 65, 75, 65, 65, 65, 71, 65, 65, 66, 67, 65, 75, 70, 104, 90,
        71, 74, 111, 89, 105, 112, 104] = Some decoded \<and>
      carries crc16_xmodem decoded [10, 0, 0, 6, 0, 0, 66, 0, 161, 97, 100, 98, 104, 98])"
proof -
  let ?line = "[6, 9, 65, 66, 65, 75, 65, 65, 65, 71, 65, 65, 66, 67, 65, 75, 70, 104, 90, 71, 74,
    111, 89, 105, 112, 104] :: bytes"
  have push: "push_line crc16_xmodem rfc4648_decode decoder_new ?line
    = (Inr (Some [10, 0, 0, 6, 0, 0, 66, 0, 161, 97, 100, 98, 104, 98]),
       \<lparr>dec_acc = drop 2 ?line, dec_in_packet = False\<rparr>)"
    by (simp add: push_line_def try_complete_def decoder_new_def MARKER_START_def b64_value_def
        b64_byte_def from_be16_def crc16_xmodem_def crc16_byte_def crc16_shift_def)
  show ?thesis using push push_line_verified [OF push] by simp
qed

end
