(* ===== verification/Demux.thy ===== *)
theory Demux
  imports Rust_Prelude
begin

text \<open>
  The log demultiplexer of \<open>crates/runtt-smp/src/demux.rs\<close>, used on single-channel targets where
  application output and SMP frames share one byte pipe.  A reader thread (\<open>pump\<close>) splits the pipe
  into lines and routes each by its prefix; the SMP client reads the frames back from a queue
  (\<open>LogDemux::read\<close>).  What the serial port, the stop flag and the channel do at each turn of the
  reader's loop is the environment's choice, given to \<open>pump\<close> as a script; the mpsc queue is a list,
  and it reports a disconnect only once it is empty, as the standard library documents.
\<close>

definition SMP_MARKER_START :: bytes where "SMP_MARKER_START = [6, 9]"
definition SMP_MARKER_CONT :: bytes where "SMP_MARKER_CONT = [4, 20]"

text \<open>How long the reader blocks before looping, in milliseconds.\<close>

definition POLL :: nat where "POLL = 250"

definition is_smp_line :: "bytes \<Rightarrow> bool" where
  "is_smp_line line \<longleftrightarrow> prefix SMP_MARKER_START line \<or> prefix SMP_MARKER_CONT line"

subsection \<open>The reader thread\<close>

record pump_state =
  pm_line :: bytes              \<comment> \<open>the line being assembled\<close>
  pm_smp :: "bytes list"        \<comment> \<open>what was sent to the client's queue\<close>
  pm_logs :: "bytes list"       \<comment> \<open>what was given to the log sink\<close>

datatype read_result = Data bytes | ReadTimedOut | ReadWouldBlock | ReadFailed

datatype pump_status =
    Polling          \<comment> \<open>the script ends here; the thread loops on\<close>
  | StopRequested
  | DeviceGone       \<comment> \<open>end of file or a read error\<close>
  | ClientGone       \<comment> \<open>nobody receives from the queue any more\<close>

definition strip_cr :: "bytes \<Rightarrow> bytes" where
  "strip_cr line = (if line \<noteq> [] \<and> last line = 13 then butlast line else line)"

fun pump_bytes :: "bool \<Rightarrow> pump_state \<Rightarrow> bytes \<Rightarrow> pump_state \<times> bool" where
  "pump_bytes client_alive p [] = (p, False)"
| "pump_bytes client_alive p (byte # rest) =
     (if byte \<noteq> 10 then pump_bytes client_alive (p\<lparr>pm_line := pm_line p @ [byte]\<rparr>) rest
      else if is_smp_line (pm_line p) then
        (if client_alive
         then pump_bytes client_alive
                (p\<lparr>pm_line := [], pm_smp := pm_smp p @ [pm_line p @ [10]]\<rparr>) rest
         else (p\<lparr>pm_line := []\<rparr>, True))
      else
        let log = strip_cr (pm_line p) in
        pump_bytes client_alive
          (p\<lparr>pm_line := [], pm_logs := (if log = [] then pm_logs p else pm_logs p @ [log])\<rparr>) rest)"

text \<open>One entry of the script: the stop flag, whether the client's end of the queue is alive, and
  what the read returned.  An empty \<open>Data\<close> is \<open>Ok(0)\<close>, end of file.\<close>

fun pump :: "pump_state \<Rightarrow> (bool \<times> bool \<times> read_result) list \<Rightarrow> pump_state \<times> pump_status" where
  "pump p [] = (p, Polling)"
| "pump p ((stop, client_alive, r) # script) =
     (if stop then (p, StopRequested)
      else case r of
        Data buf \<Rightarrow>
          (if buf = [] then (p, DeviceGone)
           else case pump_bytes client_alive p buf of
             (p', gone) \<Rightarrow> if gone then (p', ClientGone) else pump p' script)
      | ReadTimedOut \<Rightarrow> pump p script
      | ReadWouldBlock \<Rightarrow> pump p script
      | ReadFailed \<Rightarrow> (p, DeviceGone))"

definition pump_start :: pump_state where
  "pump_start = \<lparr>pm_line = [], pm_smp = [], pm_logs = []\<rparr>"

subsection \<open>The client's side\<close>

datatype io_kind = TimedOut | WouldBlock | OtherKind

record log_demux =
  dx_queue :: "bytes list"      \<comment> \<open>lines sent and not yet received\<close>
  dx_connected :: bool          \<comment> \<open>the reader thread still holds the sender\<close>
  dx_pending :: bytes
  dx_timeout :: nat

definition demux_read :: "nat \<Rightarrow> log_demux \<Rightarrow> (io_kind + bytes) \<times> log_demux" where
  "demux_read buf_len d =
     (let take_pending = (\<lambda>d. (Inr (take buf_len (dx_pending d)),
                               d\<lparr>dx_pending := drop buf_len (dx_pending d)\<rparr>))
      in if dx_pending d = [] then
           (case dx_queue d of
              line # rest \<Rightarrow> take_pending (d\<lparr>dx_pending := line, dx_queue := rest\<rparr>)
            | [] \<Rightarrow> if dx_connected d then (Inl TimedOut, d) else (Inr [], d))
         else take_pending d)"

definition demux_set_timeout :: "nat \<Rightarrow> log_demux \<Rightarrow> log_demux" where
  "demux_set_timeout duration d = d\<lparr>dx_timeout := duration\<rparr>"

text \<open>\<open>LogDemux::with_sink\<close>: duplicating the port and setting the poll timeout may fail.\<close>

definition with_sink :: "('e + unit) \<Rightarrow> (nat \<Rightarrow> 'e + unit) \<Rightarrow> nat \<Rightarrow> 'e + (log_demux \<times> pump_state)" where
  "with_sink try_clone set_port_timeout timeout =
     bind_result try_clone (\<lambda>_.
     bind_result (set_port_timeout POLL) (\<lambda>_.
       Inr (\<lparr>dx_queue = [], dx_connected = True, dx_pending = [], dx_timeout = timeout\<rparr>,
            pump_start)))"

text \<open>A sequence of reads: the bytes received, up to the first timeout or end of file.\<close>

fun demux_reads :: "nat list \<Rightarrow> log_demux \<Rightarrow> bytes \<times> log_demux" where
  "demux_reads [] d = ([], d)"
| "demux_reads (n # ns) d =
     (case demux_read n d of
        (Inl _, d') \<Rightarrow> ([], d')
      | (Inr bs, d') \<Rightarrow>
          if bs = [] then ([], d') else (case demux_reads ns d' of (cs, d'') \<Rightarrow> (bs @ cs, d'')))"

subsection \<open>Routing, declaratively\<close>

definition smp_lines :: "bytes list \<Rightarrow> bytes list" where
  "smp_lines ls = map (\<lambda>l. l @ [10]) (filter is_smp_line ls)"

definition log_lines :: "bytes list \<Rightarrow> bytes list" where
  "log_lines ls = filter (\<lambda>l. l \<noteq> []) (map strip_cr (filter (\<lambda>l. \<not> is_smp_line l) ls))"

lemma smp_lines_simps [simp]:
  "smp_lines [] = []"
  "smp_lines (l # ls) = (if is_smp_line l then (l @ [10]) # smp_lines ls else smp_lines ls)"
  by (simp_all add: smp_lines_def)

lemma log_lines_simps [simp]:
  "log_lines [] = []"
  "log_lines (l # ls) =
     (if is_smp_line l \<or> strip_cr l = [] then log_lines ls else strip_cr l # log_lines ls)"
  by (simp_all add: log_lines_def)

lemma pump_bytes_routes:
  "10 \<notin> set (pm_line p) \<Longrightarrow> split_lines (pm_line p @ bs) = (ls, rest) \<Longrightarrow>
    pump_bytes True p bs =
      (\<lparr>pm_line = rest, pm_smp = pm_smp p @ smp_lines ls, pm_logs = pm_logs p @ log_lines ls\<rparr>, False)"
proof (induction bs arbitrary: p ls)
  case Nil
  then show ?case by (cases p) (simp add: split_lines_no_newline)
next
  case (Cons b bs)
  show ?case
  proof (cases "b = 10")
    case True
    with Cons.prems obtain ls' where ls: "ls = pm_line p # ls'" and rec: "split_lines bs = (ls', rest)"
      by (auto simp: split_lines_line prod_eq_iff)
    with True show ?thesis
      by (simp add: Cons.IH Let_def)
  next
    case False
    then show ?thesis using Cons.prems Cons.IH [of "p\<lparr>pm_line := pm_line p @ [b]\<rparr>" ls] by simp
  qed
qed

text \<open>A script in which the thread runs undisturbed, and the bytes it reads.\<close>

definition undisturbed :: "(bool \<times> bool \<times> read_result) list \<Rightarrow> bool" where
  "undisturbed script \<longleftrightarrow>
     list_all (\<lambda>(stop, alive, r). \<not> stop \<and> alive \<and> r \<noteq> ReadFailed \<and> r \<noteq> Data []) script"

fun script_bytes :: "(bool \<times> bool \<times> read_result) list \<Rightarrow> bytes" where
  "script_bytes [] = []"
| "script_bytes ((_, _, Data bs) # script) = bs @ script_bytes script"
| "script_bytes (_ # script) = script_bytes script"

lemma pump_routes_from:
  "undisturbed script \<Longrightarrow> 10 \<notin> set (pm_line p) \<Longrightarrow>
    split_lines (pm_line p @ script_bytes script) = (ls, rest) \<Longrightarrow>
    pump p script =
      (\<lparr>pm_line = rest, pm_smp = pm_smp p @ smp_lines ls, pm_logs = pm_logs p @ log_lines ls\<rparr>, Polling)"
proof (induction script arbitrary: p ls)
  case Nil
  then show ?case by (cases p) (simp add: split_lines_no_newline)
next
  case (Cons e script)
  obtain stop alive r where e: "e = (stop, alive, r)" by (cases e) auto
  from Cons.prems(1) e have ok: "\<not> stop" "alive" "r \<noteq> ReadFailed" "r \<noteq> Data []"
    and rec: "undisturbed script" by (simp_all add: undisturbed_def)
  show ?case
  proof (cases r)
    case (Data buf)
    obtain ls1 rest1 where first: "split_lines (pm_line p @ buf) = (ls1, rest1)" by fastforce
    obtain ls2 where second: "split_lines (rest1 @ script_bytes script) = (ls2, rest)"
      and ls: "ls = ls1 @ ls2"
      using Cons.prems(3) split_lines_append [OF first, of "script_bytes script"] e Data
      by (auto simp: prod_eq_iff)
    from pump_bytes_routes [OF Cons.prems(2) first] ok Data e
      Cons.IH [OF rec, of "\<lparr>pm_line = rest1, pm_smp = pm_smp p @ smp_lines ls1,
        pm_logs = pm_logs p @ log_lines ls1\<rparr>", simplified, OF split_lines_rest_no_newline [OF first] second]
    show ?thesis by (simp add: ls smp_lines_def log_lines_def)
  qed (use Cons.IH [OF rec Cons.prems(2)] Cons.prems(3) ok e in simp_all)
qed

subsection \<open>Reading it back\<close>

lemma demux_read_conserves:
  "demux_read n d = (Inr bs, d') \<Longrightarrow>
    bs @ dx_pending d' @ concat (dx_queue d') = dx_pending d @ concat (dx_queue d)"
  by (auto simp: demux_read_def Let_def split: if_splits list.splits)

lemma demux_read_error_conserves:
  "demux_read n d = (Inl e, d') \<Longrightarrow> d' = d \<and> dx_pending d = [] \<and> dx_queue d = [] \<and> dx_connected d"
  by (auto simp: demux_read_def Let_def split: if_splits list.splits)

lemma demux_read_eof:
  "demux_read n d = (Inr [], d') \<Longrightarrow> 0 < n \<Longrightarrow> [] \<notin> set (dx_queue d) \<Longrightarrow>
    d' = d \<and> dx_pending d = [] \<and> dx_queue d = [] \<and> \<not> dx_connected d"
  by (auto simp: demux_read_def Let_def split: if_splits list.splits)

lemma demux_read_frame:
  "demux_read n d = (r, d') \<Longrightarrow> dx_connected d' = dx_connected d \<and> dx_timeout d' = dx_timeout d \<and>
    set (dx_queue d') \<subseteq> set (dx_queue d)"
  by (auto simp: demux_read_def Let_def split: if_splits list.splits)

lemma demux_reads_conserves:
  "demux_reads ns d = (bs, d') \<Longrightarrow>
    bs @ dx_pending d' @ concat (dx_queue d') = dx_pending d @ concat (dx_queue d)"
proof (induction ns arbitrary: d bs)
  case (Cons n ns)
  obtain r d1 where read: "demux_read n d = (r, d1)" by fastforce
  show ?case
  proof (cases r)
    case (Inl e)
    with Cons.prems read show ?thesis by (auto dest: demux_read_error_conserves)
  next
    case (Inr cs)
    with read have conserve: "cs @ dx_pending d1 @ concat (dx_queue d1) = dx_pending d @ concat (dx_queue d)"
      by (simp add: demux_read_conserves)
    show ?thesis
    proof (cases "cs = []")
      case True
      with Cons.prems read Inr conserve show ?thesis by simp
    next
      case False
      with Cons.prems read Inr obtain es where "demux_reads ns d1 = (es, d')" and "bs = cs @ es"
        by (auto split: prod.splits)
      with Cons.IH conserve show ?thesis by simp
    qed
  qed
qed simp

subsection \<open>Properties\<close>

text \<open>However the kernel cuts the byte stream into reads, and however many poll timeouts fall
  between them, the reader thread routes exactly the complete lines of the stream: the client's
  queue gets the lines with an SMP marker, each with its line feed restored, the sink gets every
  other line that is not empty, without a trailing carriage return, both in stream order, and the
  unterminated rest is kept.\<close>
theorem pump_routes:
  assumes "undisturbed script"
  shows "pump pump_start script =
    (case split_lines (script_bytes script) of (ls, rest) \<Rightarrow>
      (\<lparr>pm_line = rest, pm_smp = smp_lines ls, pm_logs = log_lines ls\<rparr>, Polling))"
proof -
  obtain ls rest where "split_lines (script_bytes script) = (ls, rest)" by fastforce
  with pump_routes_from [OF assms, of pump_start] show ?thesis by (simp add: pump_start_def)
qed

theorem pump_routes_witness:
  "pump pump_start [(False, True, Data [104, 105, 13, 10, 6]), (False, True, ReadTimedOut),
      (False, True, Data [9, 65, 10, 111])] =
    (\<lparr>pm_line = [111], pm_smp = [[6, 9, 65, 10]], pm_logs = [[104, 105]]\<rparr>, Polling)"
  using pump_routes [of "[(False, True, Data [104, 105, 13, 10, 6]), (False, True, ReadTimedOut),
      (False, True, Data [9, 65, 10, 111])]"]
  by (simp add: undisturbed_def is_smp_line_def SMP_MARKER_START_def SMP_MARKER_CONT_def strip_cr_def)

text \<open>The SMP client loses nothing, repeats nothing and sees end of file only at the end.  For
  any sequence of read sizes, the bytes received followed by what is still pending and queued are
  what was pending and queued before; a read of a non-zero size returns no bytes only when the
  reader thread is gone and everything it sent has been handed out.\<close>
theorem demux_reads_in_order:
  assumes "demux_reads ns d = (bs, d')" and "[] \<notin> set (dx_queue d)"
  shows "bs @ dx_pending d' @ concat (dx_queue d') = dx_pending d @ concat (dx_queue d) \<and>
    (\<forall>n d''. 0 < n \<longrightarrow> demux_read n d = (Inr [], d'') \<longrightarrow>
      \<not> dx_connected d \<and> dx_pending d @ concat (dx_queue d) = [])"
  using demux_reads_conserves [OF assms(1)] demux_read_eof [OF _ _ assms(2)] by fastforce

theorem demux_reads_in_order_witness:
  "demux_reads [2, 2, 8] \<lparr>dx_queue = [[6, 9, 10], [4, 20, 10]], dx_connected = True,
      dx_pending = [], dx_timeout = 10000\<rparr> =
    ([6, 9, 10, 4, 20, 10], \<lparr>dx_queue = [], dx_connected = True, dx_pending = [], dx_timeout = 10000\<rparr>) \<and>
   [6, 9, 10, 4, 20, 10] = concat [[6, 9, 10 :: byte], [4, 20, 10]]"
proof -
  let ?d = "\<lparr>dx_queue = [[6, 9, 10], [4, 20, 10]], dx_connected = True, dx_pending = [],
    dx_timeout = 10000\<rparr>"
  let ?d' = "\<lparr>dx_queue = [], dx_connected = True, dx_pending = [], dx_timeout = 10000\<rparr>"
  have run: "demux_reads [2, 2, 8] ?d = ([6, 9, 10, 4, 20, 10], ?d')"
    by (simp add: demux_read_def Let_def)
  show ?thesis using run demux_reads_in_order [OF run] by simp
qed

end
