(* ===== verification/Mcuboot.thy ===== *)
theory Mcuboot
  imports Rust_Prelude
begin

text \<open>
  The MCUboot image parser of \<open>crates/runtt-smp/src/mcuboot.rs\<close>: it checks the header and walks
  the TLV areas behind the image body for the SHA-256 entry, the identity the device reports.
  The result has three layers: \<open>None\<close> is a call that never returns (\<open>find_sha256\<close> recurses without
  a bound), \<open>Some Panic\<close> a panic, \<open>Some (Done r)\<close> a return with the \<open>Result\<close> \<open>r\<close>.
\<close>

definition IMAGE_MAGIC :: u32 where "IMAGE_MAGIC = 0x96f3b83d"
definition TLV_INFO_MAGIC :: u16 where "TLV_INFO_MAGIC = 0x6907"
definition TLV_PROT_INFO_MAGIC :: u16 where "TLV_PROT_INFO_MAGIC = 0x6908"
definition TLV_SHA256 :: byte where "TLV_SHA256 = 0x10"
definition HEADER_LEN :: nat where "HEADER_LEN = 32"

record image_info =
  ii_digest :: bytes
  ii_version :: string
  ii_header_size :: u16
  ii_image_size :: u32

datatype image_error =
    ImageTooShort nat
  | BadMagic u32
  | SizesOverflow
  | NoShaTlv

text \<open>Reads of the header: \<open>parse\<close> has checked that the 32 header bytes are there.\<close>

definition u16le :: "bytes \<Rightarrow> nat \<Rightarrow> u16" where
  "u16le b at = from_le16 (b ! at) (b ! (at + 1))"

definition u32le :: "bytes \<Rightarrow> nat \<Rightarrow> u32" where
  "u32le b at = from_le32 (b ! at) (b ! (at + 1)) (b ! (at + 2)) (b ! (at + 3))"

subsection \<open>The TLV walk\<close>

datatype walk = Found bytes | Malformed | Exhausted

text \<open>The \<open>while\<close> loop of \<open>find_sha256\<close>: \<open>Malformed\<close> is its \<open>return None\<close>.\<close>

partial_function (option) tlv_walk ::
    "usize_cfg \<Rightarrow> bytes \<Rightarrow> nat \<Rightarrow> nat \<Rightarrow> walk outcome option" where
  "tlv_walk c img area_end at =
     (case usize_add c at 4 of
        Panic \<Rightarrow> Some Panic
      | Done data_at \<Rightarrow>
          if area_end < data_at then Some (Done Exhausted)
          else
            (case byte_at img at of
               Panic \<Rightarrow> Some Panic
             | Done kind \<Rightarrow>
                 (case u16le_at img (at + 2) of
                    Panic \<Rightarrow> Some Panic
                  | Done len \<Rightarrow>
                      (case usize_add c data_at (unat len) of
                         Panic \<Rightarrow> Some Panic
                       | Done data_end \<Rightarrow>
                           if length img < data_end then Some (Done Malformed)
                           else if kind = TLV_SHA256 \<and> unat len = 32 then
                             (if data_end < data_at then Some Panic
                              else Some (Done (Found (take 32 (drop data_at img)))))
                           else tlv_walk c img area_end data_end))))"

partial_function (option) find_sha256 ::
    "usize_cfg \<Rightarrow> bytes \<Rightarrow> nat \<Rightarrow> bytes option outcome option" where
  "find_sha256 c img start =
     (case usize_add c start 4 of
        Panic \<Rightarrow> Some Panic
      | Done first \<Rightarrow>
          if length img < first then Some (Done None)
          else
            (case u16le_at img start of
               Panic \<Rightarrow> Some Panic
             | Done magic \<Rightarrow>
                 if magic \<noteq> TLV_INFO_MAGIC \<and> magic \<noteq> TLV_PROT_INFO_MAGIC then Some (Done None)
                 else
                   (case u16le_at img (start + 2) of
                      Panic \<Rightarrow> Some Panic
                    | Done area_len \<Rightarrow>
                        (case usize_add c start (unat area_len) of
                           Panic \<Rightarrow> Some Panic
                         | Done stated_end \<Rightarrow>
                             (case tlv_walk c img (min stated_end (length img)) first of
                                None \<Rightarrow> None
                              | Some Panic \<Rightarrow> Some Panic
                              | Some (Done (Found d)) \<Rightarrow> Some (Done (Some d))
                              | Some (Done Malformed) \<Rightarrow> Some (Done None)
                              | Some (Done Exhausted) \<Rightarrow>
                                  if magic = TLV_PROT_INFO_MAGIC
                                  then find_sha256 c img (min stated_end (length img))
                                  else Some (Done None))))))"

text \<open>\<open>struct image_version\<close>: major, minor, revision, build number.\<close>

definition image_version :: "bytes \<Rightarrow> string" where
  "image_version img =
     dec_string (unat (img ! 20)) @ ''.'' @ dec_string (unat (img ! 21)) @ ''.''
       @ dec_string (unat (u16le img 22)) @ ''+'' @ dec_string (unat (u32le img 24))"

definition mcuboot_parse ::
    "usize_cfg \<Rightarrow> bytes \<Rightarrow> (image_error + image_info) outcome option" where
  "mcuboot_parse c img =
     (if length img < HEADER_LEN then Some (Done (Inl (ImageTooShort (length img))))
      else if u32le img 0 \<noteq> IMAGE_MAGIC then Some (Done (Inl (BadMagic (u32le img 0))))
      else
        let header_size = u16le img 8;
            protect_tlv_size = unat (u16le img 10);
            image_size = u32le img 12;
            version = image_version img;
            finish = (\<lambda>digest. Done (case digest of
                None \<Rightarrow> Inl NoShaTlv
              | Some d \<Rightarrow> Inr \<lparr>ii_digest = d, ii_version = version,
                              ii_header_size = header_size, ii_image_size = image_size\<rparr>))
        in case usize_add c (unat header_size) (unat image_size) of
             Panic \<Rightarrow> Some Panic
           | Done body_end \<Rightarrow>
               (case checked_add c body_end protect_tlv_size of
                  None \<Rightarrow> Some (Done (Inl SizesOverflow))
                | Some after_protected \<Rightarrow>
                    let cursor = (if protect_tlv_size = 0 then body_end else after_protected) in
                    (case find_sha256 c img cursor of
                       None \<Rightarrow> None
                     | Some Panic \<Rightarrow> Some Panic
                     | Some (Done (Some d)) \<Rightarrow> Some (finish (Some d))
                     | Some (Done None) \<Rightarrow>
                         if protect_tlv_size \<noteq> 0 then
                           (case find_sha256 c img body_end of
                              None \<Rightarrow> None
                            | Some Panic \<Rightarrow> Some Panic
                            | Some (Done digest) \<Rightarrow> Some (finish digest))
                         else Some (finish None))))"

definition cfg64 :: "bool \<Rightarrow> usize_cfg" where
  "cfg64 checks = \<lparr>ptr_bits = 64, overflow_checks = checks\<rparr>"

subsection \<open>The walk returns\<close>

lemma unat_u16_bound: "unat (w :: u16) \<le> 65535"
  using unat_u16_less [of w] by linarith

lemma u16le_at_Done: "i + 1 < length bs \<Longrightarrow> u16le_at bs i = Done (from_le16 (bs ! i) (bs ! (i + 1)))"
  by (simp add: u16le_at_def)

text \<open>The address space has room for the image and one more 16-bit length.\<close>

definition roomy :: "usize_cfg \<Rightarrow> bytes \<Rightarrow> bool" where
  "roomy c img \<longleftrightarrow> length img + 65540 < 2 ^ ptr_bits c"

lemma roomy_add:
  "roomy c img \<Longrightarrow> a \<le> length img \<Longrightarrow> usize_add c a 4 = Done (a + 4)"
  "roomy c img \<Longrightarrow> a \<le> length img \<Longrightarrow> usize_add c a (unat (w :: u16)) = Done (a + unat w)"
  "roomy c img \<Longrightarrow> a \<le> length img \<Longrightarrow> usize_add c (a + 4) (unat (w :: u16)) = Done (a + 4 + unat w)"
  using unat_u16_bound [of w] by (simp_all add: roomy_def)

lemma tlv_walk_done:
  "roomy c img \<Longrightarrow> at \<le> length img \<Longrightarrow> area_end < at + 4 \<Longrightarrow>
    tlv_walk c img area_end at = Some (Done Exhausted)"
  using roomy_add [of c img at] by (subst tlv_walk.simps) simp

lemma tlv_walk_step:
  assumes "roomy c img" and "area_end \<le> length img" and "at + 4 \<le> area_end"
    and "len = unat (from_le16 (img ! Suc (Suc at)) (img ! Suc (Suc (Suc at))))"
  shows "tlv_walk c img area_end at =
      (if length img < at + 4 + len then Some (Done Malformed)
       else if img ! at = TLV_SHA256 \<and> len = 32
         then Some (Done (Found (take 32 (drop (at + 4) img))))
       else tlv_walk c img area_end (at + 4 + len))"
  using assms roomy_add [OF assms(1), of at]
  by (subst tlv_walk.simps) (simp add: byte_at_def u16le_at_def)

text \<open>A digest the walk may return: the data of some 32-byte SHA-256 entry of the image.\<close>

definition sha_entry :: "bytes \<Rightarrow> bytes \<Rightarrow> bool" where
  "sha_entry img d \<longleftrightarrow> (\<exists>k. k + 36 \<le> length img \<and> img ! k = TLV_SHA256 \<and>
      from_le16 (img ! (k + 2)) (img ! (k + 3)) = 32 \<and> d = take 32 (drop (k + 4) img))"

lemma tlv_walk_returns:
  assumes "roomy c img" and "area_end \<le> length img"
  shows "at \<le> length img \<Longrightarrow>
    \<exists>w. tlv_walk c img area_end at = Some (Done w) \<and> (\<forall>d. w = Found d \<longrightarrow> sha_entry img d)"
proof (induction "area_end - at" arbitrary: at rule: less_induct)
  case less
  show ?case
  proof (cases "area_end < at + 4")
    case True
    with tlv_walk_done [OF assms(1) less.prems] show ?thesis by simp
  next
    case False
    define w where "w = from_le16 (img ! Suc (Suc at)) (img ! Suc (Suc (Suc at)))"
    have step: "tlv_walk c img area_end at =
      (if length img < at + 4 + unat w then Some (Done Malformed)
       else if img ! at = TLV_SHA256 \<and> unat w = 32
         then Some (Done (Found (take 32 (drop (at + 4) img))))
       else tlv_walk c img area_end (at + 4 + unat w))"
      using False by (intro tlv_walk_step [OF assms]) (simp_all add: w_def)
    consider "length img < at + 4 + unat w"
      | "at + 4 + unat w \<le> length img" "img ! at = TLV_SHA256" "unat w = 32"
      | "at + 4 + unat w \<le> length img" "\<not> (img ! at = TLV_SHA256 \<and> unat w = 32)"
      by linarith
    then show ?thesis
    proof cases
      case 2
      have "w = 32" using 2(3) by (intro unsigned_word_eqI) simp
      with 2 have "sha_entry img (take 32 (drop (at + 4) img))"
        unfolding sha_entry_def by (intro exI [of _ at]) (simp add: w_def numeral_3_eq_3)
      with 2 show ?thesis unfolding step by simp
    next
      case 3
      with False have "area_end - (at + 4 + unat w) < area_end - at" by simp
      from less.hyps [OF this] 3 show ?thesis unfolding step by auto
    qed (simp add: step)
  qed
qed

text \<open>An area header at \<open>start\<close>: its magic and its stated length.\<close>

definition area_at :: "bytes \<Rightarrow> nat \<Rightarrow> (u16 \<times> u16) option" where
  "area_at img start =
     (if start + 4 \<le> length img
      then Some (from_le16 (img ! start) (img ! (start + 1)),
                 from_le16 (img ! (start + 2)) (img ! (start + 2 + 1)))
      else None)"

lemma find_sha256_area:
  assumes "roomy c img" and "start \<le> length img"
  shows "find_sha256 c img start =
    (case area_at img start of
       None \<Rightarrow> Some (Done None)
     | Some (magic, area_len) \<Rightarrow>
         if magic \<noteq> TLV_INFO_MAGIC \<and> magic \<noteq> TLV_PROT_INFO_MAGIC then Some (Done None)
         else
           (case tlv_walk c img (min (start + unat area_len) (length img)) (start + 4) of
              None \<Rightarrow> None
            | Some Panic \<Rightarrow> Some Panic
            | Some (Done (Found d)) \<Rightarrow> Some (Done (Some d))
            | Some (Done Malformed) \<Rightarrow> Some (Done None)
            | Some (Done Exhausted) \<Rightarrow>
                if magic = TLV_PROT_INFO_MAGIC
                then find_sha256 c img (min (start + unat area_len) (length img))
                else Some (Done None)))"
  using roomy_add [OF assms]
  by (subst find_sha256.simps) (simp add: area_at_def u16le_at_def)

text \<open>No protected area in the image states a length of zero.\<close>

definition no_empty_protected_area :: "bytes \<Rightarrow> bool" where
  "no_empty_protected_area img \<longleftrightarrow>
     (\<forall>start < length img. area_at img start \<noteq> Some (TLV_PROT_INFO_MAGIC, 0))"

lemma find_sha256_returns:
  assumes "roomy c img" and "no_empty_protected_area img"
  shows "start \<le> length img \<Longrightarrow>
    \<exists>r. find_sha256 c img start = Some (Done r) \<and> (\<forall>d. r = Some d \<longrightarrow> sha_entry img d)"
proof (induction "length img - start" arbitrary: start rule: less_induct)
  case less
  show ?case
  proof (cases "area_at img start")
    case None
    with find_sha256_area [OF assms(1) less.prems] show ?thesis by simp
  next
    case (Some ml)
    obtain magic area_len where ml: "ml = (magic, area_len)" by (cases ml) auto
    let ?stop = "min (start + unat area_len) (length img)"
    from Some have start: "start + 4 \<le> length img" by (auto simp: area_at_def split: if_splits)
    obtain w where w: "tlv_walk c img ?stop (start + 4) = Some (Done w)"
      and found: "\<forall>d. w = Found d \<longrightarrow> sha_entry img d"
      using tlv_walk_returns [OF assms(1), of ?stop "start + 4"] start by auto
    have rec: "\<exists>r. find_sha256 c img ?stop = Some (Done r) \<and> (\<forall>d. r = Some d \<longrightarrow> sha_entry img d)"
      if "magic = TLV_PROT_INFO_MAGIC"
    proof (rule less.hyps)
      from assms(2) start Some ml that have "area_len \<noteq> 0"
        by (auto simp: no_empty_protected_area_def)
      then have "0 < unat area_len" by (simp add: unat_gt_0)
      with start show "length img - ?stop < length img - start" by auto
    qed simp
    then show ?thesis
      using find_sha256_area [OF assms(1) less.prems] Some ml w found by (cases w) auto
  qed
qed

text \<open>A protected area of stated length zero is its own successor: the recursion never ends.\<close>

lemma find_sha256_diverges:
  assumes "roomy c img" and "area_at img start = Some (TLV_PROT_INFO_MAGIC, 0)"
  shows "find_sha256 c img start = None"
proof (rule ccontr)
  assume "find_sha256 c img start \<noteq> None"
  then obtain d where ret: "find_sha256 c img start = Some d" by auto
  from assms(2) have start: "start + 4 \<le> length img" by (auto simp: area_at_def split: if_splits)
  have walk: "tlv_walk c img start (start + 4) = Some (Done Exhausted)"
    using roomy_add [OF assms(1), of "start + 4"] start by (subst tlv_walk.simps) simp
  have "\<not> (c = c \<and> img = img \<and> start = start)"
  proof (rule find_sha256.raw_induct
      [where P = "\<lambda>c' img' start' _. \<not> (c' = c \<and> img' = img \<and> start' = start)", OF _ ret], goal_cases)
    case (1 f c' img' start' r)
    show ?case
    proof
      assume same: "c' = c \<and> img' = img \<and> start' = start"
      with 1(2) walk start assms(2) roomy_add [OF assms(1), of start]
        roomy_add(2) [OF assms(1), of start 0]
      have "f c img start = Some r"
        by (auto simp: area_at_def u16le_at_def split: if_splits)
      with 1(1) show False by blast
    qed
  qed
  then show False by simp
qed

subsection \<open>Images as imgtool writes them\<close>

text \<open>The TLV area of the MCUboot image format, to state what the parser does on a signed image.\<close>

definition le16 :: "u16 \<Rightarrow> bytes" where
  "le16 w = [ucast w, ucast (drop_bit 8 w)]"

definition tlv_entry :: "byte \<times> bytes \<Rightarrow> bytes" where
  "tlv_entry e = [fst e, 0] @ le16 (of_nat (length (snd e))) @ snd e"

definition tlv_area :: "u16 \<Rightarrow> (byte \<times> bytes) list \<Rightarrow> bytes" where
  "tlv_area magic es =
     le16 magic @ le16 (of_nat (4 + length (concat (map tlv_entry es)))) @ concat (map tlv_entry es)"

definition first_sha :: "(byte \<times> bytes) list \<Rightarrow> bytes option" where
  "first_sha es = map_option snd (find (\<lambda>(k, d). k = TLV_SHA256 \<and> length d = 32) es)"

lemma length_tlv_entry [simp]: "length (tlv_entry e) = 4 + length (snd e)"
  by (simp add: tlv_entry_def le16_def)

lemma from_le16_le16 [simp]: "from_le16 (ucast w) (ucast (drop_bit 8 w)) = w"
  using from_be16_to_be16 [of w] by (simp add: from_le16_def from_be16_def)

lemma length_le16 [simp]: "length (le16 w) = 2"
  by (simp add: le16_def)

lemma tlv_walk_entry:
  assumes "roomy c img" and "area_end \<le> length img"
    and img: "img = pre @ tlv_entry (k, d) @ rest"
    and "length d < 65536" and "length pre + 4 + length d \<le> area_end"
  shows "tlv_walk c img area_end (length pre) =
    (if k = TLV_SHA256 \<and> length d = 32 then Some (Done (Found d))
     else tlv_walk c img area_end (length pre + 4 + length d))"
proof -
  have len: "unat (of_nat (length d) :: u16) = length d"
    using assms(4) by (rule unat_of_nat_u16)
  have "img ! length pre = k"
    and "from_le16 (img ! Suc (Suc (length pre))) (img ! Suc (Suc (Suc (length pre)))) = of_nat (length d)"
    and data: "take (length d) (drop (length pre + 4) img) = d"
    unfolding img by (simp_all add: tlv_entry_def le16_def nth_append)
  with tlv_walk_step [OF assms(1,2), of "length pre" "length d"] assms(2,5) len data
  show ?thesis by auto
qed

lemma tlv_walk_entries:
  assumes "\<forall>e \<in> set es. length (snd e) < 65536" and "roomy c img"
  shows "img = pre @ concat (map tlv_entry es) @ post \<Longrightarrow>
    tlv_walk c img (length pre + length (concat (map tlv_entry es))) (length pre) =
      Some (Done (case first_sha es of None \<Rightarrow> Exhausted | Some d \<Rightarrow> Found d))"
  using assms(1)
proof (induction es arbitrary: pre)
  case Nil
  with assms(2) show ?case by (simp add: tlv_walk_done first_sha_def)
next
  case (Cons e es)
  obtain k d where e: "e = (k, d)" by (cases e) auto
  let ?stop = "length pre + length (concat (map tlv_entry (e # es)))"
  have step: "tlv_walk c img ?stop (length pre) =
    (if k = TLV_SHA256 \<and> length d = 32 then Some (Done (Found d))
     else tlv_walk c img ?stop (length pre + 4 + length d))"
    by (rule tlv_walk_entry [OF assms(2), of ?stop pre k d "concat (map tlv_entry es) @ post"])
      (use Cons.prems e in simp_all)
  from Cons.IH [of "pre @ tlv_entry e"] Cons.prems e
  have "tlv_walk c img ?stop (length pre + 4 + length d) =
      Some (Done (case first_sha es of None \<Rightarrow> Exhausted | Some d \<Rightarrow> Found d))"
    by (simp add: add.assoc)
  with step show ?case by (simp add: first_sha_def e)
qed

lemma find_sha256_unprotected:
  assumes "roomy c img" and img: "img = pre @ tlv_area TLV_INFO_MAGIC es @ post"
    and "\<forall>e \<in> set es. length (snd e) < 65536"
    and "4 + length (concat (map tlv_entry es)) < 65536"
  shows "find_sha256 c img (length pre) = Some (Done (first_sha es))"
proof -
  define body where "body = concat (map tlv_entry es)"
  let ?pre = "pre @ le16 TLV_INFO_MAGIC @ le16 (of_nat (4 + length body))"
  have split: "img = ?pre @ body @ post" by (simp add: img tlv_area_def body_def)
  have len: "unat (of_nat (4 + length body) :: u16) = 4 + length body"
    unfolding body_def using assms(4) by (rule unat_of_nat_u16)
  have area: "area_at img (length pre) = Some (TLV_INFO_MAGIC, of_nat (4 + length body))"
    unfolding split by (simp add: area_at_def le16_def nth_append del: of_nat_add)
  have walk: "tlv_walk c img (length pre + 4 + length body) (length pre + 4) =
      Some (Done (case first_sha es of None \<Rightarrow> Exhausted | Some d \<Rightarrow> Found d))"
    using tlv_walk_entries [OF assms(3,1), of ?pre post] split by (simp add: body_def add.assoc)
  have "length pre + (4 + length body) \<le> length img" unfolding split by simp
  with find_sha256_area [OF assms(1), of "length pre"] area walk len show ?thesis
    by (simp add: TLV_INFO_MAGIC_def TLV_PROT_INFO_MAGIC_def add.assoc del: of_nat_add
        split: option.splits)
qed

lemma unat_u32_bound: "unat (w :: u32) < 4294967296"
  using unsigned_less [of w, where ?'a = nat] by simp

lemma roomy64: "length img < 2 ^ 63 \<Longrightarrow> roomy (cfg64 checks) img"
  by (simp add: roomy_def cfg64_def)

lemma find_sha256_beyond:
  "start + 4 < 2 ^ ptr_bits c \<Longrightarrow> length img < start + 4 \<Longrightarrow> find_sha256 c img start = Some (Done None)"
  by (subst find_sha256.simps) simp

text \<open>On a 64-bit machine the header sizes cannot overflow, so \<open>parse\<close> is a TLV search at two places.\<close>

definition well_headed :: "bytes \<Rightarrow> bool" where
  "well_headed img \<longleftrightarrow> HEADER_LEN \<le> length img \<and> u32le img 0 = IMAGE_MAGIC"

definition image_body_end :: "bytes \<Rightarrow> nat" where
  "image_body_end img = unat (u16le img 8) + unat (u32le img 12)"

definition image_cursor :: "bytes \<Rightarrow> nat" where
  "image_cursor img = image_body_end img + unat (u16le img 10)"

definition info_with :: "bytes \<Rightarrow> bytes \<Rightarrow> image_info" where
  "info_with img d = \<lparr>ii_digest = d, ii_version = image_version img,
     ii_header_size = u16le img 8, ii_image_size = u32le img 12\<rparr>"

lemma image_offsets_bound:
  "image_body_end img \<le> 4295032830" "image_cursor img \<le> 4295098365"
proof -
  have "unat (u16le img 8) \<le> 65535" "unat (u16le img 10) \<le> 65535" "unat (u32le img 12) < 4294967296"
    by (rule unat_u16_bound unat_u32_bound)+
  then show "image_body_end img \<le> 4295032830" "image_cursor img \<le> 4295098365"
    unfolding image_cursor_def image_body_end_def by simp_all
qed

lemma mcuboot_parse_64:
  assumes "well_headed img"
  shows "mcuboot_parse (cfg64 checks) img =
    (case find_sha256 (cfg64 checks) img (image_cursor img) of
       None \<Rightarrow> None
     | Some Panic \<Rightarrow> Some Panic
     | Some (Done (Some d)) \<Rightarrow> Some (Done (Inr (info_with img d)))
     | Some (Done None) \<Rightarrow>
         if unat (u16le img 10) = 0 then Some (Done (Inl NoShaTlv))
         else (case find_sha256 (cfg64 checks) img (image_body_end img) of
             None \<Rightarrow> None
           | Some Panic \<Rightarrow> Some Panic
           | Some (Done (Some d)) \<Rightarrow> Some (Done (Inr (info_with img d)))
           | Some (Done None) \<Rightarrow> Some (Done (Inl NoShaTlv))))"
proof -
  have "usize_add (cfg64 checks) (unat (u16le img 8)) (unat (u32le img 12)) = Done (image_body_end img)"
    and "checked_add (cfg64 checks) (image_body_end img) (unat (u16le img 10)) = Some (image_cursor img)"
    using image_offsets_bound [of img]
    by (simp_all add: usize_add_def checked_add_def cfg64_def image_body_end_def image_cursor_def)
  moreover have "(if unat (u16le img 10) = 0 then image_body_end img else image_cursor img) = image_cursor img"
    by (simp add: image_cursor_def)
  ultimately show ?thesis
    using assms
    by (auto simp: mcuboot_parse_def well_headed_def info_with_def Let_def
        split: option.splits outcome.splits)
qed

lemma find_sha256_returns_64:
  assumes "length img < 2 ^ 63" and "no_empty_protected_area img" and "start \<le> 4295098365"
  shows "\<exists>r. find_sha256 (cfg64 checks) img start = Some (Done r) \<and> (\<forall>d. r = Some d \<longrightarrow> sha_entry img d)"
proof (cases "start \<le> length img")
  case True
  then show ?thesis by (rule find_sha256_returns [OF roomy64 [OF assms(1)] assms(2)])
next
  case False
  with assms(3) have "find_sha256 (cfg64 checks) img start = Some (Done None)"
    by (intro find_sha256_beyond) (simp_all add: cfg64_def)
  then show ?thesis by simp
qed

lemma signed_image_parses:
  assumes "img = pre @ tlv_area TLV_INFO_MAGIC es @ post" and "length img < 2 ^ 63"
    and "HEADER_LEN \<le> length img" and "u32le img 0 = IMAGE_MAGIC"
    and "length pre = unat (u16le img 8) + unat (u32le img 12) + unat (u16le img 10)"
    and "\<forall>e \<in> set es. length (snd e) < 65536" and "4 + length (concat (map tlv_entry es)) < 65536"
    and "first_sha es = Some d"
  shows "mcuboot_parse (cfg64 checks) img =
    Some (Done (Inr \<lparr>ii_digest = d, ii_version = image_version img,
                     ii_header_size = u16le img 8, ii_image_size = u32le img 12\<rparr>))"
proof -
  have "find_sha256 (cfg64 checks) img (image_cursor img) = Some (Done (Some d))"
    using find_sha256_unprotected [OF roomy64 [OF assms(2)] assms(1,6,7)] assms(5,8)
    by (simp add: image_cursor_def image_body_end_def)
  with mcuboot_parse_64 [of img checks] assms(3,4) show ?thesis
    by (simp add: well_headed_def info_with_def)
qed

subsection \<open>Properties\<close>

text \<open>C32: the digest of a signed image is found.  An image whose header carries the MCUboot magic and
  whose unprotected TLV area stands where the header's sizes put it (behind the header, the body
  and the protected area) parses to the data of the first 32-byte SHA-256 entry of that area, with
  the version and sizes of the header, on every 64-bit build.\<close>
theorem parse_signed_image:
  assumes "img = pre @ tlv_area TLV_INFO_MAGIC es @ post" and "length img < 2 ^ 63"
    and "HEADER_LEN \<le> length img" and "u32le img 0 = IMAGE_MAGIC"
    and "length pre = unat (u16le img 8) + unat (u32le img 12) + unat (u16le img 10)"
    and "\<forall>e \<in> set es. length (snd e) < 65536" and "4 + length (concat (map tlv_entry es)) < 65536"
    and "first_sha es = Some d"
  shows "mcuboot_parse (cfg64 checks) img =
    Some (Done (Inr \<lparr>ii_digest = d, ii_version = image_version img,
                     ii_header_size = u16le img 8, ii_image_size = u32le img 12\<rparr>))"
  using signed_image_parses [OF assms] .

text \<open>A header with the given sizes, as 32 bytes: version 1.2.3+4.\<close>

definition sample_header :: "byte \<Rightarrow> byte \<Rightarrow> bytes" where
  "sample_header size_lo size_hi =
     [0x3d, 0xb8, 0xf3, 0x96, 0, 0, 0, 0, 32, 0, 0, 0, size_lo, size_hi, size_hi, size_hi,
      0, 0, 0, 0, 1, 2, 3, 0, 4, 0, 0, 0, 0, 0, 0, 0]"

definition sample_tlvs :: "(byte \<times> bytes) list" where
  "sample_tlvs = [(1, [7, 7]), (16, replicate 32 5)]"

definition sample_image :: bytes where
  "sample_image = (sample_header 2 0 @ [170, 187]) @ tlv_area TLV_INFO_MAGIC sample_tlvs @ []"

lemma sample_header_fields [simp]:
  "length (sample_header lo hi) = 32"
  "u32le (sample_header lo hi @ rest) 0 = IMAGE_MAGIC"
  "u16le (sample_header lo hi @ rest) 8 = 32" "u16le (sample_header lo hi @ rest) 10 = 0"
  "u32le (sample_header lo hi @ rest) 12 = from_le32 lo hi hi hi"
  "image_version (sample_header lo hi @ rest) = ''1.2.3+4''"
  by (simp_all add: sample_header_def image_version_def u32le_def u16le_def from_le32_def
      from_le16_def IMAGE_MAGIC_def radix_string.simps digit_char_def)

lemma length_sample_image: "length sample_image = 80"
  by (simp add: sample_image_def tlv_area_def sample_tlvs_def)

lemma sample_image_parses:
  "mcuboot_parse (cfg64 True) sample_image =
    Some (Done (Inr \<lparr>ii_digest = replicate 32 5, ii_version = image_version sample_image,
                     ii_header_size = u16le sample_image 8, ii_image_size = u32le sample_image 12\<rparr>))"
  by (rule signed_image_parses [OF sample_image_def])
    (simp_all add: length_sample_image HEADER_LEN_def, simp_all add: sample_image_def sample_tlvs_def
      from_le32_def first_sha_def TLV_SHA256_def)

theorem parse_signed_image_witness:
  "mcuboot_parse (cfg64 True) sample_image =
    Some (Done (Inr \<lparr>ii_digest = replicate 32 5, ii_version = ''1.2.3+4'',
                     ii_header_size = 32, ii_image_size = 2\<rparr>))"
proof -
  have "mcuboot_parse (cfg64 True) sample_image =
    Some (Done (Inr \<lparr>ii_digest = replicate 32 5, ii_version = image_version sample_image,
                     ii_header_size = u16le sample_image 8, ii_image_size = u32le sample_image 12\<rparr>))"
    by (rule parse_signed_image [OF sample_image_def])
      (simp_all add: length_sample_image HEADER_LEN_def, simp_all add: sample_image_def sample_tlvs_def
        from_le32_def first_sha_def TLV_SHA256_def)
  then show ?thesis by (simp add: sample_image_def from_le32_def)
qed

text \<open>A search from anywhere in the address space: it panics only where the four bytes of an area header would
  not fit under its end.\<close>

lemma find_sha256_total:
  assumes "roomy c img" and "no_empty_protected_area img" and "4 \<le> length img" and "start < 2 ^ ptr_bits c"
  obtains out where "find_sha256 c img start = Some out" "\<And>d. out = Done (Some d) \<Longrightarrow> sha_entry img d"
    "out = Panic \<Longrightarrow> 2 ^ ptr_bits c \<le> start + 4"
proof (cases "start \<le> length img")
  case True
  from find_sha256_returns [OF assms(1,2) this] show thesis by (auto intro: that)
next
  case outside: False
  show thesis
  proof (cases "start + 4 < 2 ^ ptr_bits c")
    case True
    with outside show thesis by (intro that [of "Done None"]) (simp_all add: find_sha256_beyond)
  next
    case False
    have "start + 4 < 2 ^ ptr_bits c + 4" using assms(4) by simp
    moreover have "(4::nat) < 2 ^ ptr_bits c" using assms(1) by (simp add: roomy_def)
    ultimately have "(start + 4) mod 2 ^ ptr_bits c = start + 4 - 2 ^ ptr_bits c"
      using False by (simp add: mod_if)
    then have "(start + 4) mod 2 ^ ptr_bits c \<le> length img" using assms(3,4) by linarith
    then have "find_sha256 c img start = Some Panic"
      using outside False by (subst find_sha256.simps) (simp add: usize_add_def u16le_at_def)
    with False show thesis by (intro that [of Panic]) simp_all
  qed
qed

lemma slice_roomy: "32 \<le> ptr_bits c \<Longrightarrow> 2 * length img < 2 ^ ptr_bits c \<Longrightarrow> roomy c img"
proof -
  assume "32 \<le> ptr_bits c" and len: "2 * length img < 2 ^ ptr_bits c"
  then have "(2::nat) ^ 32 \<le> 2 ^ ptr_bits c" by (intro power_increasing) simp_all
  with len show ?thesis by (simp add: roomy_def)
qed

lemma usize_add_cases:
  obtains (panics) "usize_add c a b = Panic" "2 ^ ptr_bits c \<le> a + b"
  | (adds) n where "usize_add c a b = Done n" "n < 2 ^ ptr_bits c" "n = a + b \<or> 2 ^ ptr_bits c \<le> a + b"
  by (cases "a + b < 2 ^ ptr_bits c"; cases "overflow_checks c") (simp_all add: usize_add_def)

text \<open>C34: the parser returns, and when it can panic.  On any input of any bytes a program can hold (a slice is at
  most half the address space) and on machines of 32 bits and more, with or without overflow checks, unless the
  image has a protected TLV area that states length zero: \<open>parse\<close> neither runs forever nor, unless the sizes in the
  header add up to the end of the address space, panics; so on 64 bits it never does.  Whatever digest it
  returns is the 32 data bytes of a SHA-256 entry that lies inside the image, behind a valid header magic.\<close>
theorem parse_returns:
  assumes "32 \<le> ptr_bits c" and "2 * length img < 2 ^ ptr_bits c" and "no_empty_protected_area img"
  shows "\<exists>out. mcuboot_parse c img = Some out \<and>
    (out = Panic \<longrightarrow> 2 ^ ptr_bits c \<le> image_cursor img + 4 \<and> ptr_bits c \<noteq> 64) \<and>
    (\<forall>info. out = Done (Inr info) \<longrightarrow> u32le img 0 = IMAGE_MAGIC \<and> length (ii_digest info) = 32 \<and>
      sha_entry img (ii_digest info))"
proof (cases "well_headed img")
  case False
  then show ?thesis by (auto simp: mcuboot_parse_def well_headed_def)
next
  case True
  note search = find_sha256_total [OF slice_roomy [OF assms(1,2)] assms(3)]
  have four: "4 \<le> length img" and header: "HEADER_LEN \<le> length img" "u32le img 0 = IMAGE_MAGIC"
    using True by (simp_all add: well_headed_def HEADER_LEN_def)
  have fits: "ptr_bits c = 64 \<Longrightarrow> image_cursor img + 4 < 2 ^ ptr_bits c"
    using image_offsets_bound(2) [of img] by simp
  have digest: "sha_entry img d \<Longrightarrow> length d = 32" for d by (auto simp: sha_entry_def)
  have body: "image_body_end img \<le> image_cursor img" by (simp add: image_cursor_def)
  show ?thesis
  proof (cases rule: usize_add_cases [of c "unat (u16le img 8)" "unat (u32le img 12)"])
    case panics
    then have "2 ^ ptr_bits c \<le> image_cursor img" using body by (simp add: image_body_end_def)
    with panics header fits show ?thesis by (intro exI [of _ Panic]) (auto simp: mcuboot_parse_def Let_def)
  next
    case (adds e)
    show ?thesis
    proof (cases "checked_add c e (unat (u16le img 10))")
      case None
      with adds header show ?thesis by (auto simp: mcuboot_parse_def Let_def)
    next
      case (Some f)
      then have f: "f < 2 ^ ptr_bits c" "f = e + unat (u16le img 10)" by (auto simp: checked_add_def split: if_splits)
      have late: "2 ^ ptr_bits c \<le> image_cursor img + 4" if "2 ^ ptr_bits c \<le> e + 4 \<or> 2 ^ ptr_bits c \<le> f + 4"
        using that adds(3) f(2) by (auto simp: image_cursor_def image_body_end_def)
      let ?cursor = "if unat (u16le img 10) = 0 then e else f"
      have "?cursor < 2 ^ ptr_bits c" using adds(2) f(1) by simp
      then obtain o1 where o1: "find_sha256 c img ?cursor = Some o1" "\<And>d. o1 = Done (Some d) \<Longrightarrow> sha_entry img d"
          "o1 = Panic \<Longrightarrow> 2 ^ ptr_bits c \<le> ?cursor + 4"
        using search [OF four, of ?cursor] by blast
      obtain o2 where o2: "find_sha256 c img e = Some o2" "\<And>d. o2 = Done (Some d) \<Longrightarrow> sha_entry img d"
          "o2 = Panic \<Longrightarrow> 2 ^ ptr_bits c \<le> e + 4"
        using search [OF four adds(2)] by blast
      show ?thesis
        using adds(1) Some header o1 o2 late fits digest
        by (auto simp: mcuboot_parse_def Let_def split: option.splits outcome.splits if_splits)
    qed
  qed
qed

lemma no_protected_area_without_8:
  assumes "8 \<notin> set img"
  shows "no_empty_protected_area img"
proof -
  have False if "start + 4 \<le> length img"
    "from_le16 (img ! start) (img ! (start + 1)) = TLV_PROT_INFO_MAGIC" for start
  proof -
    from that(2) have "256 * unat (img ! (start + 1)) + unat (img ! start) = 26888"
      using unat_from_le16 [of "img ! start" "img ! (start + 1)"] by (simp add: TLV_PROT_INFO_MAGIC_def)
    then have "(256 * unat (img ! (start + 1)) + unat (img ! start)) mod 256 = 26888 mod 256"
      by (rule arg_cong)
    then have "unat (img ! start) = unat (8 :: byte)" by simp
    then have "img ! start = 8" by (rule unsigned_word_eqI)
    moreover have "img ! start \<in> set img" using that(1) by simp
    ultimately show False using assms by simp
  qed
  then show ?thesis by (auto simp: no_empty_protected_area_def area_at_def split: if_splits)
qed

theorem parse_returns_witness:
  "\<exists>out. mcuboot_parse \<lparr>ptr_bits = 32, overflow_checks = False\<rparr> sample_image = Some out \<and>
    (out = Panic \<longrightarrow> 2 ^ 32 \<le> image_cursor sample_image + 4) \<and>
    (\<forall>info. out = Done (Inr info) \<longrightarrow> u32le sample_image 0 = IMAGE_MAGIC \<and> length (ii_digest info) = 32 \<and>
      sha_entry sample_image (ii_digest info))"
proof -
  have "no_empty_protected_area sample_image"
    by (rule no_protected_area_without_8)
      (simp add: sample_image_def sample_header_def tlv_area_def sample_tlvs_def tlv_entry_def le16_def TLV_INFO_MAGIC_def)
  from parse_returns [OF _ _ this, of "\<lparr>ptr_bits = 32, overflow_checks = False\<rparr>"] show ?thesis
    by (auto simp: length_sample_image)
qed

text \<open>A malformed image makes the parser recurse without end.  Where the header's sizes lead to a
  protected TLV area of stated length zero, \<open>find_sha256\<close> calls itself with the arguments it was
  called with, and \<open>parse\<close> does not return.\<close>
theorem parse_diverges:
  assumes "length img < 2 ^ 63" and "HEADER_LEN \<le> length img" and "u32le img 0 = IMAGE_MAGIC"
    and "area_at img (unat (u16le img 8) + unat (u32le img 12) + unat (u16le img 10))
      = Some (TLV_PROT_INFO_MAGIC, 0)"
  shows "mcuboot_parse (cfg64 checks) img = None"
proof -
  have "find_sha256 (cfg64 checks) img (image_cursor img) = None"
    using assms(4) by (intro find_sha256_diverges roomy64 [OF assms(1)])
      (simp add: image_cursor_def image_body_end_def)
  with assms(2,3) show ?thesis by (simp add: mcuboot_parse_64 well_headed_def)
qed

text \<open>Thirty-six bytes are enough: a header and an empty protected area.\<close>

theorem parse_diverges_witness:
  "mcuboot_parse (cfg64 False) (sample_header 0 0 @ [8, 0x69, 0, 0]) = None"
  by (rule parse_diverges)
    (simp_all add: HEADER_LEN_def area_at_def from_le32_def from_le16_def TLV_PROT_INFO_MAGIC_def
      nth_append)

text \<open>On a 32-bit machine the addition that places the TLV area is outside the overflow check.
  When header and image size together exceed 32 bits, a build with overflow checks panics instead
  of reporting the sizes, and a release build wraps and goes on as if the body ended at the
  wrapped offset.\<close>
theorem parse_32bit_overflow:
  assumes "HEADER_LEN \<le> length img" and "u32le img 0 = IMAGE_MAGIC"
    and "2 ^ 32 \<le> unat (u16le img 8) + unat (u32le img 12)"
  shows "mcuboot_parse \<lparr>ptr_bits = 32, overflow_checks = True\<rparr> img = Some Panic \<and>
    mcuboot_parse \<lparr>ptr_bits = 32, overflow_checks = False\<rparr> img \<noteq> Some (Done (Inl SizesOverflow))"
proof -
  let ?w = "\<lparr>ptr_bits = 32, overflow_checks = False\<rparr>"
  let ?stop = "unat (u16le img 8) + unat (u32le img 12) - 2 ^ 32"
  have wrapped: "(unat (u16le img 8) + unat (u32le img 12)) mod 2 ^ 32 = ?stop"
    using assms(3) unat_u16_bound [of "u16le img 8"] unat_u32_bound [of "u32le img 12"]
    by (simp add: mod_if)
  have "?stop + unat (u16le img 10) < 2 ^ 32"
    using unat_u16_bound [of "u16le img 8"] unat_u32_bound [of "u32le img 12"]
      unat_u16_bound [of "u16le img 10"] by simp
  then have "checked_add ?w ?stop (unat (u16le img 10)) = Some (?stop + unat (u16le img 10))"
    by (simp add: checked_add_def)
  with assms wrapped show ?thesis
    by (auto simp: mcuboot_parse_def usize_add_def Let_def split: option.splits outcome.splits if_splits)
qed

theorem parse_32bit_overflow_witness:
  "mcuboot_parse \<lparr>ptr_bits = 32, overflow_checks = True\<rparr> (sample_header 255 255) = Some Panic \<and>
    mcuboot_parse \<lparr>ptr_bits = 32, overflow_checks = False\<rparr> (sample_header 255 255)
      \<noteq> Some (Done (Inl SizesOverflow))"
  by (rule parse_32bit_overflow)
    (simp_all add: HEADER_LEN_def sample_header_fields(2-6) [of _ _ "[]", simplified] from_le32_def)

end
