(* ===== verification/Device.thy ===== *)
theory Device
  imports Mcuboot
begin

text \<open>
  The emulated board of \<open>crates/runtt-mock/src/device.rs\<close> and its faults
  (\<open>crates/runtt-mock/src/faults.rs\<close>): two image slots, an upload in progress and MCUboot's
  decision at reset.  The \<open>sha2\<close> crate's SHA-256 is the parameter \<open>sha\<close>; \<open>c\<close> is the machine the
  mock runs on.  A call that reads an image returns an option: \<open>None\<close> where
  \<open>mcuboot::parse\<close> does not return.  The counters \<open>chunks\<close> and \<open>resets\<close> only ever
  count up by one; they are kept as naturals, of which the \<open>u32\<close> of the source is the value modulo \<open>2 ^ 32\<close>
  (the code reads \<open>chunks\<close>, its tests read \<open>resets\<close>).
\<close>

datatype fault =
    NoFault
  | DisconnectMidUpload nat      \<comment> \<open>after that many chunks\<close>
  | BadHash
  | RestartUpload nat            \<comment> \<open>at that offset\<close>
  | Timeout u16 byte             \<comment> \<open>group and command\<close>
  | RevertOnBoot
  | DigestAlreadyFailed

record slot_image =
  im_version :: string
  im_hash :: bytes
  im_bytes :: nat
  im_bootable :: bool
  im_pending :: bool
  im_confirmed :: bool
  im_permanent :: bool

definition image_from_bytes ::
    "usize_cfg \<Rightarrow> (bytes \<Rightarrow> bytes) \<Rightarrow> bytes \<Rightarrow> string \<Rightarrow> slot_image option" where
  "image_from_bytes c sha data fallback_version =
     (case mcuboot_parse c data of
        None \<Rightarrow> None
      | Some Panic \<Rightarrow> None
      | Some (Done r) \<Rightarrow>
          (case (case r of Inr info \<Rightarrow> (ii_digest info, ii_version info)
                         | Inl _ \<Rightarrow> (sha data, fallback_version)) of
             (hash, version) \<Rightarrow>
               Some \<lparr>im_version = version, im_hash = hash, im_bytes = length data,
                     im_bootable = True, im_pending = False, im_confirmed = False,
                     im_permanent = False\<rparr>))"

record upload =
  up_expected_len :: nat
  up_declared_sha :: "bytes option"
  up_received :: bytes
  up_chunks :: nat
  up_restart_demanded :: bool

definition upload_default :: upload where
  "upload_default = \<lparr>up_expected_len = 0, up_declared_sha = None, up_received = [],
     up_chunks = 0, up_restart_demanded = False\<rparr>"

record device =
  dev_slot0 :: "slot_image option"
  dev_slot1 :: "slot_image option"
  dev_upload :: upload
  dev_fault :: fault
  dev_failed_digests :: "bytes list"
  dev_resets :: nat
  dev_awaiting_confirm :: bool

text \<open>The bytes \<open>b"factory-image"\<close>.\<close>

definition factory_image :: bytes where
  "factory_image = [102, 97, 99, 116, 111, 114, 121, 45, 105, 109, 97, 103, 101]"

definition provisioned :: "usize_cfg \<Rightarrow> (bytes \<Rightarrow> bytes) \<Rightarrow> fault \<Rightarrow> device option" where
  "provisioned c sha f =
     (case image_from_bytes c sha factory_image ''1.0.0+factory'' of
        None \<Rightarrow> None
      | Some img \<Rightarrow>
          Some \<lparr>dev_slot0 = Some (img\<lparr>im_confirmed := True, im_permanent := True\<rparr>),
                dev_slot1 = None, dev_upload = upload_default, dev_fault = f,
                dev_failed_digests = [], dev_resets = 0, dev_awaiting_confirm = False\<rparr>)"

subsection \<open>Uploads\<close>

datatype upload_outcome =
    Continue nat
  | Complete nat bool
  | GoSilent

definition upload_chunk ::
    "usize_cfg \<Rightarrow> (bytes \<Rightarrow> bytes) \<Rightarrow> device \<Rightarrow> nat \<Rightarrow> nat option \<Rightarrow> bytes option \<Rightarrow> bytes
      \<Rightarrow> (upload_outcome \<times> device) option" where
  "upload_chunk c sha d off len declared_sha data =
     (if off \<noteq> 0 \<and> off \<noteq> length (up_received (dev_upload d))
      then Some (Continue (length (up_received (dev_upload d))), d)
      else
        let d1 = (if off = 0
                  then d\<lparr>dev_upload := \<lparr>up_expected_len = (case len of None \<Rightarrow> 0 | Some n \<Rightarrow> n),
                            up_declared_sha = declared_sha, up_received = [], up_chunks = 0,
                            up_restart_demanded = up_restart_demanded (dev_upload d)\<rparr>\<rparr>
                  else d);
            demand_restart = (case dev_fault d1 of
                RestartUpload at_offset \<Rightarrow>
                  \<not> up_restart_demanded (dev_upload d1) \<and> at_offset \<le> off \<and> 0 < off
              | _ \<Rightarrow> False)
        in if demand_restart
           then Some (Continue 0, d1\<lparr>dev_upload := (dev_upload d1)
                  \<lparr>up_restart_demanded := True, up_received := []\<rparr>\<rparr>)
           else
             let received = up_received (dev_upload d1) @ data;
                 u = (dev_upload d1)\<lparr>up_received := received, up_chunks := up_chunks (dev_upload d1) + 1\<rparr>;
                 d2 = d1\<lparr>dev_upload := u\<rparr>;
                 go_silent = (case dev_fault d2 of
                     DisconnectMidUpload after_chunks \<Rightarrow> after_chunks \<le> up_chunks u mod 2 ^ 32 | _ \<Rightarrow> False);
                 complete = (0 < up_expected_len u \<and> up_expected_len u \<le> length received)
             in if go_silent then Some (GoSilent, d2)
                else if \<not> complete then Some (Continue (length received), d2)
                else
                  let actual = sha received;
                      digest_ok = (case dev_fault d2 of
                          BadHash \<Rightarrow> False | _ \<Rightarrow> up_declared_sha u = Some actual)
                  in if digest_ok then
                       (case image_from_bytes c sha received ''2.0.0+staged'' of
                          None \<Rightarrow> None
                        | Some img \<Rightarrow>
                            Some (Complete (length received) True, d2\<lparr>dev_slot1 := Some img\<rparr>))
                     else Some (Complete (length received) False, d2))"

subsection \<open>Marking, erasing, resetting\<close>

datatype state_error =
    NoRunningImage
  | DigestFailedBefore
  | NoImageWithDigest

definition confirm_running :: "slot_image \<Rightarrow> device \<Rightarrow> device" where
  "confirm_running s0 d =
     d\<lparr>dev_slot0 := Some (s0\<lparr>im_confirmed := True, im_permanent := True\<rparr>),
       dev_awaiting_confirm := False\<rparr>"

definition set_state :: "device \<Rightarrow> bytes option \<Rightarrow> bool \<Rightarrow> (state_error + unit) \<times> device" where
  "set_state d hash_opt confirm =
     (case hash_opt of
        None \<Rightarrow>
          (case dev_slot0 d of
             Some s0 \<Rightarrow> (Inr (), confirm_running s0 d)
           | None \<Rightarrow> (Inl NoRunningImage, d))
      | Some hash \<Rightarrow>
          if dev_fault d = DigestAlreadyFailed \<and> hash \<in> set (dev_failed_digests d)
          then (Inl DigestFailedBefore, d)
          else
            let mark_staged =
              (case dev_slot1 d of
                 Some s1 \<Rightarrow>
                   if im_hash s1 = hash
                   then (Inr (), d\<lparr>dev_slot1 := Some (s1\<lparr>im_pending := True, im_permanent := confirm\<rparr>)\<rparr>)
                   else (Inl NoImageWithDigest, d)
               | None \<Rightarrow> (Inl NoImageWithDigest, d))
            in (case dev_slot0 d of
                  Some s0 \<Rightarrow> if im_hash s0 = hash then (Inr (), confirm_running s0 d) else mark_staged
                | None \<Rightarrow> mark_staged))"

definition reset :: "device \<Rightarrow> device" where
  "reset d0 =
     (let d = d0\<lparr>dev_resets := dev_resets d0 + 1\<rparr> in
      if dev_awaiting_confirm d then
        (case dev_slot0 d of
           Some bad \<Rightarrow>
             d\<lparr>dev_failed_digests := dev_failed_digests d @ [im_hash bad],
               dev_slot0 := dev_slot1 d, dev_slot1 := Some bad, dev_awaiting_confirm := False\<rparr>
         | None \<Rightarrow> d\<lparr>dev_awaiting_confirm := False\<rparr>)
      else
        (case dev_slot1 d of
           Some s1 \<Rightarrow>
             if im_pending s1 then
               let permanent = im_permanent s1;
                   incoming = s1\<lparr>im_pending := False, im_confirmed := permanent\<rparr>
               in d\<lparr>dev_slot0 := Some incoming, dev_slot1 := dev_slot0 d,
                    dev_awaiting_confirm := (\<not> permanent \<or> dev_fault d = RevertOnBoot)\<rparr>
             else d
         | None \<Rightarrow> d))"

definition erase :: "device \<Rightarrow> device" where
  "erase d = d\<lparr>dev_slot1 := None\<rparr>"

record slot_report =
  sr_slot :: nat
  sr_active :: bool
  sr_img :: slot_image

definition image_states :: "device \<Rightarrow> slot_report list" where
  "image_states d =
     (case dev_slot0 d of None \<Rightarrow> []
      | Some s \<Rightarrow> [\<lparr>sr_slot = 0, sr_active = True, sr_img = s\<rparr>]) @
     (case dev_slot1 d of None \<Rightarrow> []
      | Some s \<Rightarrow> [\<lparr>sr_slot = 1, sr_active = False, sr_img = s\<rparr>])"

subsection \<open>Runs of the board\<close>

datatype dev_op =
    OpUpload nat "nat option" "bytes option" bytes
  | OpSetState "bytes option" bool
  | OpReset
  | OpErase

fun dev_step :: "usize_cfg \<Rightarrow> (bytes \<Rightarrow> bytes) \<Rightarrow> device \<Rightarrow> dev_op \<Rightarrow> device option" where
  "dev_step c sha d (OpUpload off len declared data) =
     map_option snd (upload_chunk c sha d off len declared data)"
| "dev_step c sha d (OpSetState hash confirm) = Some (snd (set_state d hash confirm))"
| "dev_step c sha d OpReset = Some (reset d)"
| "dev_step c sha d OpErase = Some (erase d)"

fun dev_run :: "usize_cfg \<Rightarrow> (bytes \<Rightarrow> bytes) \<Rightarrow> device \<Rightarrow> dev_op list \<Rightarrow> device option" where
  "dev_run c sha d [] = Some d"
| "dev_run c sha d (op # ops) =
     (case dev_step c sha d op of None \<Rightarrow> None | Some d' \<Rightarrow> dev_run c sha d' ops)"

inductive dev_reachable :: "usize_cfg \<Rightarrow> (bytes \<Rightarrow> bytes) \<Rightarrow> fault \<Rightarrow> device \<Rightarrow> bool"
  for c :: usize_cfg and sha :: "bytes \<Rightarrow> bytes" and f :: fault where
  start: "provisioned c sha f = Some d \<Longrightarrow> dev_reachable c sha f d"
| step: "dev_reachable c sha f d \<Longrightarrow> dev_step c sha d op = Some d' \<Longrightarrow> dev_reachable c sha f d'"

text \<open>What an upload may touch: the upload in progress and, on success, the staging slot.\<close>

lemma upload_chunk_frame:
  assumes "upload_chunk c sha d off len declared data = Some (out, d')"
  shows "dev_slot0 d' = dev_slot0 d \<and> dev_fault d' = dev_fault d \<and>
    dev_failed_digests d' = dev_failed_digests d \<and> dev_resets d' = dev_resets d \<and>
    dev_awaiting_confirm d' = dev_awaiting_confirm d"
  using assms
  by (auto simp: upload_chunk_def Let_def split: if_splits option.splits)

lemma upload_chunk_slot1:
  assumes "upload_chunk c sha d off len declared data = Some (out, d')"
    and "dev_slot1 d' \<noteq> dev_slot1 d"
  shows "\<exists>img. dev_slot1 d' = Some img \<and> out = Complete (length (up_received (dev_upload d'))) True \<and>
    image_from_bytes c sha (up_received (dev_upload d')) ''2.0.0+staged'' = Some img \<and>
    up_declared_sha (dev_upload d') = Some (sha (up_received (dev_upload d'))) \<and>
    dev_fault d \<noteq> BadHash"
  using assms
  by (auto simp: upload_chunk_def Let_def split: if_splits option.splits fault.splits)

lemma set_state_frame [simp]:
  "dev_upload (snd (set_state d hash confirm)) = dev_upload d"
  "dev_fault (snd (set_state d hash confirm)) = dev_fault d"
  "dev_failed_digests (snd (set_state d hash confirm)) = dev_failed_digests d"
  "dev_resets (snd (set_state d hash confirm)) = dev_resets d"
  by (auto simp: set_state_def confirm_running_def Let_def split: option.splits if_splits)

lemma reset_fault [simp]: "dev_fault (reset d) = dev_fault d"
  by (simp add: reset_def Let_def split: option.splits)

lemma reset_upload [simp]: "dev_upload (reset d) = dev_upload d"
  by (simp add: reset_def Let_def split: option.splits)

lemma dev_step_fault: "dev_step c sha d op = Some d' \<Longrightarrow> dev_fault d' = dev_fault d"
  by (cases op) (auto simp: erase_def dest: upload_chunk_frame)

text \<open>
  What holds between the fields of a board that came out of provisioning: an image on probation is
  really running, and unless the board was told to distrust even permanent images, it is not
  confirmed.
\<close>

definition dev_inv :: "device \<Rightarrow> bool" where
  "dev_inv d \<longleftrightarrow> (dev_awaiting_confirm d \<longrightarrow>
     (\<exists>s0. dev_slot0 d = Some s0 \<and> (dev_fault d \<noteq> RevertOnBoot \<longrightarrow> \<not> im_confirmed s0)))"

lemma provisioned_inv: "provisioned c sha f = Some d \<Longrightarrow> dev_inv d \<and> dev_fault d = f"
  by (auto simp: provisioned_def dev_inv_def split: option.splits)

lemma set_state_inv: "dev_inv d \<Longrightarrow> dev_inv (snd (set_state d hash confirm))"
  by (auto simp: set_state_def confirm_running_def dev_inv_def Let_def split: option.splits if_splits)

lemma reset_inv: "dev_inv (reset d)"
  by (auto simp: reset_def dev_inv_def Let_def split: option.splits if_splits)

lemma dev_step_inv: "dev_inv d \<Longrightarrow> dev_step c sha d op = Some d' \<Longrightarrow> dev_inv d'"
proof (cases op)
  case (OpUpload off len declared data)
  assume "dev_inv d" and "dev_step c sha d op = Some d'"
  with OpUpload show ?thesis
    by (auto simp: dev_inv_def dest!: upload_chunk_frame)
next
  case OpErase
  assume "dev_inv d" and "dev_step c sha d op = Some d'"
  with OpErase show ?thesis by (auto simp: erase_def dev_inv_def)
qed (auto intro: set_state_inv reset_inv)

lemma dev_reachable_inv: "dev_reachable c sha f d \<Longrightarrow> dev_inv d \<and> dev_fault d = f"
proof (induction rule: dev_reachable.induct)
  case (start d)
  then show ?case by (rule provisioned_inv)
next
  case (step d op d')
  then show ?case using dev_step_inv dev_step_fault by metis
qed

subsection \<open>Probation\<close>

text \<open>An operation that leaves the image \<open>s0\<close> on probation: anything but a reset, a confirmation of
  whatever runs, or a mark that names its digest.\<close>

fun spares :: "slot_image \<Rightarrow> dev_op \<Rightarrow> bool" where
  "spares s0 (OpUpload _ _ _ _) = True"
| "spares s0 (OpSetState None _) = False"
| "spares s0 (OpSetState (Some h) _) = (h \<noteq> im_hash s0)"
| "spares s0 OpReset = False"
| "spares s0 OpErase = True"

lemma spared_step:
  assumes "dev_step c sha d op = Some d'" and "spares s0 op"
    and "dev_slot0 d = Some s0" and "dev_awaiting_confirm d"
  shows "dev_slot0 d' = Some s0 \<and> dev_awaiting_confirm d' \<and>
    dev_failed_digests d' = dev_failed_digests d"
proof (cases op)
  case (OpSetState hash confirm)
  with assms show ?thesis
    by (cases hash) (auto simp: set_state_def Let_def split: option.splits if_splits)
qed (use assms in \<open>auto simp: erase_def dest: upload_chunk_frame\<close>)

lemma spared_run:
  "dev_run c sha d ops = Some d' \<Longrightarrow> list_all (spares s0) ops \<Longrightarrow>
    dev_slot0 d = Some s0 \<Longrightarrow> dev_awaiting_confirm d \<Longrightarrow>
    dev_slot0 d' = Some s0 \<and> dev_awaiting_confirm d' \<and> dev_failed_digests d' = dev_failed_digests d"
proof (induction ops arbitrary: d)
  case (Cons op ops)
  then obtain d1 where step: "dev_step c sha d op = Some d1" and run: "dev_run c sha d1 ops = Some d'"
    by (auto split: option.splits)
  with spared_step [OF step, of s0] Cons show ?case by auto
qed simp

lemma reset_awaiting:
  "dev_awaiting_confirm d \<Longrightarrow> dev_slot0 d = Some bad \<Longrightarrow> im_hash bad = h \<Longrightarrow>
    reset d = d\<lparr>dev_resets := dev_resets d + 1, dev_failed_digests := dev_failed_digests d @ [h],
      dev_slot0 := dev_slot1 d, dev_slot1 := Some bad, dev_awaiting_confirm := False\<rparr>"
  by (simp add: reset_def)

lemma reset_idle:
  "\<not> dev_awaiting_confirm d \<Longrightarrow> (\<And>s1. dev_slot1 d = Some s1 \<Longrightarrow> \<not> im_pending s1) \<Longrightarrow>
    reset d = d\<lparr>dev_resets := dev_resets d + 1\<rparr>"
  by (cases "dev_slot1 d") (simp_all add: reset_def)

lemma reset_swap:
  "\<not> dev_awaiting_confirm d \<Longrightarrow> dev_slot1 d = Some s1 \<Longrightarrow> im_pending s1 \<Longrightarrow>
    reset d = d\<lparr>dev_resets := dev_resets d + 1,
      dev_slot0 := Some (s1\<lparr>im_pending := False, im_confirmed := im_permanent s1\<rparr>),
      dev_slot1 := dev_slot0 d,
      dev_awaiting_confirm := (\<not> im_permanent s1 \<or> dev_fault d = RevertOnBoot)\<rparr>"
  by (simp add: reset_def Let_def)

lemma resets_idle:
  "\<not> dev_awaiting_confirm d \<Longrightarrow> (\<And>s1. dev_slot1 d = Some s1 \<Longrightarrow> \<not> im_pending s1) \<Longrightarrow>
    (reset ^^ n) d = d\<lparr>dev_resets := dev_resets d + n\<rparr>"
proof (induction n)
  case (Suc n)
  then have "reset (d\<lparr>dev_resets := dev_resets d + n\<rparr>) = d\<lparr>dev_resets := dev_resets d + Suc n\<rparr>"
    by (subst reset_idle) auto
  with Suc show ?case by simp
qed simp

subsection \<open>Properties\<close>

text \<open>C21: an image on probation never survives the next reset unless somebody confirms it.  From any
  state in which an unconfirmed image runs, whatever uploads, erasures and marks of other digests
  follow, the next reset takes it out of the running slot, puts there what the staging slot holds,
  and records its digest as failed.\<close>
theorem probation_reverts:
  assumes "dev_awaiting_confirm d" and "dev_slot0 d = Some s0"
    and "list_all (spares s0) ops" and "dev_run c sha d ops = Some d1"
  shows "dev_slot0 (reset d1) = dev_slot1 d1 \<and> dev_slot1 (reset d1) = Some s0 \<and>
    dev_failed_digests (reset d1) = dev_failed_digests d @ [im_hash s0] \<and>
    \<not> dev_awaiting_confirm (reset d1)"
  using spared_run [OF assms(4,3,2,1)] by (simp add: reset_awaiting)

text \<open>C22: test, then confirm or revert.  Marking a staged image for test and resetting makes it run,
  unconfirmed and on probation, with the old image kept in the staging slot.  Confirmed by its
  digest it then stays through any number of further resets; left alone, the next reset restores
  the old image exactly and the one after that changes nothing.\<close>
theorem test_then_confirm_or_revert:
  assumes "\<not> dev_awaiting_confirm d" and "dev_fault d \<noteq> DigestAlreadyFailed"
    and "dev_slot0 d = Some s0" and "\<not> im_pending s0" and "dev_slot1 d = Some s1"
    and "im_hash s0 \<noteq> im_hash s1"
  defines "tested \<equiv> reset (snd (set_state d (Some (im_hash s1)) False))"
  defines "confirmed \<equiv> snd (set_state tested (Some (im_hash s1)) True)"
  shows "fst (set_state d (Some (im_hash s1)) False) = Inr () \<and>
    dev_slot0 tested = Some (s1\<lparr>im_pending := False, im_confirmed := False, im_permanent := False\<rparr>) \<and>
    dev_awaiting_confirm tested \<and> dev_slot1 tested = Some s0 \<and>
    dev_slot0 ((reset ^^ n) confirmed) =
      Some (s1\<lparr>im_pending := False, im_confirmed := True, im_permanent := True\<rparr>) \<and>
    dev_slot0 ((reset ^^ Suc n) tested) = Some s0 \<and>
    im_hash s1 \<in> set (dev_failed_digests ((reset ^^ Suc n) tested))"
proof -
  let ?marked = "d\<lparr>dev_slot1 := Some (s1\<lparr>im_pending := True, im_permanent := False\<rparr>)\<rparr>"
  have mark: "set_state d (Some (im_hash s1)) False = (Inr (), ?marked)"
    using assms(2-6) by (simp add: set_state_def Let_def)
  then have tested: "tested = ?marked\<lparr>dev_resets := dev_resets d + 1,
      dev_slot0 := Some (s1\<lparr>im_pending := False, im_confirmed := False, im_permanent := False\<rparr>),
      dev_slot1 := Some s0, dev_awaiting_confirm := True\<rparr>"
    unfolding tested_def using assms(1,3) by (simp add: reset_swap)
  have confirmed: "confirmed = tested\<lparr>dev_slot0 := Some (s1\<lparr>im_pending := False, im_confirmed := True,
      im_permanent := True\<rparr>), dev_awaiting_confirm := False\<rparr>"
    unfolding confirmed_def using assms(2)
    by (simp add: set_state_def confirm_running_def Let_def tested)
  have "reset tested = tested\<lparr>dev_resets := dev_resets d + 2,
      dev_failed_digests := dev_failed_digests d @ [im_hash s1], dev_slot0 := Some s0,
      dev_slot1 := dev_slot0 tested, dev_awaiting_confirm := False\<rparr>"
    by (subst reset_awaiting [of _ _ "im_hash s1"]) (simp_all add: tested)
  then have "(reset ^^ Suc n) tested = (reset tested)\<lparr>dev_resets := dev_resets (reset tested) + n\<rparr>"
    unfolding funpow_Suc_right comp_apply by (intro resets_idle) (auto simp: tested)
  moreover have "(reset ^^ n) confirmed = confirmed\<lparr>dev_resets := dev_resets confirmed + n\<rparr>"
    using assms(4) by (intro resets_idle) (simp_all add: confirmed tested)
  ultimately show ?thesis
    using mark \<open>reset tested = _\<close> by (simp add: confirmed tested)
qed

text \<open>Who can confirm.  If after one operation on a board the running image is confirmed, then it
  was the confirmed image of one of the two slots before, or the operation was a \<open>set_state\<close> without
  a digest or naming this image's digest, or it was the reset that swapped in an image marked
  permanent beforehand.  Uploads and erasures never confirm.\<close>
theorem confirmed_only_by_request:
  assumes "dev_step c sha d op = Some d'" and "dev_slot0 d' = Some s" and "im_confirmed s"
  shows "(\<exists>s'. (dev_slot0 d = Some s' \<or> dev_slot1 d = Some s') \<and> im_confirmed s' \<and> im_hash s' = im_hash s)
    \<or> (\<exists>hash confirm. op = OpSetState hash confirm \<and> (hash = None \<or> hash = Some (im_hash s)))
    \<or> (op = OpReset \<and> (\<exists>s1. dev_slot1 d = Some s1 \<and> im_pending s1 \<and> im_permanent s1 \<and>
          im_hash s1 = im_hash s))"
proof (cases op)
  case (OpUpload off len declared data)
  with assms show ?thesis by (auto dest!: upload_chunk_frame)
next
  case (OpSetState hash confirm)
  with assms show ?thesis
    by (cases hash) (auto simp: set_state_def confirm_running_def Let_def split: option.splits if_splits)
next
  case OpReset
  with assms show ?thesis
    by (auto simp: reset_def Let_def split: option.splits if_splits)
next
  case OpErase
  with assms show ?thesis by (auto simp: erase_def)
qed

text \<open>A mark for test confirms when it names the running image.  \<open>set_state\<close> compares the digest
  with slot 0 first and then ignores \<open>confirm\<close>: on a board whose new image is on probation, a
  \<open>confirm=false\<close> mark of that image ends the probation and makes it permanent.\<close>
theorem test_mark_confirms_running:
  assumes "dev_slot0 d = Some s0" and "dev_fault d \<noteq> DigestAlreadyFailed"
  shows "set_state d (Some (im_hash s0)) False =
    (Inr (), d\<lparr>dev_slot0 := Some (s0\<lparr>im_confirmed := True, im_permanent := True\<rparr>),
               dev_awaiting_confirm := False\<rparr>)"
  using assms by (simp add: set_state_def confirm_running_def)

text \<open>Erasing during probation costs the board its only good image.  The erase command does not
  look at the probation: after it, the revert of the next reset leaves nothing in the running slot.\<close>
theorem erase_in_probation_bricks:
  assumes "dev_awaiting_confirm d" and "dev_slot0 d = Some s0"
  shows "dev_slot0 (reset (erase d)) = None \<and> dev_slot1 (reset (erase d)) = Some s0"
  using assms by (simp add: erase_def reset_awaiting)

text \<open>C23: an upload stages exactly what was sent, or nothing.  A chunk changes the staging slot only when
  it completes the transfer, and then the slot holds the image of the bytes received, whose
  SHA-256 is the one the client declared; the running image, its confirmation and the list of
  failed digests are never touched by an upload.\<close>
theorem upload_integrity:
  assumes "upload_chunk c sha d off len declared data = Some (out, d')"
  shows "(dev_slot1 d' = dev_slot1 d \<or>
      (\<exists>img. dev_slot1 d' = Some img \<and> out = Complete (length (up_received (dev_upload d'))) True \<and>
        image_from_bytes c sha (up_received (dev_upload d')) ''2.0.0+staged'' = Some img \<and>
        up_declared_sha (dev_upload d') = Some (sha (up_received (dev_upload d'))))) \<and>
    dev_slot0 d' = dev_slot0 d \<and> dev_awaiting_confirm d' = dev_awaiting_confirm d \<and>
    dev_failed_digests d' = dev_failed_digests d"
  using upload_chunk_frame [OF assms] upload_chunk_slot1 [OF assms] by auto

text \<open>On every board that came out of provisioning, in whatever order chunks, marks, erasures and
  resets arrived and whatever fault it was built with, an image on probation is one that is really
  running, and it is unconfirmed unless the board was built to revert even permanent images.\<close>
theorem reachable_probation:
  assumes "dev_reachable c sha f d" and "dev_awaiting_confirm d"
  shows "\<exists>s0. dev_slot0 d = Some s0 \<and> (f \<noteq> RevertOnBoot \<longrightarrow> \<not> im_confirmed s0)"
  using dev_reachable_inv [OF assms(1)] assms(2) by (auto simp: dev_inv_def)

subsection \<open>A whole upload\<close>

text \<open>
  The client loop of the module's tests (\<open>upload_whole\<close>): 128-byte chunks, the length and the
  digest sent with the first one, and the device's answer deciding where to go on.
\<close>

partial_function (option) upload_loop ::
    "usize_cfg \<Rightarrow> (bytes \<Rightarrow> bytes) \<Rightarrow> bytes \<Rightarrow> device \<Rightarrow> nat \<Rightarrow> upload_outcome
      \<Rightarrow> (upload_outcome \<times> device) option" where
  "upload_loop c sha img d off prev =
     (if off < length img then
        (case upload_chunk c sha d off (if off = 0 then Some (length img) else None)
                (if off = 0 then Some (sha img) else None)
                (take (min (off + 128) (length img) - off) (drop off img)) of
           None \<Rightarrow> None
         | Some (out, d') \<Rightarrow>
             (case out of
                Continue next_off \<Rightarrow> upload_loop c sha img d' next_off out
              | Complete _ _ \<Rightarrow> Some (out, d')
              | GoSilent \<Rightarrow> Some (out, d')))
      else Some (prev, d))"

definition upload_whole ::
    "usize_cfg \<Rightarrow> (bytes \<Rightarrow> bytes) \<Rightarrow> device \<Rightarrow> bytes \<Rightarrow> (upload_outcome \<times> device) option" where
  "upload_whole c sha d img = upload_loop c sha img d 0 (Continue 0)"

text \<open>The loop's state at offset \<open>off\<close>; a board whose restart fault has not fired yet is armed.\<close>

definition uploading :: "(bytes \<Rightarrow> bytes) \<Rightarrow> bytes \<Rightarrow> device \<Rightarrow> nat \<Rightarrow> bool" where
  "uploading sha img d off \<longleftrightarrow> off = 0 \<or>
     (up_received (dev_upload d) = take off img \<and> off \<le> length img \<and>
      up_expected_len (dev_upload d) = length img \<and> up_declared_sha (dev_upload d) = Some (sha img))"

definition honest_fault :: "fault \<Rightarrow> bool" where
  "honest_fault f \<longleftrightarrow> (case f of BadHash \<Rightarrow> False | DisconnectMidUpload _ \<Rightarrow> False | _ \<Rightarrow> True)"

definition armed :: "device \<Rightarrow> bool" where
  "armed d \<longleftrightarrow> (case dev_fault d of
     RestartUpload _ \<Rightarrow> \<not> up_restart_demanded (dev_upload d) | _ \<Rightarrow> False)"

lemma take_chunk: "take off xs @ take (min (off + 128) (length xs) - off) (drop off xs) =
    take (min (off + 128) (length xs)) xs"
  by (simp add: take_add [symmetric] min_def)

abbreviation whole_chunk ::
    "usize_cfg \<Rightarrow> (bytes \<Rightarrow> bytes) \<Rightarrow> bytes \<Rightarrow> device \<Rightarrow> nat \<Rightarrow> (upload_outcome \<times> device) option" where
  "whole_chunk c sha img d off \<equiv>
     upload_chunk c sha d off (if off = 0 then Some (length img) else None)
       (if off = 0 then Some (sha img) else None)
       (take (min (off + 128) (length img) - off) (drop off img))"

text \<open>A chunk that meets no fault moves the transfer on by up to 128 bytes, and the last one stages
  the image.\<close>

lemma chunk_first:
  assumes "0 < length img" and "honest_fault (dev_fault d)"
    and "image_from_bytes c sha img ''2.0.0+staged'' = Some im"
  shows "\<exists>d'. whole_chunk c sha img d 0 =
      Some (if min 128 (length img) < length img then Continue (min 128 (length img))
            else Complete (length img) True, d') \<and>
    uploading sha img d' (min 128 (length img)) \<and> dev_fault d' = dev_fault d \<and>
    armed d' = armed d \<and> (length img \<le> 128 \<longrightarrow> dev_slot1 d' = Some im)"
  using assms
  by (cases "length img \<le> 128"; cases "dev_fault d")
    (auto simp: upload_chunk_def Let_def uploading_def honest_fault_def armed_def min_def)

lemma chunk_later:
  assumes "0 < off" and "off < length img" and "honest_fault (dev_fault d)"
    and "image_from_bytes c sha img ''2.0.0+staged'' = Some im"
    and "uploading sha img d off"
    and "\<not> (\<exists>n. dev_fault d = RestartUpload n \<and> n \<le> off \<and> \<not> up_restart_demanded (dev_upload d))"
  shows "\<exists>d'. whole_chunk c sha img d off =
      Some (if min (off + 128) (length img) < length img then Continue (min (off + 128) (length img))
            else Complete (length img) True, d') \<and>
    uploading sha img d' (min (off + 128) (length img)) \<and> dev_fault d' = dev_fault d \<and>
    armed d' = armed d \<and> (length img \<le> off + 128 \<longrightarrow> dev_slot1 d' = Some im)"
proof -
  define rcv where "rcv = take (min (off + 128) (length img)) img"
  have rcv: "up_received (dev_upload d) @ take (min (off + 128) (length img) - off) (drop off img) = rcv"
    and len: "length rcv = min (off + 128) (length img)"
    using assms(1,5) take_chunk [of off img] by (simp_all add: uploading_def rcv_def)
  have full: "length img \<le> off + 128 \<Longrightarrow> rcv = img" by (simp add: rcv_def)
  have stuck: "\<not> (case dev_fault d of RestartUpload n \<Rightarrow>
      \<not> up_restart_demanded (dev_upload d) \<and> n \<le> off \<and> 0 < off | _ \<Rightarrow> False)"
    using assms(6) by (auto split: fault.splits)
  show ?thesis
    using assms(1-5) stuck full len
    by (cases "length img \<le> off + 128"; cases "dev_fault d")
      (auto simp: upload_chunk_def Let_def rcv uploading_def honest_fault_def armed_def min_def rcv_def [symmetric]
        take_add [of off 128 img, symmetric])
qed

lemma upload_loop_chunk:
  assumes "off < length img" and "whole_chunk c sha img d off = Some (out, d')"
  shows "upload_loop c sha img d off prev =
    (case out of Continue n \<Rightarrow> upload_loop c sha img d' n out | _ \<Rightarrow> Some (out, d'))"
  using assms by (subst upload_loop.simps) (auto split: upload_outcome.splits)

text \<open>One chunk that meets no restart, at any offset.\<close>

lemma chunk_plain:
  assumes "off < length img" and "honest_fault (dev_fault d)"
    and "image_from_bytes c sha img ''2.0.0+staged'' = Some im"
    and "uploading sha img d off"
    and "off = 0 \<or> \<not> (\<exists>n. dev_fault d = RestartUpload n \<and> n \<le> off \<and> \<not> up_restart_demanded (dev_upload d))"
  obtains d' where "whole_chunk c sha img d off =
      Some (if off + 128 < length img then Continue (off + 128) else Complete (length img) True, d')"
    and "off + 128 < length img \<Longrightarrow> uploading sha img d' (off + 128)"
    and "dev_fault d' = dev_fault d" and "armed d' = armed d"
    and "length img \<le> off + 128 \<Longrightarrow> dev_slot1 d' = Some im"
proof (cases "off = 0")
  case True
  then have "0 < length img" using assms(1) by simp
  from chunk_first [OF this assms(2,3)] show thesis
    using that True by (auto simp: min_def split: if_splits)
next
  case False
  then have "0 < off" by simp
  have "\<not> (\<exists>n. dev_fault d = RestartUpload n \<and> n \<le> off \<and> \<not> up_restart_demanded (dev_upload d))"
    using assms(5) False by simp
  from chunk_later [OF \<open>0 < off\<close> assms(1-4) this] show thesis
    using that by (auto simp: min_def split: if_splits)
qed

text \<open>With no restart left to fire, the loop runs straight to the end.\<close>

lemma upload_loop_plain:
  assumes "off < length img" and "honest_fault (dev_fault d)"
    and "image_from_bytes c sha img ''2.0.0+staged'' = Some im"
    and "uploading sha img d off" and "\<not> armed d"
  shows "\<exists>d'. upload_loop c sha img d off prev = Some (Complete (length img) True, d') \<and>
    dev_slot1 d' = Some im"
  using assms
proof (induction "length img - off" arbitrary: off d prev rule: less_induct)
  case less
  have "off = 0 \<or> \<not> (\<exists>n. dev_fault d = RestartUpload n \<and> n \<le> off \<and> \<not> up_restart_demanded (dev_upload d))"
    using less.prems(5) by (auto simp: armed_def)
  then obtain d' where d': "whole_chunk c sha img d off =
      Some (if off + 128 < length img then Continue (off + 128) else Complete (length img) True, d')"
      "off + 128 < length img \<Longrightarrow> uploading sha img d' (off + 128)"
      "dev_fault d' = dev_fault d" "armed d' = armed d"
      "length img \<le> off + 128 \<Longrightarrow> dev_slot1 d' = Some im"
    using chunk_plain [OF less.prems(1-4)] by blast
  show ?case
  proof (cases "off + 128 < length img")
    case True
    with less.hyps [of "off + 128" d' "Continue (off + 128)"] less.prems d' show ?thesis
      by (auto simp: upload_loop_chunk [OF less.prems(1) d'(1)])
  next
    case False
    with d' show ?thesis by (auto simp: upload_loop_chunk [OF less.prems(1) d'(1)])
  qed
qed

text \<open>The demand to restart: the offset goes back to zero and the fault is spent.\<close>

lemma chunk_restart:
  assumes "0 < off" and "uploading sha img d off"
    and "dev_fault d = RestartUpload n" and "n \<le> off" and "\<not> up_restart_demanded (dev_upload d)"
    and "off \<le> length img"
  obtains d' where "whole_chunk c sha img d off = Some (Continue 0, d')"
    and "dev_fault d' = dev_fault d" and "\<not> armed d'"
  using assms by (auto simp: upload_chunk_def uploading_def armed_def)

lemma upload_loop_restart:
  assumes "off < length img" and "honest_fault (dev_fault d)"
    and "image_from_bytes c sha img ''2.0.0+staged'' = Some im"
    and "uploading sha img d off" and "armed d"
  shows "\<exists>d'. upload_loop c sha img d off prev = Some (Complete (length img) True, d') \<and>
    dev_slot1 d' = Some im"
  using assms
proof (induction "length img - off" arbitrary: off d prev rule: less_induct)
  case less
  obtain n where n: "dev_fault d = RestartUpload n" "\<not> up_restart_demanded (dev_upload d)"
    using less.prems(5) by (auto simp: armed_def split: fault.splits)
  show ?case
  proof (cases "0 < off \<and> n \<le> off")
    case True
    then obtain d' where d': "whole_chunk c sha img d off = Some (Continue 0, d')"
        "dev_fault d' = dev_fault d" "\<not> armed d'"
      using chunk_restart [OF _ less.prems(4) n(1) _ n(2)] less.prems(1) by (metis less_imp_le)
    have "uploading sha img d' 0" "img \<noteq> []" using less.prems(1) by (auto simp: uploading_def)
    with upload_loop_plain [of 0 img d' c sha im "Continue 0"] less.prems d' show ?thesis
      by (auto simp: upload_loop_chunk [OF less.prems(1) d'(1)])
  next
    case False
    then have "off = 0 \<or> \<not> (\<exists>n. dev_fault d = RestartUpload n \<and> n \<le> off \<and> \<not> up_restart_demanded (dev_upload d))"
      using n by auto
    then obtain d' where d': "whole_chunk c sha img d off =
        Some (if off + 128 < length img then Continue (off + 128) else Complete (length img) True, d')"
        "off + 128 < length img \<Longrightarrow> uploading sha img d' (off + 128)"
        "dev_fault d' = dev_fault d" "armed d' = armed d"
        "length img \<le> off + 128 \<Longrightarrow> dev_slot1 d' = Some im"
      using chunk_plain [OF less.prems(1-4)] by blast
    show ?thesis
    proof (cases "off + 128 < length img")
      case True
      with less.hyps [of "off + 128" d' "Continue (off + 128)"] less.prems d' show ?thesis
        by (auto simp: upload_loop_chunk [OF less.prems(1) d'(1)])
    next
      case False
      with d' show ?thesis by (auto simp: upload_loop_chunk [OF less.prems(1) d'(1)])
    qed
  qed
qed

lemma upload_whole_stages:
  assumes "img \<noteq> []" and "honest_fault (dev_fault d)"
    and "image_from_bytes c sha img ''2.0.0+staged'' = Some im"
  shows "\<exists>d'. upload_whole c sha d img = Some (Complete (length img) True, d') \<and> dev_slot1 d' = Some im"
  unfolding upload_whole_def
  using upload_loop_plain [of 0 img d c sha im] upload_loop_restart [of 0 img d c sha im] assms
  by (cases "armed d") (simp_all add: uploading_def)

text \<open>The rest of the board during the loop.\<close>

definition same_run :: "device \<Rightarrow> device \<Rightarrow> bool" where
  "same_run d d' \<longleftrightarrow> dev_slot0 d' = dev_slot0 d \<and> dev_fault d' = dev_fault d \<and>
     dev_awaiting_confirm d' = dev_awaiting_confirm d"

lemma upload_loop_frame:
  assumes "upload_loop c sha img d off prev = Some y"
  shows "same_run d (snd y)"
proof (rule upload_loop.raw_induct [of "\<lambda>c sha img d off prev y. same_run d (snd y)", OF _ assms])
  fix loop c and sha :: "bytes \<Rightarrow> bytes" and img :: bytes and d off prev y
  assume IH: "\<And>c sha img d off prev y. loop c sha img d off prev = Some y \<Longrightarrow> same_run d (snd y)"
    and body: "(if off < length img
      then case upload_chunk c sha d off (if off = 0 then Some (length img) else None)
                (if off = 0 then Some (sha img) else None)
                (take (min (off + 128) (length img) - off) (drop off img)) of
             None \<Rightarrow> None
           | Some (out, d') \<Rightarrow>
               (case out of Continue next_off \<Rightarrow> loop c sha img d' next_off out
                | Complete n b \<Rightarrow> Some (out, d') | GoSilent \<Rightarrow> Some (out, d'))
      else Some (prev, d)) = Some y"
  show "same_run d (snd y)"
  proof (cases "off < length img")
    case False
    with body show ?thesis by (auto simp: same_run_def)
  next
    case True
    with body obtain out d' where chunk: "whole_chunk c sha img d off = Some (out, d')"
      and rest: "(case out of Continue next_off \<Rightarrow> loop c sha img d' next_off out
        | Complete n b \<Rightarrow> Some (out, d') | GoSilent \<Rightarrow> Some (out, d')) = Some y"
      by (auto split: option.splits)
    have "same_run d d'" using upload_chunk_frame [OF chunk] by (simp add: same_run_def)
    with rest IH [of c sha img d'] show ?thesis
      by (cases out) (auto simp: same_run_def)
  qed
qed

text \<open>An upload completes even when the device demands a restart in the middle.  Against a board
  whose fault is neither a disconnect nor a bad hash, the client loop that follows the offsets the
  device answers ends (it never chases offsets forever), reports the whole length with a matching
  digest, and leaves exactly the image of the file sent in the staging slot.\<close>
theorem upload_completes:
  assumes "img \<noteq> []" and "honest_fault (dev_fault d)"
    and "image_from_bytes c sha img ''2.0.0+staged'' = Some im"
  shows "\<exists>d'. upload_whole c sha d img = Some (Complete (length img) True, d') \<and>
    dev_slot1 d' = Some im"
  using upload_whole_stages [OF assms] .

subsection \<open>Concrete boards\<close>

definition old_image :: slot_image where
  "old_image = \<lparr>im_version = ''1.0.0'', im_hash = [1], im_bytes = 1, im_bootable = True,
     im_pending = False, im_confirmed = True, im_permanent = True\<rparr>"

definition new_image :: slot_image where
  "new_image = \<lparr>im_version = ''2.0.0+staged'', im_hash = [2], im_bytes = 1, im_bootable = True,
     im_pending = False, im_confirmed = False, im_permanent = False\<rparr>"

definition staged_board :: device where
  "staged_board = \<lparr>dev_slot0 = Some old_image, dev_slot1 = Some new_image,
     dev_upload = upload_default, dev_fault = NoFault, dev_failed_digests = [], dev_resets = 0,
     dev_awaiting_confirm = False\<rparr>"

definition probation_board :: device where
  "probation_board = staged_board\<lparr>dev_slot0 := Some new_image, dev_slot1 := Some old_image,
     dev_awaiting_confirm := True\<rparr>"

lemmas board_defs = old_image_def new_image_def staged_board_def probation_board_def upload_default_def

lemma probation_reverts_witness:
  "dev_slot0 (reset (erase probation_board)) = None \<and>
   dev_failed_digests (reset (erase probation_board)) = [[2]]"
  using probation_reverts [of probation_board new_image "[OpErase]" "cfg64 False" id "erase probation_board"]
  by (simp add: board_defs erase_def)

lemma test_then_confirm_or_revert_witness:
  "dev_slot0 ((reset ^^ 3) (reset (snd (set_state staged_board (Some [2]) False)))) = Some old_image"
  using test_then_confirm_or_revert [of staged_board old_image new_image 0, THEN conjunct2]
    test_then_confirm_or_revert [of staged_board old_image new_image 2]
  by (simp add: board_defs eval_nat_numeral)

lemma confirmed_only_by_request_witness:
  "\<exists>s1. dev_slot1 (snd (set_state staged_board (Some [2]) True)) = Some s1 \<and> im_pending s1 \<and>
     im_permanent s1 \<and> im_hash s1 = [2]"
  using confirmed_only_by_request [of "cfg64 False" id
      "snd (set_state staged_board (Some [2]) True)" OpReset
      "reset (snd (set_state staged_board (Some [2]) True))"
      "new_image\<lparr>im_confirmed := True, im_permanent := True\<rparr>"]
  by (simp add: board_defs set_state_def reset_def)

lemma test_mark_confirms_running_witness:
  "im_confirmed (the (dev_slot0 (snd (set_state probation_board (Some [2]) False))))"
  using test_mark_confirms_running [of probation_board new_image] by (simp add: board_defs)

lemma erase_in_probation_bricks_witness:
  "dev_slot0 (reset (erase probation_board)) = None"
  using erase_in_probation_bricks [of probation_board new_image] by (simp add: board_defs)

lemma short_parse: "length data < 32 \<Longrightarrow> mcuboot_parse c data = Some (Done (Inl (ImageTooShort (length data))))"
  by (simp add: mcuboot_parse_def HEADER_LEN_def)

lemma upload_integrity_witness:
  "fst (the (upload_chunk (cfg64 False) id staged_board 0 (Some 2) (Some [7, 8]) [7, 8])) = Complete 2 True \<and>
   dev_slot0 (snd (the (upload_chunk (cfg64 False) id staged_board 0 (Some 2) (Some [7, 8]) [7, 8]))) =
     Some old_image"
  using upload_integrity [of "cfg64 False" id staged_board 0 "Some 2" "Some [7, 8]" "[7, 8]"
      "fst (the (upload_chunk (cfg64 False) id staged_board 0 (Some 2) (Some [7, 8]) [7, 8]))"
      "snd (the (upload_chunk (cfg64 False) id staged_board 0 (Some 2) (Some [7, 8]) [7, 8]))"]
  by (simp add: board_defs upload_chunk_def image_from_bytes_def short_parse Let_def)

lemma upload_completes_witness:
  "\<exists>d'. upload_whole (cfg64 False) id staged_board [7, 8] = Some (Complete 2 True, d') \<and>
    dev_slot1 d' \<noteq> None"
  using upload_completes [of "[7, 8]" staged_board "cfg64 False" id]
  by (auto simp: board_defs honest_fault_def image_from_bytes_def short_parse)

lemma factory_provisioned:
  "provisioned c sha f = Some \<lparr>dev_slot0 = Some \<lparr>im_version = ''1.0.0+factory'',
      im_hash = sha factory_image, im_bytes = 13, im_bootable = True, im_pending = False,
      im_confirmed = True, im_permanent = True\<rparr>, dev_slot1 = None, dev_upload = upload_default,
    dev_fault = f, dev_failed_digests = [], dev_resets = 0, dev_awaiting_confirm = False\<rparr>"
proof -
  have len: "length factory_image = 13" by (simp add: factory_image_def)
  then have "mcuboot_parse c factory_image = Some (Done (Inl (ImageTooShort 13)))" by (simp add: short_parse)
  then show ?thesis by (simp add: provisioned_def image_from_bytes_def len)
qed

lemma factory_image_neq [simp]: "factory_image \<noteq> [7, 8]"
  by (simp add: factory_image_def)

lemma reachable_probation_witness:
  "\<exists>d. dev_reachable (cfg64 False) id NoFault d \<and> dev_awaiting_confirm d \<and>
    (\<exists>s0. dev_slot0 d = Some s0 \<and> \<not> im_confirmed s0)"
proof -
  let ?p = "the (provisioned (cfg64 False) id NoFault)"
  have "provisioned (cfg64 False) id NoFault = Some ?p" by (simp add: factory_provisioned)
  note r0 = dev_reachable.start [OF this]
  let ?u = "the (dev_step (cfg64 False) id ?p (OpUpload 0 (Some 2) (Some [7, 8]) [7, 8]))"
  have "dev_step (cfg64 False) id ?p (OpUpload 0 (Some 2) (Some [7, 8]) [7, 8]) = Some ?u"
    by (simp add: factory_provisioned image_from_bytes_def short_parse
        upload_chunk_def Let_def upload_default_def)
  note r1 = dev_reachable.step [OF r0 this]
  note r2 = dev_reachable.step [OF r1, of "OpSetState (Some [7, 8]) False" "snd (set_state ?u (Some [7, 8]) False)"]
  let ?d = "reset (snd (set_state ?u (Some [7, 8]) False))"
  have "dev_reachable (cfg64 False) id NoFault ?d"
    using dev_reachable.step [OF r2, of OpReset ?d] by simp
  moreover have "dev_awaiting_confirm ?d"
    by (simp add: factory_provisioned image_from_bytes_def short_parse
        upload_chunk_def Let_def upload_default_def set_state_def reset_def)
  ultimately show ?thesis using reachable_probation [of "cfg64 False" id NoFault ?d] by auto
qed

end
