(* ===== verification/Server.thy ===== *)
theory Server
  imports Codec Device
begin

text \<open>
  The emulated board's SMP server (\<open>crates/runtt-mock/src/server.rs\<close>): the command dispatcher and
  the serve loop that feeds it from a byte pipe.  The \<open>ciborium\<close> crate's encoder and decoder are
  the parameters \<open>cenc\<close> and \<open>cdec\<close>; what the pipe and the clock do at each turn of the loop is the
  environment's choice, given as a script.  Results that involve reading an image are options:
  \<open>None\<close> where \<open>mcuboot::parse\<close> does not return.
\<close>

definition OS_ECHO :: byte where "OS_ECHO = 0"
definition OS_RESET :: byte where "OS_RESET = 5"
definition OS_MCUMGR_PARAMS :: byte where "OS_MCUMGR_PARAMS = 6"
definition IMG_STATE :: byte where "IMG_STATE = 0"
definition IMG_UPLOAD :: byte where "IMG_UPLOAD = 1"
definition IMG_ERASE :: byte where "IMG_ERASE = 5"
definition DESCRIBE :: byte where "DESCRIBE = 0"
definition ERR_EINVAL :: int where "ERR_EINVAL = 3"
definition ERR_ENOTSUP :: int where "ERR_ENOTSUP = 8"

lemmas smp_ids = GROUP_OS_def GROUP_IMG_def GROUP_PERUSER_def OS_ECHO_def OS_RESET_def
  OS_MCUMGR_PARAMS_def IMG_STATE_def IMG_UPLOAD_def IMG_ERASE_def DESCRIBE_def OP_READ_def

subsection \<open>CBOR values\<close>

text \<open>The variants of \<open>ciborium::Value\<close> the sources use; the rest (floats, tags, null) is one.\<close>

datatype cbor =
    Integer int
  | Bytes bytes
  | Text string
  | Bool bool
  | Array "cbor list"
  | Map "(cbor \<times> cbor) list"
  | OtherValue nat

definition cbor_map :: "(cbor \<Rightarrow> bytes) \<Rightarrow> (string \<times> cbor) list \<Rightarrow> bytes" where
  "cbor_map cenc entries = cenc (Map (map (\<lambda>(k, v). (Text k, v)) entries))"

definition decode_map :: "(bytes \<Rightarrow> cbor option) \<Rightarrow> bytes \<Rightarrow> (cbor \<times> cbor) list" where
  "decode_map cdec bs = (case cdec bs of Some (Map m) \<Rightarrow> m | _ \<Rightarrow> [])"

definition lookup :: "(cbor \<times> cbor) list \<Rightarrow> string \<Rightarrow> cbor option" where
  "lookup m key = map_option snd (find (\<lambda>(k, _). k = Text key) m)"

definition get_str :: "(cbor \<times> cbor) list \<Rightarrow> string \<Rightarrow> string option" where
  "get_str m key = (case lookup m key of Some (Text t) \<Rightarrow> Some t | _ \<Rightarrow> None)"

definition get_bool :: "(cbor \<times> cbor) list \<Rightarrow> string \<Rightarrow> bool option" where
  "get_bool m key = (case lookup m key of Some (Bool b) \<Rightarrow> Some b | _ \<Rightarrow> None)"

definition get_u64 :: "(cbor \<times> cbor) list \<Rightarrow> string \<Rightarrow> nat option" where
  "get_u64 m key =
     (case lookup m key of
        Some (Integer i) \<Rightarrow> if 0 \<le> i \<and> i < 2 ^ 64 then Some (nat i) else None
      | _ \<Rightarrow> None)"

definition get_bytes :: "(cbor \<times> cbor) list \<Rightarrow> string \<Rightarrow> bytes option" where
  "get_bytes m key = (case lookup m key of Some (Bytes b) \<Rightarrow> Some b | _ \<Rightarrow> None)"

definition error_payload :: "(cbor \<Rightarrow> bytes) \<Rightarrow> byte \<Rightarrow> u16 \<Rightarrow> int \<Rightarrow> bytes" where
  "error_payload cenc version grp rc =
     (if 1 \<le> version
      then cbor_map cenc [(''err'', Map [(Text ''group'', Integer (int (unat grp))),
                                         (Text ''rc'', Integer rc)])]
      else cbor_map cenc [(''rc'', Integer rc)])"

definition state_payload :: "(cbor \<Rightarrow> bytes) \<Rightarrow> device \<Rightarrow> bytes" where
  "state_payload cenc d =
     cenc (Map [(Text ''images'', Array (map (\<lambda>r. Map
       [(Text ''image'', Integer 0),
        (Text ''slot'', Integer (int (sr_slot r))),
        (Text ''version'', Text (im_version (sr_img r))),
        (Text ''hash'', Bytes (im_hash (sr_img r))),
        (Text ''bootable'', Bool (im_bootable (sr_img r))),
        (Text ''pending'', Bool (im_pending (sr_img r))),
        (Text ''confirmed'', Bool (im_confirmed (sr_img r))),
        (Text ''active'', Bool (sr_active r)),
        (Text ''permanent'', Bool (im_permanent (sr_img r)))]) (image_states d)))])"

subsection \<open>Dispatch\<close>

record server =
  sv_dev :: device
  sv_decoder :: decoder
  sv_silent :: bool
  sv_contract :: string
  sv_chatter :: "string option"
  sv_next_chatter :: nat        \<comment> \<open>milliseconds\<close>
  sv_chatter_seq :: nat         \<comment> \<open>the \<open>u32\<close> is this modulo \<open>2 ^ 32\<close>\<close>

definition CHATTER_EVERY :: nat where "CHATTER_EVERY = 200"

definition server_new :: "usize_cfg \<Rightarrow> (bytes \<Rightarrow> bytes) \<Rightarrow> nat \<Rightarrow> fault \<Rightarrow> server option" where
  "server_new c sha now f =
     map_option (\<lambda>d. \<lparr>sv_dev = d, sv_decoder = decoder_new, sv_silent = False,
        sv_contract = ''2.0.0'', sv_chatter = None, sv_next_chatter = now, sv_chatter_seq = 0\<rparr>)
      (provisioned c sha f)"

definition with_contract :: "server \<Rightarrow> string \<Rightarrow> server" where
  "with_contract s version = s\<lparr>sv_contract := version\<rparr>"

definition with_chatter :: "server \<Rightarrow> string \<Rightarrow> server" where
  "with_chatter s t = s\<lparr>sv_chatter := Some t\<rparr>"

text \<open>The library functions the server calls, and the machine it runs on.\<close>

record libs =
  lib_cfg :: usize_cfg
  lib_sha :: "bytes \<Rightarrow> bytes"
  lib_crc :: "bytes \<Rightarrow> u16"
  lib_b64 :: "bytes \<Rightarrow> bytes"
  lib_unb64 :: "bytes \<Rightarrow> bytes option"
  lib_cenc :: "cbor \<Rightarrow> bytes"
  lib_cdec :: "bytes \<Rightarrow> cbor option"

text \<open>The two commands with arguments: marking an image, and one chunk of an upload.\<close>

definition answer_set_state ::
    "libs \<Rightarrow> server \<Rightarrow> frame \<Rightarrow> (cbor \<times> cbor) list \<Rightarrow> bytes option \<times> server" where
  "answer_set_state L s req payload =
     (case set_state (sv_dev s) (get_bytes payload ''hash'')
             (case get_bool payload ''confirm'' of None \<Rightarrow> False | Some b \<Rightarrow> b) of
        (Inr _, d) \<Rightarrow> (Some (state_payload (lib_cenc L) d), s\<lparr>sv_dev := d\<rparr>)
      | (Inl _, d) \<Rightarrow>
          (Some (error_payload (lib_cenc L) (fr_version req) (fr_group req) ERR_EINVAL), s\<lparr>sv_dev := d\<rparr>))"

definition answer_upload ::
    "libs \<Rightarrow> server \<Rightarrow> (cbor \<times> cbor) list \<Rightarrow> (bytes option \<times> server) option" where
  "answer_upload L s payload =
     (case upload_chunk (lib_cfg L) (lib_sha L) (sv_dev s)
             (case get_u64 payload ''off'' of None \<Rightarrow> 0 | Some n \<Rightarrow> n)
             (get_u64 payload ''len'') (get_bytes payload ''sha'')
             (case get_bytes payload ''data'' of None \<Rightarrow> [] | Some b \<Rightarrow> b) of
        None \<Rightarrow> None
      | Some (GoSilent, d) \<Rightarrow> Some (None, s\<lparr>sv_dev := d, sv_silent := True\<rparr>)
      | Some (Continue off, d) \<Rightarrow>
          Some (Some (cbor_map (lib_cenc L) [(''off'', Integer (int off))]), s\<lparr>sv_dev := d\<rparr>)
      | Some (Complete off matches, d) \<Rightarrow>
          Some (Some (cbor_map (lib_cenc L) [(''off'', Integer (int off)), (''match'', Bool matches)]),
                s\<lparr>sv_dev := d\<rparr>))"

text \<open>The body of \<open>dispatch\<close>: the payload of the answer, \<open>None\<close> inside for a silenced upload.\<close>

definition dispatch_payload ::
    "libs \<Rightarrow> server \<Rightarrow> frame \<Rightarrow> (bytes option \<times> server) option" where
  "dispatch_payload L s req =
     (let payload = decode_map (lib_cdec L) (fr_payload req); g = fr_group req; cmd = fr_cmd req in
      if g = GROUP_OS \<and> cmd = OS_ECHO then
        Some (Some (cbor_map (lib_cenc L)
          [(''r'', Text (case get_str payload ''d'' of None \<Rightarrow> [] | Some t \<Rightarrow> t))]), s)
      else if g = GROUP_OS \<and> cmd = OS_MCUMGR_PARAMS then
        Some (Some (cbor_map (lib_cenc L) [(''buf_size'', Integer 384), (''buf_count'', Integer 4)]), s)
      else if g = GROUP_OS \<and> cmd = OS_RESET then
        Some (Some (cbor_map (lib_cenc L) []), s\<lparr>sv_dev := reset (sv_dev s)\<rparr>)
      else if g = GROUP_IMG \<and> cmd = IMG_STATE \<and> fr_op req = OP_READ then
        Some (Some (state_payload (lib_cenc L) (sv_dev s)), s)
      else if g = GROUP_IMG \<and> cmd = IMG_STATE then Some (answer_set_state L s req payload)
      else if g = GROUP_IMG \<and> cmd = IMG_UPLOAD then answer_upload L s payload
      else if g = GROUP_IMG \<and> cmd = IMG_ERASE then
        Some (Some (cbor_map (lib_cenc L) []), s\<lparr>sv_dev := erase (sv_dev s)\<rparr>)
      else if g = GROUP_PERUSER \<and> cmd = DESCRIBE then
        Some (Some (cbor_map (lib_cenc L)
          [(''contract'', Text (sv_contract s)), (''board'', Text ''runtt-mock''),
           (''app_version'', Text ''0.1.0''), (''channels'', Integer 2), (''img'', Bool True),
           (''idle'', Bool False)]), s)
      else Some (Some (error_payload (lib_cenc L) (fr_version req) g ERR_ENOTSUP), s))"

definition dispatch ::
    "libs \<Rightarrow> server \<Rightarrow> frame
      \<Rightarrow> (frame option \<times> server) option" where
  "dispatch L s req =
     (case dispatch_payload L s req of
        None \<Rightarrow> None
      | Some (None, s') \<Rightarrow> Some (None, s')
      | Some (Some out, s') \<Rightarrow>
          Some (Some \<lparr>fr_op = response_op req, fr_version = fr_version req, fr_flags = 0,
                      fr_group = fr_group req, fr_seq = fr_seq req, fr_cmd = fr_cmd req,
                      fr_payload = out\<rparr>, s'))"

subsection \<open>The serve loop\<close>

text \<open>\<open>speak\<close>: one line of application output when it is due.  The \<open>u32\<close> in it is the count of the lines so far,
  modulo \<open>2 ^ 32\<close> (a debug build panics where it wraps, after some 27 years).\<close>

definition speak :: "nat \<Rightarrow> server \<Rightarrow> bytes \<times> server" where
  "speak now s =
     (case sv_chatter s of
        None \<Rightarrow> ([], s)
      | Some t \<Rightarrow>
          if now < sv_next_chatter s then ([], s)
          else (map of_char (t @ '' '' @ dec_string (sv_chatter_seq s mod 2 ^ 32)) @ [13, 10],
                s\<lparr>sv_next_chatter := now + CHATTER_EVERY, sv_chatter_seq := sv_chatter_seq s + 1\<rparr>))"

definition withheld :: "fault \<Rightarrow> frame \<Rightarrow> bool" where
  "withheld f req = (case f of Timeout g cmd \<Rightarrow> fr_group req = g \<and> fr_cmd req = cmd | _ \<Rightarrow> False)"

text \<open>What the loop does with a complete body and with a line: the bytes to write, if any.\<close>

definition serve_body ::
    "libs \<Rightarrow> server \<Rightarrow> bytes \<Rightarrow> ((codec_error + bytes) \<times> server) option" where
  "serve_body L s body =
     (case frame_parse body of
        Inl _ \<Rightarrow> Some (Inr [], s)
      | Inr req \<Rightarrow>
          if sv_silent s then Some (Inr [], s)
          else if withheld (dev_fault (sv_dev s)) req then Some (Inr [], s)
          else (case dispatch L s req of
                  None \<Rightarrow> None
                | Some (None, s') \<Rightarrow> Some (Inr [], s')
                | Some (Some resp, s') \<Rightarrow> Some (encode (lib_crc L) (lib_b64 L) resp MAX_LINE, s')))"

definition serve_line ::
    "libs \<Rightarrow> server \<Rightarrow> bytes \<Rightarrow> ((codec_error + bytes) \<times> server) option" where
  "serve_line L s line =
     (case push_line (lib_crc L) (lib_unb64 L) (sv_decoder s) line of
        (Inl _, d) \<Rightarrow> Some (Inr [], s\<lparr>sv_decoder := d\<rparr>)
      | (Inr None, d) \<Rightarrow> Some (Inr [], s\<lparr>sv_decoder := d\<rparr>)
      | (Inr (Some body), d) \<Rightarrow> serve_body L (s\<lparr>sv_decoder := d\<rparr>) body)"

datatype pipe_read = Got bytes | PipeTimedOut | PipeInterrupted | PipeFailed

record serving =
  se_server :: server
  se_line :: bytes
  se_pending :: bytes
  se_out :: bytes               \<comment> \<open>everything written to the pipe\<close>

definition host_gone :: "serving \<Rightarrow> serving" where
  "host_gone st = st\<lparr>se_line := [], se_server := (se_server st)\<lparr>sv_decoder := decoder_new\<rparr>\<rparr>"

text \<open>Popping one byte: the end of the loop body.\<close>

definition serve_byte ::
    "libs \<Rightarrow> serving \<Rightarrow> byte
      \<Rightarrow> (codec_error + serving) option" where
  "serve_byte L st b =
     (if b \<noteq> 10 then Some (Inr (st\<lparr>se_line := se_line st @ [b]\<rparr>))
      else case serve_line L (se_server st) (se_line st) of
        None \<Rightarrow> None
      | Some (Inl e, s) \<Rightarrow> Some (Inl e)
      | Some (Inr wire, s) \<Rightarrow>
          Some (Inr (st\<lparr>se_line := [], se_server := s, se_out := se_out st @ wire\<rparr>)))"

text \<open>
  The loop over a script of (clock, read result) pairs, one per turn; a turn that still has pending
  bytes does not read.  Writes to the pipe succeed.  \<open>None\<close>: a turn that never returns.
\<close>

fun serve ::
    "libs \<Rightarrow> serving \<Rightarrow> (nat \<times> pipe_read) list
      \<Rightarrow> (codec_error + serving) option" where
  "serve L st [] = Some (Inr st)"
| "serve L st ((now, r) # script) =
     (case speak now (se_server st) of
        (said, s) \<Rightarrow>
          let st1 = st\<lparr>se_server := s, se_out := se_out st @ said\<rparr>;
              pop = (\<lambda>st bs. case bs of
                  [] \<Rightarrow> serve L st script
                | b # rest \<Rightarrow>
                    (case serve_byte L (st\<lparr>se_pending := rest\<rparr>) b of
                       None \<Rightarrow> None
                     | Some (Inl e) \<Rightarrow> Some (Inl e)
                     | Some (Inr st') \<Rightarrow> serve L st' script))
          in if se_pending st1 = [] then
               (case r of
                  Got bs \<Rightarrow>
                    if bs = [] then serve L (host_gone st1) script
                    else pop st1 bs
                | PipeTimedOut \<Rightarrow> serve L st1 script
                | PipeInterrupted \<Rightarrow> serve L st1 script
                | PipeFailed \<Rightarrow> serve L (host_gone st1) script)
             else pop st1 (se_pending st1))"

text \<open>The bytes of a stream one after the other; and the bytes a script of turns pops, with those it
  leaves pending, when the loop starts with \<open>p\<close> pending.\<close>

fun serve_bytes :: "libs \<Rightarrow> serving \<Rightarrow> bytes \<Rightarrow> (codec_error + serving) option" where
  "serve_bytes L st [] = Some (Inr st)"
| "serve_bytes L st (b # bs) =
     (case serve_byte L st b of
        None \<Rightarrow> None
      | Some (Inl e) \<Rightarrow> Some (Inl e)
      | Some (Inr st') \<Rightarrow> serve_bytes L st' bs)"

fun taken :: "bytes \<Rightarrow> (nat \<times> pipe_read) list \<Rightarrow> bytes \<times> bytes" where
  "taken p [] = ([], p)"
| "taken p ((now, r) # script) =
     (case (if p = [] then (case r of Got bs \<Rightarrow> bs | _ \<Rightarrow> []) else p) of
        [] \<Rightarrow> taken [] script
      | b # rest \<Rightarrow> apfst (Cons b) (taken rest script))"

text \<open>A script without end of file or read errors.\<close>

definition connected :: "(nat \<times> pipe_read) list \<Rightarrow> bool" where
  "connected script \<longleftrightarrow> list_all (\<lambda>(now, r). r \<noteq> Got [] \<and> r \<noteq> PipeFailed) script"

subsection \<open>The dispatcher\<close>

lemma answer_decoder:
  "answer_set_state L (s\<lparr>sv_decoder := d\<rparr>) req m = apsnd (\<lambda>s'. s'\<lparr>sv_decoder := d\<rparr>) (answer_set_state L s req m)"
  "answer_upload L (s\<lparr>sv_decoder := d\<rparr>) m = map_option (apsnd (\<lambda>s'. s'\<lparr>sv_decoder := d\<rparr>)) (answer_upload L s m)"
  by (simp_all add: answer_set_state_def answer_upload_def split: option.splits prod.splits sum.splits
      upload_outcome.splits)

lemma dispatch_payload_decoder:
  "dispatch_payload L (s\<lparr>sv_decoder := d\<rparr>) req =
    map_option (apsnd (\<lambda>s'. s'\<lparr>sv_decoder := d\<rparr>)) (dispatch_payload L s req)"
  unfolding dispatch_payload_def Let_def if_distrib [of "map_option (apsnd (\<lambda>s'. s'\<lparr>sv_decoder := d\<rparr>))"]
  by (intro if_cong refl; simp add: answer_decoder)

lemma dispatch_decoder:
  "dispatch L (s\<lparr>sv_decoder := d\<rparr>) req =
    map_option (apsnd (\<lambda>s'. s'\<lparr>sv_decoder := d\<rparr>)) (dispatch L s req)"
  by (auto simp: dispatch_def dispatch_payload_decoder split: option.splits)

text \<open>What an answer leaves alone: the log output, the advertised contract, the reassembler, and
  the silence unless an upload was cut off.\<close>

definition same_link :: "server \<Rightarrow> server \<Rightarrow> bool" where
  "same_link s s' \<longleftrightarrow> sv_chatter s' = sv_chatter s \<and> sv_contract s' = sv_contract s \<and>
     sv_decoder s' = sv_decoder s \<and> dev_fault (sv_dev s') = dev_fault (sv_dev s)"

lemma same_link_update [simp]: "dev_fault d = dev_fault (sv_dev s) \<Longrightarrow> same_link s (s\<lparr>sv_dev := d\<rparr>)"
  "dev_fault d = dev_fault (sv_dev s) \<Longrightarrow> same_link s (s\<lparr>sv_dev := d, sv_silent := b\<rparr>)"
  "same_link s s"
  by (simp_all add: same_link_def)

lemma answer_set_state_link: "answer_set_state L s req m = (out, s') \<Longrightarrow> same_link s s'"
  using set_state_frame(2) [of "sv_dev s"]
  by (auto simp: answer_set_state_def dest!: arg_cong [where f = "\<lambda>p. dev_fault (snd p)"]
      split: prod.splits sum.splits)

lemma answer_upload_link: "answer_upload L s m = Some (out, s') \<Longrightarrow> same_link s s'"
  by (auto simp: answer_upload_def dest!: upload_chunk_frame
      split: option.split_asm prod.split_asm upload_outcome.split_asm)

lemma dispatch_payload_link:
  "dispatch_payload L s req = Some (out, s') \<Longrightarrow> same_link s s'"
  by (auto simp: dispatch_payload_def Let_def erase_def dest: answer_set_state_link answer_upload_link
      split: if_splits)

lemma dispatch_link: "dispatch L s req = Some (out, s') \<Longrightarrow> same_link s s'"
  by (auto simp: dispatch_def dest: dispatch_payload_link split: option.splits)

subsection \<open>The loop\<close>

lemma serve_bytes_plain:
  "10 \<notin> set l \<Longrightarrow> serve_bytes L st (l @ bs) = serve_bytes L (st\<lparr>se_line := se_line st @ l\<rparr>) bs"
  by (induction l arbitrary: st) (simp_all add: serve_byte_def)

lemma serve_bytes_line:
  assumes "10 \<notin> set l"
  shows "serve_bytes L st (l @ 10 # bs) =
    (case serve_line L (se_server st) (se_line st @ l) of
       None \<Rightarrow> None
     | Some (Inl e, s) \<Rightarrow> Some (Inl e)
     | Some (Inr wire, s) \<Rightarrow>
         serve_bytes L (st\<lparr>se_line := [], se_server := s, se_out := se_out st @ wire\<rparr>) bs)"
  using assms by (simp add: serve_bytes_plain serve_byte_def split: option.splits sum.splits prod.splits)

text \<open>The lines of one packet: nothing happens until the last, which hands its body on.\<close>

lemma serve_packet:
  "push_lines (lib_crc L) (lib_unb64 L) (sv_decoder (se_server st)) ls =
      (replicate k (Inr None) @ [Inr (Some body)], d') \<Longrightarrow>
    \<forall>l \<in> set ls. 10 \<notin> set l \<Longrightarrow> se_line st = [] \<Longrightarrow>
    serve_body L ((se_server st)\<lparr>sv_decoder := d'\<rparr>) body = Some (Inr wire, s') \<Longrightarrow>
    serve_bytes L st (concat (map (\<lambda>l. l @ [10]) ls)) =
      Some (Inr (st\<lparr>se_server := s', se_out := se_out st @ wire\<rparr>))"
proof (induction ls arbitrary: st k)
  case (Cons l ls)
  obtain r d rs where push: "push_line (lib_crc L) (lib_unb64 L) (sv_decoder (se_server st)) l = (r, d)"
    and rest: "push_lines (lib_crc L) (lib_unb64 L) d ls = (rs, d')"
    and rs: "r # rs = replicate k (Inr None) @ [Inr (Some body)]"
    using Cons.prems(1) by (auto split: prod.splits)
  show ?case
  proof (cases k)
    case 0
    with rs have "r = Inr (Some body)" and "rs = []" by simp_all
    with rest have "ls = []" by (cases ls) (auto split: prod.splits)
    with rest have "d = d'" by simp
    with \<open>ls = []\<close> \<open>r = _\<close> push Cons.prems show ?thesis
      using serve_bytes_line [of l L st "[]"] by (simp add: serve_line_def)
  next
    case (Suc k')
    with rs have r: "r = Inr None" and rs': "rs = replicate k' (Inr None) @ [Inr (Some body)]" by simp_all
    let ?st = "st\<lparr>se_server := (se_server st)\<lparr>sv_decoder := d\<rparr>\<rparr>"
    have "serve_line L (se_server st) l = Some (Inr [], (se_server st)\<lparr>sv_decoder := d\<rparr>)"
      using push r by (simp add: serve_line_def)
    moreover have "st\<lparr>se_line := []\<rparr> = st" using Cons.prems(3) by (cases st) simp
    ultimately have "serve_bytes L st (concat (map (\<lambda>l. l @ [10]) (l # ls))) =
        serve_bytes L ?st (concat (map (\<lambda>l. l @ [10]) ls))"
      using Cons.prems(2,3) serve_bytes_line [of l L st "concat (map (\<lambda>l. l @ [10]) ls)"]
      by (cases st) simp
    then show ?thesis
      using Cons.IH [of ?st k'] rest rs' Cons.prems by simp
  qed
qed simp

text \<open>The loop without application output processes exactly the bytes it takes, in order, however
  they are cut into reads.\<close>

lemma speak_quiet: "sv_chatter s = None \<Longrightarrow> speak now s = ([], s)"
  by (simp add: speak_def)

lemma serve_body_chatter:
  "serve_body L s body = Some (r, s') \<Longrightarrow> sv_chatter s' = sv_chatter s"
  by (auto simp: serve_body_def same_link_def dest: dispatch_link split: sum.splits if_splits option.splits)

lemma serve_byte_frame:
  assumes "serve_byte L st b = Some (Inr st')"
  shows "sv_chatter (se_server st') = sv_chatter (se_server st) \<and> se_pending st' = se_pending st"
  using assms
  by (auto simp: serve_byte_def serve_line_def dest: serve_body_chatter
      split: if_splits option.splits sum.splits prod.splits)

lemma serve_byte_pending:
  "serve_byte L (st\<lparr>se_pending := p\<rparr>) b =
    map_option (map_sum id (\<lambda>st. st\<lparr>se_pending := p\<rparr>)) (serve_byte L st b)"
  by (auto simp: serve_byte_def split: option.splits sum.splits prod.splits)

lemma serve_bytes_pending:
  "serve_bytes L (st\<lparr>se_pending := p\<rparr>) bs =
    map_option (map_sum id (\<lambda>st. st\<lparr>se_pending := p\<rparr>)) (serve_bytes L st bs)"
  by (induction bs arbitrary: st)
    (auto simp: serve_byte_pending split: option.splits sum.splits)

lemma serve_runs:
  "connected script \<Longrightarrow> sv_chatter (se_server st) = None \<Longrightarrow>
    taken (se_pending st) script = (bs, left) \<Longrightarrow> serve_bytes L st bs = Some (Inr st') \<Longrightarrow>
    serve L st script = Some (Inr (st'\<lparr>se_pending := left\<rparr>))"
proof (induction script arbitrary: st bs st')
  case Nil
  then show ?case by (cases st) auto
next
  case (Cons e script)
  obtain now r where e [simp]: "e = (now, r)" by fastforce
  have conn: "connected script" and r: "r \<noteq> Got []" "r \<noteq> PipeFailed"
    using Cons.prems(1) by (auto simp: connected_def)
  have same: "st\<lparr>se_server := se_server st, se_out := se_out st @ []\<rparr> = st" by (cases st) simp
  have pop: "(case serve_byte L (st\<lparr>se_pending := rest\<rparr>) b of
      None \<Rightarrow> None | Some (Inl e) \<Rightarrow> Some (Inl e) | Some (Inr st1) \<Rightarrow> serve L st1 script) =
        Some (Inr (st'\<lparr>se_pending := left\<rparr>))"
    if cut: "bs = b # bs'" and tk: "taken rest script = (bs', left)" for b rest bs'
  proof -
    obtain st1 where st1: "serve_byte L st b = Some (Inr st1)" "serve_bytes L st1 bs' = Some (Inr st')"
      using Cons.prems(4) cut by (auto split: option.splits sum.splits)
    have "serve_bytes L (st1\<lparr>se_pending := rest\<rparr>) bs' = Some (Inr (st'\<lparr>se_pending := rest\<rparr>))"
      using st1(2) by (simp add: serve_bytes_pending)
    moreover have "serve_byte L (st\<lparr>se_pending := rest\<rparr>) b = Some (Inr (st1\<lparr>se_pending := rest\<rparr>))"
      using st1(1) by (simp add: serve_byte_pending)
    ultimately show ?thesis
      using Cons.IH [of "st1\<lparr>se_pending := rest\<rparr>" bs' "st'\<lparr>se_pending := rest\<rparr>"] conn tk serve_byte_frame [OF st1(1)]
        Cons.prems(2) by simp
  qed
  show ?case
  proof (cases "se_pending st")
    case (Cons b rest)
    with Cons.prems(3) obtain bs' where "bs = b # bs'" "taken rest script = (bs', left)"
      by (auto simp: apfst_def map_prod_def split: prod.splits)
    with pop Cons same Cons.prems(2) show ?thesis by (simp add: speak_quiet)
  next
    case Nil
    show ?thesis
    proof (cases r)
      case (Got buf)
      with r obtain b rest where buf: "buf = b # rest" by (cases buf) auto
      with Cons.prems(3) Nil Got obtain bs' where "bs = b # bs'" "taken rest script = (bs', left)"
        by (auto simp: apfst_def map_prod_def split: prod.splits)
      with pop Nil Got buf same Cons.prems(2) show ?thesis by (simp add: speak_quiet)
    qed (use Cons.IH [of st bs st'] Cons.prems conn Nil r same in \<open>simp_all add: speak_quiet\<close>)
  qed
qed

text \<open>The bytes the server writes for an answer.\<close>

definition answer_wire :: "libs \<Rightarrow> frame option \<Rightarrow> bytes" where
  "answer_wire L out =
     (case out of None \<Rightarrow> []
      | Some resp \<Rightarrow> (case encode (lib_crc L) (lib_b64 L) resp MAX_LINE of Inl _ \<Rightarrow> [] | Inr w \<Rightarrow> w))"

text \<open>A request as the wire carries it: op and version within their bits, and a payload that fits.\<close>

definition sendable :: "frame \<Rightarrow> bool" where
  "sendable f \<longleftrightarrow> fr_op f AND 7 = fr_op f \<and> fr_version f AND 3 = fr_version f \<and>
     length (fr_payload f) < 65526"

lemma request_bytes:
  assumes "base64_engine (lib_b64 L) (lib_unb64 L)" and "sendable req"
    and "encode (lib_crc L) (lib_b64 L) req m = Inr wire"
    and "se_line st = []" and "\<not> sv_silent (se_server st)"
    and "\<not> withheld (dev_fault (sv_dev (se_server st))) req"
    and "dispatch L (se_server st) req = Some (out, s')"
  shows "\<exists>d'. serve_bytes L st wire =
    Some (Inr (st\<lparr>se_server := s'\<lparr>sv_decoder := d'\<rparr>, se_out := se_out st @ answer_wire L out\<rparr>))"
proof -
  have len: "length (fr_payload req) < 65526" using assms(2) by (simp add: sendable_def)
  then have parse: "frame_parse (header_bytes req @ fr_payload req) = Inr req"
    using assms(2) by (simp add: frame_parse_header sendable_def)
  obtain k d' where push: "push_lines (lib_crc L) (lib_unb64 L) (sv_decoder (se_server st))
      (fst (split_lines wire)) = (replicate k (Inr None) @ [Inr (Some (header_bytes req @ fr_payload req))], d')"
    using base64_engine.encode_pushed [OF assms(1,3) len] by blast
  obtain ls where ls: "split_lines wire = (ls, [])" and wire: "wire = concat (map (\<lambda>l. l @ [10]) ls)"
      and nl: "\<forall>l \<in> set ls. 10 \<notin> set l"
    using base64_engine.encode_stream [OF assms(1,3)] by blast
  obtain w where w: "case out of None \<Rightarrow> answer_wire L out = [] \<and> w = (Inr [] :: codec_error + bytes)
      | Some resp \<Rightarrow> encode (lib_crc L) (lib_b64 L) resp MAX_LINE = w \<and> w = Inr (answer_wire L out)"
    by (cases out) (auto simp: answer_wire_def encode_def MAX_LINE_def Let_def)
  have "serve_body L ((se_server st)\<lparr>sv_decoder := d'\<rparr>) (header_bytes req @ fr_payload req) = Some (w, s'\<lparr>sv_decoder := d'\<rparr>)"
    using parse assms(5-7) w by (auto simp: serve_body_def dispatch_decoder split: option.splits)
  moreover have "w = Inr (answer_wire L out)" using w by (auto split: option.splits)
  ultimately show ?thesis
    using serve_packet [of L st ls k "header_bytes req @ fr_payload req" d'] push ls nl wire assms(4) by auto
qed

lemma serve_request:
  assumes "base64_engine (lib_b64 L) (lib_unb64 L)" and "sendable req"
    and "encode (lib_crc L) (lib_b64 L) req m = Inr wire"
    and "connected script" and "taken (se_pending st) script = (wire, left)"
    and "se_line st = []" and "\<not> sv_silent (se_server st)" and "sv_chatter (se_server st) = None"
    and "\<not> withheld (dev_fault (sv_dev (se_server st))) req"
    and "dispatch L (se_server st) req = Some (out, s')"
  shows "\<exists>d'. serve L st script = Some (Inr (st\<lparr>se_server := s'\<lparr>sv_decoder := d'\<rparr>,
      se_out := se_out st @ answer_wire L out, se_pending := left\<rparr>))"
  using request_bytes [OF assms(1-3,6,7,9,10)] serve_runs [OF assms(4,8,5)] by fastforce

text \<open>Silence.\<close>

lemma serve_line_silent:
  "sv_silent s \<Longrightarrow> \<exists>d. serve_line L s line = Some (Inr [], s\<lparr>sv_decoder := d\<rparr>)"
  by (auto simp: serve_line_def serve_body_def split: prod.splits sum.splits option.splits)

definition hushed :: "serving \<Rightarrow> serving \<Rightarrow> bool" where
  "hushed st st' \<longleftrightarrow> se_out st' = se_out st \<and> sv_dev (se_server st') = sv_dev (se_server st) \<and>
     sv_silent (se_server st') \<and> sv_chatter (se_server st') = None"

lemma serve_byte_silent:
  assumes "sv_silent (se_server st)" and "sv_chatter (se_server st) = None"
  shows "\<exists>st'. serve_byte L st b = Some (Inr st') \<and> hushed st st'"
  using assms serve_line_silent [OF assms(1), of L "se_line st"]
  by (auto simp: serve_byte_def hushed_def)

lemma serve_silent:
  "sv_silent (se_server st) \<Longrightarrow> sv_chatter (se_server st) = None \<Longrightarrow>
    \<exists>st'. serve L st script = Some (Inr st') \<and> hushed st st'"
proof (induction script arbitrary: st)
  case Nil
  then show ?case by (simp add: hushed_def)
next
  case (Cons e script)
  obtain now r where e [simp]: "e = (now, r)" by fastforce
  have same: "st\<lparr>se_server := se_server st, se_out := se_out st @ []\<rparr> = st" by (cases st) simp
  have rest: "\<exists>st'. serve L st1 script = Some (Inr st') \<and> hushed st st'" if "hushed st st1" for st1
    using Cons.IH [of st1] that by (auto simp: hushed_def)
  have pop: "\<exists>st'. (case serve_byte L (st\<lparr>se_pending := p\<rparr>) b of
      None \<Rightarrow> None | Some (Inl e) \<Rightarrow> Some (Inl e) | Some (Inr st1) \<Rightarrow> serve L st1 script) =
        Some (Inr st') \<and> hushed st st'" for p b
    using serve_byte_silent [of "st\<lparr>se_pending := p\<rparr>" L b] Cons.prems rest by (fastforce simp: hushed_def)
  have "hushed st (host_gone st)" "hushed st st"
    using Cons.prems by (simp_all add: hushed_def host_gone_def)
  note turns = rest [OF this(1)] rest [OF this(2)]
  show ?case
    using Cons.prems(2) same turns pop
    by (cases "se_pending st"; cases r) (auto simp: speak_quiet split: list.splits)
qed

subsection \<open>Properties\<close>

text \<open>C35: a request is answered once, whatever the pipe does to it.  The wire bytes of a request may
  arrive in any cut, one turn of the loop per byte, with read timeouts and interrupts in between:
  a board that is not silenced then has processed exactly this command, has written exactly the
  encoded answer (nothing for an upload it goes silent on), and is ready for the next one.\<close>
theorem serve_answers:
  assumes "base64_engine (lib_b64 L) (lib_unb64 L)" and "sendable req"
    and "encode (lib_crc L) (lib_b64 L) req m = Inr wire"
    and "connected script" and "taken (se_pending st) script = (wire, [])"
    and "se_line st = []" and "\<not> sv_silent (se_server st)" and "sv_chatter (se_server st) = None"
    and "\<not> withheld (dev_fault (sv_dev (se_server st))) req"
    and "dispatch L (se_server st) req = Some (out, s')"
  shows "\<exists>st'. serve L st script = Some (Inr st') \<and> se_out st' = se_out st @ answer_wire L out \<and>
    sv_dev (se_server st') = sv_dev s' \<and> sv_silent (se_server st') = sv_silent s' \<and>
    se_line st' = [] \<and> se_pending st' = []"
  using serve_request [OF assms] assms(6) by fastforce

text \<open>A host that went away in the middle of a request does not cost the next host its answer.
  Whatever was half received before, once the read reports end of file (or any error) the next
  complete request is answered as on a fresh link.\<close>
theorem reconnect_answers:
  assumes "base64_engine (lib_b64 L) (lib_unb64 L)" and "sendable req"
    and "encode (lib_crc L) (lib_b64 L) req m = Inr wire"
    and "connected script" and "taken [] script = (wire, [])" and "gone = Got [] \<or> gone = PipeFailed"
    and "se_pending st = []" and "\<not> sv_silent (se_server st)" and "sv_chatter (se_server st) = None"
    and "\<not> withheld (dev_fault (sv_dev (se_server st))) req"
    and "dispatch L (se_server st) req = Some (out, s')"
  shows "\<exists>st'. serve L st ((now, gone) # script) = Some (Inr st') \<and>
    se_out st' = se_out st @ answer_wire L out \<and> sv_dev (se_server st') = sv_dev s'"
proof -
  have same: "st\<lparr>se_server := se_server st, se_out := se_out st @ []\<rparr> = st" by (cases st) simp
  have eof: "serve L st ((now, gone) # script) = serve L (host_gone st) script"
    using assms(6,7,9) same by (auto simp: speak_quiet)
  have "dispatch L (se_server (host_gone st)) req = Some (out, s'\<lparr>sv_decoder := decoder_new\<rparr>)"
    using assms(11) by (simp add: host_gone_def dispatch_decoder)
  moreover have "se_pending (host_gone st) = []" "se_line (host_gone st) = []"
    "se_out (host_gone st) = se_out st" "sv_dev (se_server (host_gone st)) = sv_dev (se_server st)"
    "sv_silent (se_server (host_gone st)) = sv_silent (se_server st)"
    "sv_chatter (se_server (host_gone st)) = sv_chatter (se_server st)"
    using assms(7) by (simp_all add: host_gone_def)
  ultimately show ?thesis
    unfolding eof using serve_request [OF assms(1-4), of "host_gone st"] assms(5,8-10) by fastforce
qed

text \<open>A yanked cable stays yanked.  Once an upload made the server go silent, no sequence of reads,
  complete requests, reconnects or errors makes it write another byte or change the board, and the
  loop itself never stops.\<close>
theorem silence_is_final:
  assumes "sv_silent (se_server st)" and "sv_chatter (se_server st) = None"
  shows "\<exists>st'. serve L st script = Some (Inr st') \<and> se_out st' = se_out st \<and>
    sv_dev (se_server st') = sv_dev (se_server st) \<and> sv_silent (se_server st')"
  using serve_silent [OF assms, of L script] by (auto simp: hushed_def)

text \<open>An answer can be matched to its request.  Whatever the command, an answer carries the
  request's group, sequence number, command and protocol version, its op is the response to the
  request's op, and it always fits the encoder: a reply is never lost to an encoding error.\<close>
theorem answer_matches_request:
  assumes "dispatch L s req = Some (Some resp, s')"
  shows "fr_group resp = fr_group req \<and> fr_seq resp = fr_seq req \<and> fr_cmd resp = fr_cmd req \<and>
    fr_version resp = fr_version req \<and> fr_flags resp = 0 \<and>
    (fr_op req = OP_READ \<longrightarrow> fr_op resp = OP_READ_RSP) \<and>
    (fr_op req = OP_WRITE \<longrightarrow> fr_op resp = OP_WRITE_RSP) \<and>
    encode crc b64 resp MAX_LINE = Inr (emit_lines True (chunks 124 (b64
      (to_be16 (of_nat (10 + length (fr_payload resp))) @ header_bytes resp @ fr_payload resp @
        to_be16 (crc (header_bytes resp @ fr_payload resp))))))"
  using assms
  by (auto simp: dispatch_def response_op_def encode_def MAX_LINE_def OP_READ_def OP_WRITE_def Let_def
      split: option.splits)

text \<open>Only four commands touch the board.  If answering a request changed the emulated device, the
  request was a reset, a write to the image state, an upload chunk or an erase; echo, parameters,
  describe, the image list and every unknown command leave the whole server as it was.\<close>
theorem only_commands_change_board:
  assumes "dispatch L s req = Some (out, s')" and "s' \<noteq> s"
  shows "(fr_group req = GROUP_OS \<and> fr_cmd req = OS_RESET) \<or>
    (fr_group req = GROUP_IMG \<and> fr_cmd req = IMG_STATE \<and> fr_op req \<noteq> OP_READ) \<or>
    (fr_group req = GROUP_IMG \<and> (fr_cmd req = IMG_UPLOAD \<or> fr_cmd req = IMG_ERASE))"
proof (rule ccontr)
  assume other: "\<not> ?thesis"
  obtain p where p: "dispatch_payload L s req = Some (p, s')"
    using assms(1) by (auto simp: dispatch_def split: option.splits)
  show False
    using p assms(2) other unfolding dispatch_payload_def Let_def
    by (auto split: if_splits)
qed

subsection \<open>A concrete exchange\<close>

text \<open>Library functions good enough for one echo: CBOR of \<open>{"d": "hb"}\<close> and \<open>{"r": "hb"}\<close>.\<close>

definition echo_libs :: libs where
  "echo_libs = \<lparr>lib_cfg = cfg64 False, lib_sha = id, lib_crc = crc16_xmodem, lib_b64 = rfc4648_encode,
     lib_unb64 = rfc4648_decode,
     lib_cenc = (\<lambda>v. if v = Map [(Text ''r'', Text ''hb'')] then [161, 97, 114, 98, 104, 98] else [160]),
     lib_cdec = (\<lambda>bs. if bs = fr_payload echo_request then Some (Map [(Text ''d'', Text ''hb'')]) else None)\<rparr>"

definition mock_serving :: "bytes \<Rightarrow> bool \<Rightarrow> serving" where
  "mock_serving line silent =
     \<lparr>se_server = \<lparr>sv_dev = staged_board, sv_decoder = decoder_new, sv_silent = silent,
        sv_contract = ''2.0.0'', sv_chatter = None, sv_next_chatter = 0, sv_chatter_seq = 0\<rparr>,
      se_line = line, se_pending = [], se_out = []\<rparr>"

definition echo_response :: frame where
  "echo_response = \<lparr>fr_op = 3, fr_version = 1, fr_flags = 0, fr_group = 0, fr_seq = 66, fr_cmd = 0,
     fr_payload = [161, 97, 114, 98, 104, 98]\<rparr>"

lemma echo_engine: "base64_engine (lib_b64 echo_libs) (lib_unb64 echo_libs)"
  by (simp add: echo_libs_def rfc4648.base64_engine_axioms)

lemma echo_sendable: "sendable echo_request"
  by (simp add: sendable_def echo_request_def)

lemma echo_dispatch:
  "dispatch echo_libs (se_server (mock_serving line silent)) echo_request =
    Some (Some echo_response, se_server (mock_serving line silent))"
  by (simp add: dispatch_def dispatch_payload_def smp_ids echo_libs_def decode_map_def
      get_str_def lookup_def cbor_map_def echo_response_def response_op_def OP_WRITE_def OP_WRITE_RSP_def
      echo_request_def)

definition echo_wire :: bytes where
  "echo_wire = [6, 9, 65, 66, 65, 75, 65, 65, 65, 71, 65, 65, 66, 67, 65, 75, 70, 104, 90, 71, 74, 111, 89,
      105, 112, 104, 10]"

lemma echo_encode: "encode (lib_crc echo_libs) (lib_b64 echo_libs) echo_request 127 = Inr echo_wire"
  unfolding echo_wire_def echo_request_wire [symmetric] by (simp add: echo_libs_def)

text \<open>The wire bytes in two reads, a timeout between them and enough turns to pop them all.\<close>

definition echo_script :: "(nat \<times> pipe_read) list" where
  "echo_script = (0, Got (take 3 echo_wire)) # replicate 2 (0, PipeTimedOut) @
     (0, PipeTimedOut) # (0, Got (drop 3 echo_wire)) # replicate 23 (0, PipeTimedOut)"

lemma echo_script: "connected echo_script" "taken [] echo_script = (echo_wire, [])"
  by (simp_all add: echo_script_def connected_def echo_wire_def eval_nat_numeral)

theorem serve_answers_witness:
  "\<exists>st'. serve echo_libs (mock_serving [] False) echo_script = Some (Inr st') \<and>
    se_out st' = answer_wire echo_libs (Some echo_response)"
  using serve_answers [OF echo_engine echo_sendable echo_encode echo_script(1) _ _ _ _ _ echo_dispatch,
      of "[]" False] echo_script(2)
  by (auto simp: mock_serving_def withheld_def staged_board_def)

theorem reconnect_answers_witness:
  "\<exists>st'. serve echo_libs (mock_serving [6, 9, 65, 66] False) ((0, Got []) # echo_script) = Some (Inr st') \<and>
    se_out st' = answer_wire echo_libs (Some echo_response)"
  using reconnect_answers [OF echo_engine echo_sendable echo_encode echo_script _ _ _ _ _ echo_dispatch,
      of "Got []" "[6, 9, 65, 66]" False 0]
  by (auto simp: mock_serving_def withheld_def staged_board_def)

theorem silence_is_final_witness:
  "\<exists>st'. serve echo_libs (mock_serving [] True) echo_script = Some (Inr st') \<and> se_out st' = []"
  using silence_is_final [of "mock_serving [] True" echo_libs echo_script]
  by (auto simp: mock_serving_def)

theorem answer_matches_request_witness:
  "fr_seq echo_response = fr_seq echo_request \<and> fr_op echo_response = OP_WRITE_RSP"
  using answer_matches_request [of echo_libs "se_server (mock_serving [] False)" echo_request echo_response, OF echo_dispatch]
  by (simp add: echo_request_def OP_WRITE_def)

text \<open>An erase request.\<close>

theorem only_commands_change_board_witness:
  "\<exists>out s'. dispatch echo_libs (se_server (mock_serving [] False))
      (echo_request\<lparr>fr_group := GROUP_IMG, fr_cmd := IMG_ERASE\<rparr>) = Some (out, s') \<and>
    s' \<noteq> se_server (mock_serving [] False) \<and> GROUP_IMG \<noteq> GROUP_OS"
proof -
  let ?s = "se_server (mock_serving [] False)"
  let ?req = "echo_request\<lparr>fr_group := GROUP_IMG, fr_cmd := IMG_ERASE\<rparr>"
  obtain out where d: "dispatch echo_libs ?s ?req = Some (out, ?s\<lparr>sv_dev := erase (sv_dev ?s)\<rparr>)"
    by (simp add: dispatch_def dispatch_payload_def smp_ids)
  have "?s\<lparr>sv_dev := erase (sv_dev ?s)\<rparr> \<noteq> ?s"
    by (simp add: mock_serving_def erase_def staged_board_def)
  with only_commands_change_board [OF d] d show ?thesis by (auto simp: smp_ids)
qed

end
