(* ===== verification/Rust_Strings.thy ===== *)
theory Rust_Strings
  imports Rust_Prelude
begin

text \<open>
  The string functions of Rust's standard library that the sources call: splitting, prefixes,
  trimming, number parsing and paths.  A string is the list of its UTF-8 bytes.
\<close>

subsection \<open>Splitting\<close>

text \<open>\<open>str::split_once\<close> and \<open>str::split\<close> with an ASCII separator.\<close>

fun split_once :: "char \<Rightarrow> string \<Rightarrow> (string \<times> string) option" where
  "split_once c [] = None"
| "split_once c (x # xs) =
     (if x = c then Some ([], xs) else map_option (apfst (Cons x)) (split_once c xs))"

fun split_on :: "char \<Rightarrow> string \<Rightarrow> string list" where
  "split_on c [] = [[]]"
| "split_on c (x # xs) =
     (if x = c then [] # split_on c xs
      else case split_on c xs of [] \<Rightarrow> [[x]] | p # ps \<Rightarrow> (x # p) # ps)"

lemma split_once_Some [str_simps]:
  "split_once c s = Some (a, b) \<longleftrightarrow> s = a @ c # b \<and> c \<notin> set a"
proof (induction s arbitrary: a)
  case (Cons x xs)
  show ?case
  proof (cases "x = c")
    case True
    then show ?thesis by (cases a) auto
  next
    case False
    then show ?thesis using Cons.IH by (cases a) (auto simp: apfst_def map_prod_def split: prod.splits)
  qed
qed simp

lemma split_once_None [str_simps]: "split_once c s = None \<longleftrightarrow> c \<notin> set s"
  by (induction s) auto

lemma split_once_append [simp]: "c \<notin> set a \<Longrightarrow> split_once c (a @ c # b) = Some (a, b)"
  by (simp add: split_once_Some)

lemma split_on_not_Nil [simp]: "split_on c s \<noteq> []"
  by (induction s) (auto split: list.splits)

lemma split_on_no_sep: "c \<notin> set s \<Longrightarrow> split_on c s = [s]"
  by (induction s) auto

lemma split_on_append: "c \<notin> set a \<Longrightarrow> split_on c (a @ c # b) = a # split_on c b"
  by (induction a) auto

lemma split_on_parts: "p \<in> set (split_on c s) \<Longrightarrow> c \<notin> set p \<and> set p \<subseteq> set s"
proof (induction s arbitrary: p)
  case (Cons x xs)
  then show ?case by (fastforce split: if_splits list.splits)
qed simp

lemma set_split_on: "set s \<subseteq> insert c (\<Union> (set ` set (split_on c s)))"
proof (induction s)
  case (Cons x xs)
  then show ?case by (cases "split_on c xs") auto
qed simp

text \<open>\<open>[_].join(sep)\<close>.\<close>

fun join_with :: "string \<Rightarrow> string list \<Rightarrow> string" where
  "join_with sep [] = []"
| "join_with sep [x] = x"
| "join_with sep (x # y # ys) = x @ sep @ join_with sep (y # ys)"

text \<open>\<open>str::strip_prefix\<close>, \<open>str::starts_with\<close>, \<open>str::ends_with\<close>.\<close>

fun strip_prefix :: "string \<Rightarrow> string \<Rightarrow> string option" where
  "strip_prefix [] s = Some s"
| "strip_prefix (p # ps) [] = None"
| "strip_prefix (p # ps) (x # xs) = (if p = x then strip_prefix ps xs else None)"

lemma strip_prefix_Some [str_simps]: "strip_prefix p s = Some r \<longleftrightarrow> s = p @ r"
  by (induction p s rule: strip_prefix.induct) auto

lemma strip_prefix_append [simp]: "strip_prefix p (p @ s) = Some s"
  by (induction p) auto

definition starts_with :: "string \<Rightarrow> string \<Rightarrow> bool" where
  "starts_with s p \<longleftrightarrow> prefix p s"

definition ends_with :: "string \<Rightarrow> string \<Rightarrow> bool" where
  "ends_with s p \<longleftrightarrow> suffix p s"

text \<open>\<open>str::trim\<close>: the characters with Unicode's \<open>White_Space\<close> property, as UTF-8 sequences.\<close>

definition white_space :: "string list" where
  "white_space =
     [[CHR 0x09], [CHR 0x0A], [CHR 0x0B], [CHR 0x0C], [CHR 0x0D], [CHR 0x20],
      [CHR 0xC2, CHR 0x85], [CHR 0xC2, CHR 0xA0], [CHR 0xE1, CHR 0x9A, CHR 0x80],
      [CHR 0xE2, CHR 0x80, CHR 0x80], [CHR 0xE2, CHR 0x80, CHR 0x81], [CHR 0xE2, CHR 0x80, CHR 0x82],
      [CHR 0xE2, CHR 0x80, CHR 0x83], [CHR 0xE2, CHR 0x80, CHR 0x84], [CHR 0xE2, CHR 0x80, CHR 0x85],
      [CHR 0xE2, CHR 0x80, CHR 0x86], [CHR 0xE2, CHR 0x80, CHR 0x87], [CHR 0xE2, CHR 0x80, CHR 0x88],
      [CHR 0xE2, CHR 0x80, CHR 0x89], [CHR 0xE2, CHR 0x80, CHR 0x8A], [CHR 0xE2, CHR 0x80, CHR 0xA8],
      [CHR 0xE2, CHR 0x80, CHR 0xA9], [CHR 0xE2, CHR 0x80, CHR 0xAF], [CHR 0xE2, CHR 0x81, CHR 0x9F],
      [CHR 0xE3, CHR 0x80, CHR 0x80]]"

function strip_leading :: "string list \<Rightarrow> string \<Rightarrow> string" where
  "strip_leading ws s =
     (case find (\<lambda>w. w \<noteq> [] \<and> prefix w s) ws of
        None \<Rightarrow> s
      | Some w \<Rightarrow> strip_leading ws (drop (length w) s))"
  by pat_completeness auto
termination
proof (relation "measure (\<lambda>(ws, s). length s)")
  fix ws s w
  assume "find (\<lambda>w. w \<noteq> [] \<and> prefix w s) ws = Some w"
  then have "w \<noteq> []" "prefix w s" by (auto simp: find_Some_iff)
  then show "((ws, drop (length w) s), (ws, s)) \<in> measure (\<lambda>(ws, s). length s)"
    by (auto simp: prefix_def)
qed simp

declare strip_leading.simps [simp del]

definition trim :: "string \<Rightarrow> string" where
  "trim s = rev (strip_leading (map rev white_space) (rev (strip_leading white_space s)))"

text \<open>A byte that begins or ends no white space: trimming stops there.\<close>

definition solid :: "char \<Rightarrow> bool" where
  "solid c \<longleftrightarrow> (\<forall>w \<in> set white_space. w \<noteq> [] \<longrightarrow> hd w \<noteq> c \<and> last w \<noteq> c)"

lemma strip_leading_stop:
  "\<forall>w \<in> set ws. w \<noteq> [] \<longrightarrow> hd w \<noteq> c \<Longrightarrow> strip_leading ws (c # s) = c # s"
proof -
  assume "\<forall>w \<in> set ws. w \<noteq> [] \<longrightarrow> hd w \<noteq> c"
  then have "find (\<lambda>w. w \<noteq> [] \<and> prefix w (c # s)) ws = None"
    by (auto simp: find_None_iff prefix_Cons)
  then show ?thesis by (subst strip_leading.simps) simp
qed

lemma trim_solid:
  assumes "s \<noteq> []" and "solid (hd s)" and "solid (last s)"
  shows "trim s = s"
proof -
  have "strip_leading white_space s = s"
    using assms(1,2) strip_leading_stop [of white_space "hd s" "tl s"] by (auto simp: solid_def)
  moreover have "\<forall>w \<in> set (map rev white_space). w \<noteq> [] \<longrightarrow> hd w \<noteq> last s"
    using assms(3) by (auto simp: solid_def hd_rev)
  then have "strip_leading (map rev white_space) (last s # tl (rev s)) = last s # tl (rev s)"
    by (rule strip_leading_stop)
  moreover have "last s # tl (rev s) = rev s" using assms(1) by (cases s rule: rev_cases) auto
  ultimately show ?thesis by (simp add: trim_def)
qed

subsection \<open>Numbers\<close>

text \<open>\<open>u8::is_ascii_digit\<close>, \<open>char::to_digit\<close>.\<close>

definition is_digit :: "char \<Rightarrow> bool" where
  "is_digit c \<longleftrightarrow> 48 \<le> (of_char c :: nat) \<and> (of_char c :: nat) \<le> 57"

definition digit_value :: "nat \<Rightarrow> char \<Rightarrow> nat option" where
  "digit_value r c =
     (let n = of_char c :: nat;
          v = (if 48 \<le> n \<and> n \<le> 57 then n - 48
               else if 97 \<le> n \<and> n \<le> 122 then n - 87
               else if 65 \<le> n \<and> n \<le> 90 then n - 55
               else r)
      in if v < r then Some v else None)"

fun digits_value :: "nat \<Rightarrow> nat \<Rightarrow> string \<Rightarrow> nat option" where
  "digits_value r acc [] = Some acc"
| "digits_value r acc (c # cs) =
     (case digit_value r c of None \<Rightarrow> None | Some d \<Rightarrow> digits_value r (acc * r + d) cs)"

text \<open>\<open>from_str_radix\<close> of an unsigned type with the given maximum: an optional plus sign, at least
  one digit, no overflow.  (The intermediate checks of the library overflow exactly when the value
  does.)\<close>

definition parse_unsigned :: "nat \<Rightarrow> nat \<Rightarrow> string \<Rightarrow> nat option" where
  "parse_unsigned r max_value s =
     (let digits = (case s of c # rest \<Rightarrow> if c = CHR ''+'' then rest else s | [] \<Rightarrow> [])
      in if digits = [] then None
         else case digits_value r 0 digits of
           None \<Rightarrow> None
         | Some n \<Rightarrow> if n \<le> max_value then Some n else None)"

abbreviation u32_max :: nat where "u32_max \<equiv> 4294967295"

abbreviation parse_u32 :: "string \<Rightarrow> nat option" where
  "parse_u32 \<equiv> parse_unsigned 10 u32_max"

lemma parse_unsigned_bound: "parse_unsigned r m s = Some n \<Longrightarrow> n \<le> m"
  by (auto simp: parse_unsigned_def Let_def split: option.splits if_splits list.splits)

text \<open>\<open>i32::from_str\<close>: an optional sign, at least one digit, no overflow.\<close>

definition parse_i32 :: "string \<Rightarrow> int option" where
  "parse_i32 s =
     (case s of
        [] \<Rightarrow> None
      | c # rest \<Rightarrow>
          if c = CHR ''-'' then
            (if rest = [] then None
             else case digits_value 10 0 rest of
               None \<Rightarrow> None
             | Some n \<Rightarrow> if n \<le> 2147483648 then Some (- int n) else None)
          else map_option int (parse_unsigned 10 2147483647 s))"

lemma digits_value_append:
  "digits_value r acc (xs @ ys) =
    (case digits_value r acc xs of None \<Rightarrow> None | Some n \<Rightarrow> digits_value r n ys)"
  by (induction xs arbitrary: acc) (auto split: option.splits)

lemma less_16_cases:
  "(d::nat) < 16 \<Longrightarrow> d \<in> {0, 1, 2, 3, 4, 5, 6, 7, 8, 9, 10, 11, 12, 13, 14, 15}"
  by (simp only: insert_iff empty_iff) presburger

lemma digit_value_char: "d < r \<Longrightarrow> r \<le> 16 \<Longrightarrow> digit_value r (digit_char d) = Some d"
proof -
  assume "d < r" "r \<le> 16"
  then have "d \<in> {0, 1, 2, 3, 4, 5, 6, 7, 8, 9, 10, 11, 12, 13, 14, 15}"
    by (intro less_16_cases) simp
  with \<open>d < r\<close> show ?thesis by (auto simp: digit_value_def digit_char_def Let_def)
qed

lemma digit_char_solid: "d < 16 \<Longrightarrow> digit_char d \<noteq> CHR ''+'' \<and> digit_char d \<noteq> CHR ''-'' \<and>
    digit_char d \<noteq> CHR ''/'' \<and> digit_char d \<noteq> CHR ''x'' \<and> solid (digit_char d)"
proof -
  assume "d < 16"
  then have "d \<in> {0, 1, 2, 3, 4, 5, 6, 7, 8, 9, 10, 11, 12, 13, 14, 15}" by (rule less_16_cases)
  then show ?thesis by (auto simp: digit_char_def solid_def white_space_def)
qed

lemma digits_value_radix: "2 \<le> r \<Longrightarrow> r \<le> 16 \<Longrightarrow> digits_value r 0 (radix_string r n) = Some n"
proof (induction r n rule: radix_string.induct)
  case (1 r n)
  then show ?case
    by (subst radix_string.simps) (auto simp: digits_value_append digit_value_char)
qed

lemma radix_string_digits:
  "2 \<le> r \<Longrightarrow> r \<le> 16 \<Longrightarrow> radix_string r n \<noteq> [] \<and> set (radix_string r n) \<subseteq> digit_char ` {..<16}"
proof (induction r n rule: radix_string.induct)
  case (1 r n)
  have "n mod r < 16" using 1 by (meson mod_less_divisor less_le_trans order_less_le_trans zero_less_numeral)
  with 1 show ?case by (subst (1 2) radix_string.simps) auto
qed

lemma parse_unsigned_radix:
  assumes "2 \<le> r" and "r \<le> 16" and "n \<le> m"
  shows "parse_unsigned r m (radix_string r n) = Some n"
proof -
  obtain c cs where s: "radix_string r n = c # cs" and "c \<in> digit_char ` {..<16}"
    using radix_string_digits [OF assms(1,2), of n] by (cases "radix_string r n") auto
  then have "c \<noteq> CHR ''+''" using digit_char_solid by auto
  with digits_value_radix [OF assms(1,2), of n] assms(3) s show ?thesis
    by (simp add: parse_unsigned_def)
qed

subsection \<open>Paths\<close>

text \<open>\<open>Path::join\<close>, \<open>Path::file_name\<close> and \<open>Path::parent\<close> on absolute paths.\<close>

definition path_join :: "string \<Rightarrow> string \<Rightarrow> string" where
  "path_join a b =
     (if starts_with b ''/'' then b
      else if ends_with a ''/'' \<or> a = [] then a @ b
      else a @ ''/'' @ b)"

definition path_components :: "string \<Rightarrow> string list" where
  "path_components p = filter (\<lambda>x. x \<noteq> [] \<and> x \<noteq> ''.'') (split_on (CHR ''/'') p)"

definition path_file_name :: "string \<Rightarrow> string option" where
  "path_file_name p =
     (let cs = path_components p in
      if cs = [] \<or> last cs = ''..'' then None else Some (last cs))"

definition path_parent :: "string \<Rightarrow> string option" where
  "path_parent p =
     (let cs = path_components p in
      if cs = [] then None else Some (''/'' @ join_with ''/'' (butlast cs)))"

subsection \<open>UTF-8\<close>

text \<open>\<open>OsStr::to_str\<close> succeeds on well-formed UTF-8 (RFC 3629: no overlong forms, no surrogates,
  nothing above U+10FFFF).\<close>

definition cont_byte :: "nat \<Rightarrow> bool" where
  "cont_byte b \<longleftrightarrow> 128 \<le> b \<and> b \<le> 191"

fun utf8_codes :: "nat list \<Rightarrow> bool" where
  "utf8_codes [] = True"
| "utf8_codes (a # bs) =
     (if a < 128 then utf8_codes bs
      else case bs of
        [] \<Rightarrow> False
      | b # cs \<Rightarrow>
          if 194 \<le> a \<and> a \<le> 223 then cont_byte b \<and> utf8_codes cs
          else case cs of
            [] \<Rightarrow> False
          | c # ds \<Rightarrow>
              if 224 \<le> a \<and> a \<le> 239 then
                cont_byte b \<and> cont_byte c \<and> (a = 224 \<longrightarrow> 160 \<le> b) \<and> (a = 237 \<longrightarrow> b \<le> 159) \<and> utf8_codes ds
              else case ds of
                [] \<Rightarrow> False
              | d # es \<Rightarrow>
                  240 \<le> a \<and> a \<le> 244 \<and> cont_byte b \<and> cont_byte c \<and> cont_byte d \<and>
                  (a = 240 \<longrightarrow> 144 \<le> b) \<and> (a = 244 \<longrightarrow> b \<le> 143) \<and> utf8_codes es)"

definition utf8_valid :: "string \<Rightarrow> bool" where
  "utf8_valid s \<longleftrightarrow> utf8_codes (map of_char s)"

lemma utf8_ascii: "list_all (\<lambda>c. (of_char c :: nat) < 128) s \<Longrightarrow> utf8_valid s"
  unfolding utf8_valid_def by (induction s) auto

end
