(* ===== verification/Target.thy ===== *)
theory Target
  imports Rust_Strings
begin

text \<open>
  Placement labels (\<open>crates/runtt-transport/src/lib.rs\<close>): the label of a container parsed into the
  target it names, and printed back.
\<close>

datatype usb_selector = PortPath string | SerialNumber string

datatype target =
    Usb usb_selector
  | Tty string
  | Can string string           \<comment> \<open>interface, node id as written\<close>

datatype label_error =
    NoPrefix string
  | CanWithoutNode string
  | UnknownPrefix string string

definition digits :: "string \<Rightarrow> bool" where
  "digits s \<longleftrightarrow> s \<noteq> [] \<and> list_all is_digit s"

definition is_port_path :: "string \<Rightarrow> bool" where
  "is_port_path s =
     (case split_once (CHR ''-'') s of
        None \<Rightarrow> False
      | Some (bus, ports) \<Rightarrow>
          if bus = [] \<or> \<not> list_all is_digit bus then False
          else ports \<noteq> [] \<and> list_all (\<lambda>p. p \<noteq> [] \<and> list_all is_digit p) (split_on (CHR ''.'') ports))"

definition usb_selector_parse :: "string \<Rightarrow> usb_selector" where
  "usb_selector_parse s = (if is_port_path s then PortPath s else SerialNumber s)"

fun usb_selector_display :: "usb_selector \<Rightarrow> string" where
  "usb_selector_display (PortPath s) = s"
| "usb_selector_display (SerialNumber s) = s"

definition target_parse :: "string \<Rightarrow> label_error + target" where
  "target_parse label =
     (case split_once (CHR '':'') label of
        None \<Rightarrow> Inl (NoPrefix label)
      | Some (pre, rest) \<Rightarrow>
          if pre = ''usb'' then Inr (Usb (usb_selector_parse rest))
          else if pre = ''tty'' then Inr (Tty rest)
          else if pre = ''can'' then
            (case split_once (CHR ''/'') rest of
               None \<Rightarrow> Inl (CanWithoutNode rest)
             | Some (iface, node_id) \<Rightarrow> Inr (Can iface node_id))
          else Inl (UnknownPrefix pre label))"

fun target_display :: "target \<Rightarrow> string" where
  "target_display (Usb selector) = ''usb:'' @ usb_selector_display selector"
| "target_display (Tty device) = ''tty:'' @ device"
| "target_display (Can iface node_id) = ''can:'' @ iface @ ''/'' @ node_id"

text \<open>The targets a label can name: the selector agrees with its shape, and an interface name has no
  slash.\<close>

fun canonical :: "target \<Rightarrow> bool" where
  "canonical (Usb (PortPath s)) = is_port_path s"
| "canonical (Usb (SerialNumber s)) = (\<not> is_port_path s)"
| "canonical (Tty device) = True"
| "canonical (Can iface node_id) = (CHR ''/'' \<notin> set iface)"

lemma usb_selector_parse_iff:
  "usb_selector_parse s = u \<longleftrightarrow> usb_selector_display u = s \<and> canonical (Usb u)"
  by (cases u) (auto simp: usb_selector_parse_def)

lemma digit_not_dot: "is_digit c \<Longrightarrow> c \<noteq> CHR ''.'' \<and> c \<noteq> CHR ''-''"
  by (auto simp: is_digit_def)

lemma digits_no_dot: "digits p \<Longrightarrow> CHR ''.'' \<notin> set p \<and> CHR ''-'' \<notin> set p"
  using digit_not_dot by (auto simp: digits_def list_all_iff)

lemma split_on_join_digits:
  "ps \<noteq> [] \<Longrightarrow> list_all digits ps \<Longrightarrow> split_on (CHR ''.'') (join_with ''.'' ps) = ps"
proof (induction "''.''" ps rule: join_with.induct)
  case (2 x)
  then show ?case using digits_no_dot by (simp add: split_on_no_sep)
next
  case (3 x y ys)
  then show ?case using digits_no_dot [of x] by (simp add: split_on_append)
qed simp

lemma join_with_split_on: "join_with [c] (split_on c s) = s"
proof (induction s)
  case (Cons x xs)
  obtain p ps where ps: "split_on c xs = p # ps" by (cases "split_on c xs") auto
  with Cons.IH show ?case by (cases ps) auto
qed simp

lemma join_digits_not_Nil: "ps \<noteq> [] \<Longrightarrow> list_all digits ps \<Longrightarrow> join_with ''.'' ps \<noteq> []"
  by (induction "''.''" ps rule: join_with.induct) (auto simp: digits_def)

subsection \<open>Properties\<close>

text \<open>C28: what a label means.  Parsing accepts exactly the printed forms of the canonical targets, each
  as that target: printing a parsed label gives the label back character for character, and no
  two labels name the same target.\<close>
theorem parse_iff_display:
  "target_parse label = Inr t \<longleftrightarrow> label = target_display t \<and> canonical t"
proof
  assume "target_parse label = Inr t"
  then show "label = target_display t \<and> canonical t"
    by (auto simp: target_parse_def str_simps usb_selector_parse_def split: option.splits if_splits)
next
  assume "label = target_display t \<and> canonical t"
  then show "target_parse label = Inr t"
    by (cases t) (auto simp: target_parse_def usb_selector_parse_iff)
qed

text \<open>The two forms of a \<open>usb:\<close> selector are told apart by a grammar.  A selector is read as a port
  path exactly when it is a bus number, a hyphen and one or more port numbers separated by dots,
  and as a board serial otherwise.\<close>
theorem port_path_grammar:
  "usb_selector_parse s = PortPath s \<longleftrightarrow>
    (\<exists>bus ports. digits bus \<and> ports \<noteq> [] \<and> list_all digits ports \<and>
      s = bus @ ''-'' @ join_with ''.'' ports)"
proof
  assume "usb_selector_parse s = PortPath s"
  then have "is_port_path s" by (simp add: usb_selector_parse_iff)
  then obtain bus ports where "s = bus @ CHR ''-'' # ports" "digits bus"
      "list_all digits (split_on (CHR ''.'') ports)"
    by (auto simp: is_port_path_def str_simps digits_def list_all_iff split: option.splits if_splits)
  then show "\<exists>bus ports. digits bus \<and> ports \<noteq> [] \<and> list_all digits ports \<and>
      s = bus @ ''-'' @ join_with ''.'' ports"
    by (intro exI [of _ bus] exI [of _ "split_on (CHR ''.'') ports"]) (simp add: join_with_split_on)
next
  assume "\<exists>bus ports. digits bus \<and> ports \<noteq> [] \<and> list_all digits ports \<and>
      s = bus @ ''-'' @ join_with ''.'' ports"
  then obtain bus ports where *: "digits bus" "ports \<noteq> []" "list_all digits ports"
      "s = bus @ CHR ''-'' # join_with ''.'' ports" by auto
  then have "split_once (CHR ''-'') s = Some (bus, join_with ''.'' ports)"
    using digits_no_dot by (simp add: str_simps)
  then have "is_port_path s"
    using * split_on_join_digits [OF *(2,3)] join_digits_not_Nil [OF *(2,3)]
    by (simp add: is_port_path_def digits_def list_all_iff)
  then show "usb_selector_parse s = PortPath s" by (simp add: usb_selector_parse_def)
qed

end
