(* ===== verification/Resolve.thy ===== *)
theory Resolve
  imports Target "HOL-Library.Char_ord" "HOL-Library.List_Lexorder"
begin

text \<open>
  From a placement label to device paths (\<open>crates/runtt-transport/src/resolve.rs\<close>).  The file
  system is the record \<open>sysfs\<close> of the calls the code makes on it; directory listings come in
  whatever order the kernel gives.  File names are taken to be valid UTF-8, where
  \<open>to_string_lossy\<close> changes nothing.
\<close>

definition IFACE_MGMT :: string where "IFACE_MGMT = ''runtt-mgmt''"
definition IFACE_LOG :: string where "IFACE_LOG = ''runtt-log''"
definition LOG_ID_OFFSET :: nat where "LOG_ID_OFFSET = 2"
definition MAX_STD_ID :: nat where "MAX_STD_ID = 2047"

record sysfs =
  fs_exists :: "string \<Rightarrow> bool"
  fs_is_dir :: "string \<Rightarrow> bool"
  fs_read_dir :: "string \<Rightarrow> string + (string + string) list"   \<comment> \<open>error, or errors and file names\<close>
  fs_canonicalize :: "string \<Rightarrow> string option"
  fs_read_to_string :: "string \<Rightarrow> string option"

datatype resolve_error =
    DoesNotExist string
  | NoSuchInterface string
  | NodeNotANumber string
  | NodeTooLarge string nat
  | NodeLeavesNoRoom string nat
  | ScanFailed string
  | UdevFailed string
  | NoBoardWithSerial string "string list"
  | SerialClaimedTwice string "string list"
  | NoSerialMgmt string nat
  | NoContractDevice string "string list"
  | NoPortMgmt string nat

subsection \<open>Resolved targets\<close>

datatype resolved =
    SerialPort string "string option"          \<comment> \<open>management and log device\<close>
  | CanNode string nat "string option"         \<comment> \<open>interface, node id, explicit log device\<close>

datatype log_source_kind = LogSerial string | LogCan string nat

fun log_source :: "resolved \<Rightarrow> log_source_kind option" where
  "log_source (SerialPort mgmt log) = map_option LogSerial log"
| "log_source (CanNode iface node_id (Some p)) = Some (LogSerial p)"
| "log_source (CanNode iface node_id None) = Some (LogCan iface (node_id + LOG_ID_OFFSET))"

fun log_path :: "resolved \<Rightarrow> string option" where
  "log_path (SerialPort mgmt log) = log"
| "log_path (CanNode iface node_id log) = log"

fun set_log :: "string \<Rightarrow> resolved \<Rightarrow> resolved" where
  "set_log path (SerialPort mgmt log) = SerialPort mgmt (Some path)"
| "set_log path (CanNode iface node_id log) = CanNode iface node_id (Some path)"

definition alt_hex :: "nat \<Rightarrow> string" where   \<comment> \<open>\<open>{:#x}\<close>\<close>
  "alt_hex n = ''0x'' @ hex_string n"

fun lock_key :: "sysfs \<Rightarrow> resolved \<Rightarrow> string" where
  "lock_key fs (SerialPort mgmt log) =
     (case fs_canonicalize fs mgmt of Some p \<Rightarrow> p | None \<Rightarrow> mgmt)"
| "lock_key fs (CanNode iface node_id log) = ''can:'' @ iface @ ''/'' @ alt_hex node_id"

definition channels :: "resolved \<Rightarrow> nat" where
  "channels r = (if log_source r \<noteq> None then 2 else 1)"

fun resolved_display :: "resolved \<Rightarrow> string" where
  "resolved_display (SerialPort mgmt log) = mgmt"
| "resolved_display (CanNode iface node_id log) = ''can:'' @ iface @ ''/'' @ alt_hex node_id"

subsection \<open>Node ids\<close>

definition parse_node_id :: "string \<Rightarrow> resolve_error + nat" where
  "parse_node_id s =
     (let t = trim s;
          parsed = (case (case strip_prefix ''0x'' t of Some h \<Rightarrow> Some h | None \<Rightarrow> strip_prefix ''0X'' t) of
              Some hex \<Rightarrow> parse_unsigned 16 u32_max hex
            | None \<Rightarrow> parse_u32 t)
      in case parsed of
           None \<Rightarrow> Inl (NodeNotANumber s)
         | Some n \<Rightarrow>
             if n > MAX_STD_ID then Inl (NodeTooLarge s n)
             else if n + LOG_ID_OFFSET > MAX_STD_ID then Inl (NodeLeavesNoRoom s n)
             else Inr n)"

subsection \<open>Scanning sysfs\<close>

record candidate =
  cand_dev :: string
  cand_port_path :: "string option"
  cand_interface :: "string option"
  cand_serial :: "string option"

definition tty_device_link :: "string \<Rightarrow> string" where
  "tty_device_link tty = path_join (path_join ''/sys/class/tty'' tty) ''device''"

definition tty_port_path :: "sysfs \<Rightarrow> string \<Rightarrow> string option" where
  "tty_port_path fs tty =
     (case fs_canonicalize fs (tty_device_link tty) of
        None \<Rightarrow> None
      | Some real \<Rightarrow>
          (case path_file_name real of
             None \<Rightarrow> None
           | Some iface \<Rightarrow>
               let port = hd (split_on (CHR '':'') iface)
               in if port = [] then None else Some port))"

definition trimmed_contents :: "string option \<Rightarrow> string option" where
  "trimmed_contents contents =
     (case map_option trim contents of Some s \<Rightarrow> if s \<noteq> [] then Some s else None | None \<Rightarrow> None)"

definition tty_interface :: "sysfs \<Rightarrow> string \<Rightarrow> string option" where
  "tty_interface fs tty =
     trimmed_contents (fs_read_to_string fs (path_join (tty_device_link tty) ''interface''))"

definition tty_serial :: "sysfs \<Rightarrow> string \<Rightarrow> string option" where
  "tty_serial fs tty =
     (case fs_canonicalize fs (tty_device_link tty) of
        None \<Rightarrow> None
      | Some iface \<Rightarrow>
          (case path_parent iface of
             None \<Rightarrow> None
           | Some device \<Rightarrow> trimmed_contents (fs_read_to_string fs (path_join device ''serial''))))"

text \<open>\<open>entry?\<close> in a loop over a directory: the names before the first error, if there is none.\<close>

fun entries :: "(string + string) list \<Rightarrow> string + string list" where
  "entries [] = Inr []"
| "entries (Inl e # es) = Inl e"
| "entries (Inr n # es) = map_sum id (Cons n) (entries es)"

definition tty_candidate :: "sysfs \<Rightarrow> string \<Rightarrow> candidate list" where
  "tty_candidate fs name =
     (if \<not> starts_with name ''ttyACM'' \<and> \<not> starts_with name ''ttyUSB'' then []
      else
        let dev = path_join ''/dev'' name in
        if \<not> fs_exists fs dev then []
        else [\<lparr>cand_dev = dev, cand_port_path = tty_port_path fs name,
               cand_interface = tty_interface fs name, cand_serial = tty_serial fs name\<rparr>])"

definition scan_ttys :: "sysfs \<Rightarrow> string + candidate list" where
  "scan_ttys fs =
     (if \<not> fs_is_dir fs ''/sys/class/tty'' then Inr []
      else bind_result (fs_read_dir fs ''/sys/class/tty'') (\<lambda>es.
           bind_result (entries es) (\<lambda>names. Inr (concat (map (tty_candidate fs) names)))))"

subsection \<open>Choosing a board\<close>

text \<open>The management and log devices among the candidates of one board, and what is done with
  them: the closing part of \<open>resolve_usb\<close> and \<open>resolve_usb_serial\<close>.\<close>

definition iface_dev :: "string \<Rightarrow> candidate list \<Rightarrow> string option" where
  "iface_dev iface cs = map_option cand_dev (find (\<lambda>c. cand_interface c = Some iface) cs)"

definition choose_device :: "resolve_error \<Rightarrow> candidate list \<Rightarrow> resolve_error + resolved" where
  "choose_device no_mgmt matching =
     (case iface_dev IFACE_MGMT matching of
        Some mgmt \<Rightarrow> Inr (SerialPort mgmt (iface_dev IFACE_LOG matching))
      | None \<Rightarrow>
          if length matching = 1 then Inr (SerialPort (cand_dev (hd matching)) None)
          else Inl no_mgmt)"

definition scan_candidates :: "sysfs \<Rightarrow> resolve_error + candidate list" where
  "scan_candidates fs = map_sum ScanFailed id (scan_ttys fs)"

definition resolve_usb_serial :: "sysfs \<Rightarrow> string \<Rightarrow> resolve_error + resolved" where
  "resolve_usb_serial fs serial =
     bind_result (scan_candidates fs) (\<lambda>candidates.
       let matching = filter (\<lambda>c. cand_serial c = Some serial) candidates in
       if matching = [] then
         Inl (NoBoardWithSerial serial (remdups_adj (sort
           (List.map_filter cand_serial (filter (\<lambda>c. cand_interface c = Some IFACE_MGMT) candidates)))))
       else
         let ports = remdups_adj (sort (List.map_filter cand_port_path matching)) in
         if 1 < length ports then Inl (SerialClaimedTwice serial ports)
         else choose_device (NoSerialMgmt serial (length matching)) matching)"

text \<open>\<open>/dev/runtt\<close>: the last entry of each kind on the port wins.\<close>

fun udev_links :: "sysfs \<Rightarrow> string \<Rightarrow> string list \<Rightarrow> string option \<times> string option
    \<Rightarrow> string option \<times> string option" where
  "udev_links fs port_path [] found = found"
| "udev_links fs port_path (name # names) (mgmt, log) =
     (let entry = path_join ''/dev/runtt'' name;
          dev = (case fs_canonicalize fs entry of Some p \<Rightarrow> p | None \<Rightarrow> entry)
      in case path_file_name dev of
           None \<Rightarrow> udev_links fs port_path names (mgmt, log)
         | Some dev_name \<Rightarrow>
             if tty_port_path fs dev_name \<noteq> Some port_path then udev_links fs port_path names (mgmt, log)
             else if ends_with name ''-mgmt'' then udev_links fs port_path names (Some dev, log)
             else if ends_with name ''-log'' then udev_links fs port_path names (mgmt, Some dev)
             else udev_links fs port_path names (mgmt, log))"

definition from_udev_tree :: "sysfs \<Rightarrow> string \<Rightarrow> resolve_error + resolved option" where
  "from_udev_tree fs port_path =
     (if \<not> fs_is_dir fs ''/dev/runtt'' then Inr None
      else map_sum UdevFailed id
        (bind_result (fs_read_dir fs ''/dev/runtt'') (\<lambda>es.
         bind_result (entries es) (\<lambda>names.
           case udev_links fs port_path names (None, None) of
             (mgmt, log) \<Rightarrow> Inr (map_option (\<lambda>m. SerialPort m log) mgmt)))))"

definition resolve_usb :: "sysfs \<Rightarrow> string \<Rightarrow> resolve_error + resolved" where
  "resolve_usb fs port_path =
     bind_result (from_udev_tree fs port_path) (\<lambda>found.
       case found of
         Some r \<Rightarrow> Inr r
       | None \<Rightarrow>
           bind_result (scan_candidates fs) (\<lambda>candidates.
             let matching = filter (\<lambda>c. cand_port_path c = Some port_path) candidates in
             if matching = [] then
               Inl (NoContractDevice port_path (List.map_filter cand_port_path candidates))
             else choose_device (NoPortMgmt port_path (length matching)) matching))"

fun resolve :: "sysfs \<Rightarrow> target \<Rightarrow> resolve_error + resolved" where
  "resolve fs (Tty device) =
     (let path = (if starts_with device ''/'' then device else path_join ''/dev'' device) in
      if \<not> fs_exists fs path then Inl (DoesNotExist path) else Inr (SerialPort path None))"
| "resolve fs (Usb (PortPath p)) = resolve_usb fs p"
| "resolve fs (Usb (SerialNumber serial)) = resolve_usb_serial fs serial"
| "resolve fs (Can iface node_id) =
     bind_result (parse_node_id node_id) (\<lambda>n.
       if \<not> fs_is_dir fs (path_join ''/sys/class/net'' iface) then Inl (NoSuchInterface iface)
       else Inr (CanNode iface n None))"

subsection \<open>Printed numbers\<close>

lemma alt_hex_ends: "alt_hex n \<noteq> [] \<and> solid (hd (alt_hex n)) \<and> solid (last (alt_hex n))"
proof -
  have r: "hex_string n \<noteq> []" "set (hex_string n) \<subseteq> digit_char ` {..<16}"
    using radix_string_digits [of 16 n] by simp_all
  then have "last (hex_string n) \<in> digit_char ` {..<16}" using last_in_set by blast
  then have "solid (last (hex_string n))" using digit_char_solid by auto
  moreover have "solid (CHR ''0'')" by (simp add: solid_def white_space_def)
  ultimately show ?thesis using r(1) by (simp add: alt_hex_def)
qed

lemma dec_string_ends:
  "dec_string n \<noteq> [] \<and> solid (hd (dec_string n)) \<and> solid (last (dec_string n)) \<and>
    CHR ''x'' \<notin> set (dec_string n) \<and> CHR ''X'' \<notin> set (dec_string n)"
proof -
  have r: "dec_string n \<noteq> []" "set (dec_string n) \<subseteq> digit_char ` {..<16}"
    using radix_string_digits [of 10 n] by simp_all
  then have "hd (dec_string n) \<in> digit_char ` {..<16}" "last (dec_string n) \<in> digit_char ` {..<16}"
    using last_in_set hd_in_set by blast+
  then have "solid (hd (dec_string n))" "solid (last (dec_string n))" using digit_char_solid by auto
  moreover have "digit_char d \<noteq> CHR ''x'' \<and> digit_char d \<noteq> CHR ''X''" if "d < 16" for d
  proof -
    have "d \<in> {0, 1, 2, 3, 4, 5, 6, 7, 8, 9, 10, 11, 12, 13, 14, 15}" using that by (rule less_16_cases)
    then show ?thesis by (auto simp: digit_char_def)
  qed
  then have "CHR ''x'' \<notin> digit_char ` {..<16}" "CHR ''X'' \<notin> digit_char ` {..<16}" by force+
  ultimately show ?thesis using r by blast
qed

lemma alt_hex_inject [simp]: "alt_hex m = alt_hex n \<longleftrightarrow> m = n"
proof
  assume "alt_hex m = alt_hex n"
  then have "digits_value 16 0 (hex_string m) = digits_value 16 0 (hex_string n)"
    by (simp add: alt_hex_def)
  then show "m = n" by (simp add: digits_value_radix)
qed simp

lemma strip_prefix_absent: "c \<in> set p \<Longrightarrow> c \<notin> set s \<Longrightarrow> strip_prefix p s = None"
  by (cases "strip_prefix p s") (auto simp: strip_prefix_Some)

text \<open>What becomes of a number written in either notation.\<close>

definition node_verdict :: "string \<Rightarrow> nat \<Rightarrow> resolve_error + nat" where
  "node_verdict s n =
     (if n \<le> 2045 then Inr n else if n \<le> 2047 then Inl (NodeLeavesNoRoom s n) else Inl (NodeTooLarge s n))"

lemma parse_node_id_hex: "n \<le> u32_max \<Longrightarrow> parse_node_id (alt_hex n) = node_verdict (alt_hex n) n"
  using alt_hex_ends [of n] parse_unsigned_radix [of 16 n u32_max]
  by (simp add: parse_node_id_def trim_solid alt_hex_def node_verdict_def MAX_STD_ID_def LOG_ID_OFFSET_def)

lemma parse_node_id_dec: "n \<le> u32_max \<Longrightarrow> parse_node_id (dec_string n) = node_verdict (dec_string n) n"
proof -
  assume n: "n \<le> u32_max"
  have "strip_prefix ''0x'' (dec_string n) = None" "strip_prefix ''0X'' (dec_string n) = None"
    using dec_string_ends [of n] strip_prefix_absent [of "CHR ''x''"] strip_prefix_absent [of "CHR ''X''"]
    by simp_all
  with n show ?thesis
    using dec_string_ends [of n] parse_unsigned_radix [of 10 n u32_max]
    by (simp add: parse_node_id_def trim_solid node_verdict_def MAX_STD_ID_def LOG_ID_OFFSET_def)
qed

lemma parse_node_id_bound: "parse_node_id s = Inr n \<Longrightarrow> n + LOG_ID_OFFSET \<le> MAX_STD_ID"
  by (auto simp: parse_node_id_def Let_def split: option.splits if_splits)

subsection \<open>Candidates\<close>

lemma find_in: "find P xs = Some x \<Longrightarrow> x \<in> set xs \<and> P x"
  by (induction xs) (auto split: if_splits)

lemma iface_dev_Some:
  "iface_dev iface cs = Some d \<Longrightarrow> \<exists>c \<in> set cs. cand_dev c = d \<and> cand_interface c = Some iface"
  by (auto simp: iface_dev_def dest: find_in)

lemma choose_device_Inr:
  assumes "choose_device e cs = Inr r"
  shows "\<exists>mgmt log. r = SerialPort mgmt log \<and>
    (\<exists>c \<in> set cs. cand_dev c = mgmt \<and> (cand_interface c = Some IFACE_MGMT \<or> cs = [c])) \<and>
    (\<forall>l. log = Some l \<longrightarrow> (\<exists>c \<in> set cs. cand_dev c = l \<and> cand_interface c = Some IFACE_LOG))"
proof (cases "iface_dev IFACE_MGMT cs")
  case None
  with assms obtain c where "cs = [c]" "r = SerialPort (cand_dev c) None"
    by (cases cs) (auto simp: choose_device_def split: if_splits)
  then show ?thesis by simp
next
  case (Some m)
  with assms have "r = SerialPort m (iface_dev IFACE_LOG cs)" by (simp add: choose_device_def)
  with iface_dev_Some [OF Some] iface_dev_Some [of IFACE_LOG cs] show ?thesis by blast
qed

lemma one_port: "\<not> 1 < length (remdups_adj (sort xs)) \<Longrightarrow> x \<in> set xs \<Longrightarrow> y \<in> set xs \<Longrightarrow> x = y"
proof -
  assume short: "\<not> 1 < length (remdups_adj (sort xs))" and "x \<in> set xs" "y \<in> set xs"
  then have "x \<in> set (remdups_adj (sort xs))" "y \<in> set (remdups_adj (sort xs))" by simp_all
  with short show ?thesis by (cases "remdups_adj (sort xs)") auto
qed

text \<open>A device is on a port when sysfs says so for its tty name.\<close>

definition on_port :: "sysfs \<Rightarrow> string \<Rightarrow> string \<Rightarrow> bool" where
  "on_port fs p dev \<longleftrightarrow> (\<exists>name. tty_port_path fs name = Some p \<and>
     (path_file_name dev = Some name \<or> dev = path_join ''/dev'' name))"

lemma scan_candidate:
  "scan_candidates fs = Inr cs \<Longrightarrow> c \<in> set cs \<Longrightarrow> \<exists>name. cand_dev c = path_join ''/dev'' name \<and>
    cand_port_path c = tty_port_path fs name \<and> cand_serial c = tty_serial fs name \<and>
    cand_interface c = tty_interface fs name \<and> fs_exists fs (cand_dev c)"
proof -
  assume "scan_candidates fs = Inr cs" "c \<in> set cs"
  then obtain name where "c \<in> set (tty_candidate fs name)"
    by (cases "scan_ttys fs")
      (auto simp: scan_candidates_def scan_ttys_def bind_result_Inr_iff split: if_splits)
  then show ?thesis
    by (intro exI [of _ name]) (auto simp: tty_candidate_def Let_def split: if_splits)
qed

lemma udev_links_on_port:
  "udev_links fs p names (m0, l0) = (m, l) \<Longrightarrow>
    (\<forall>d. m = Some d \<longrightarrow> m0 = Some d \<or> on_port fs p d) \<and>
    (\<forall>d. l = Some d \<longrightarrow> l0 = Some d \<or> on_port fs p d)"
proof (induction names arbitrary: m0 l0)
  case (Cons name names)
  let ?dev = "case fs_canonicalize fs (path_join ''/dev/runtt'' name) of Some p \<Rightarrow> p
    | None \<Rightarrow> path_join ''/dev/runtt'' name"
  show ?case
  proof (cases "\<exists>n. path_file_name ?dev = Some n \<and> tty_port_path fs n = Some p")
    case True
    then have "on_port fs p ?dev" by (auto simp: on_port_def)
    with True Cons.prems show ?thesis
      by (auto simp: Let_def split: if_splits dest!: Cons.IH)
  next
    case False
    with Cons.prems have "udev_links fs p names (m0, l0) = (m, l)"
      by (auto simp: Let_def split: option.splits if_splits)
    then show ?thesis by (rule Cons.IH)
  qed
qed simp

lemma from_udev_on_port:
  assumes "from_udev_tree fs p = Inr (Some r)"
  shows "\<exists>m l. r = SerialPort m l \<and> on_port fs p m \<and> (\<forall>d. l = Some d \<longrightarrow> on_port fs p d)"
proof -
  from assms obtain names m l where links: "udev_links fs p names (None, None) = (Some m, l)"
      and "r = SerialPort m l"
    by (auto simp: from_udev_tree_def bind_result_def split: if_splits sum.splits prod.splits)
  then show ?thesis using udev_links_on_port [OF links] by auto
qed

subsection \<open>Properties\<close>

text \<open>C27: a CAN node id is accepted exactly when the three identifiers the device owns are standard
  11-bit ones.  Every number up to the 32-bit maximum, written in hexadecimal as the runtime
  prints it or in decimal, is read back as itself and judged by that rule alone, and no spelling
  whatever yields an id whose reply or console identifier would leave the 11-bit range.\<close>
theorem node_id_range:
  "(parse_node_id s = Inr n \<longrightarrow> n + LOG_ID_OFFSET \<le> MAX_STD_ID) \<and>
   (m \<le> u32_max \<longrightarrow> parse_node_id (alt_hex m) = node_verdict (alt_hex m) m \<and>
      parse_node_id (dec_string m) = node_verdict (dec_string m) m)"
  using parse_node_id_bound parse_node_id_hex parse_node_id_dec by auto

text \<open>What a resolved bus target prints is a label that leads back to it.  The text is parsed as a
  \<open>can:\<close> target on the same interface and, while the interface exists, resolves to the same node.\<close>
theorem can_display_resolves:
  assumes "resolve fs (Can iface node) = Inr r" and "CHR ''/'' \<notin> set iface"
  shows "\<exists>t. target_parse (resolved_display r) = Inr t \<and> resolve fs t = Inr r"
proof -
  from assms(1) obtain n where n: "parse_node_id node = Inr n" and r: "r = CanNode iface n None"
    and dir: "fs_is_dir fs (path_join ''/sys/class/net'' iface)"
    by (auto simp: bind_result_Inr_iff split: if_splits)
  from parse_node_id_bound [OF n] have small: "n \<le> 2045" by (simp add: LOG_ID_OFFSET_def MAX_STD_ID_def)
  have "target_parse (resolved_display r) = Inr (Can iface (alt_hex n))"
    using assms(2) by (simp add: r target_parse_def)
  moreover have "parse_node_id (alt_hex n) = Inr n"
    using small parse_node_id_hex [of n] by (simp add: node_verdict_def)
  ultimately show ?thesis using dir r by simp
qed

text \<open>Two targets are the same board: the same device node once symbolic links are followed (the path as it
  is written where following them fails, which is the code's own fallback), or the same address on the
  same bus.\<close>

fun same_board :: "sysfs \<Rightarrow> resolved \<Rightarrow> resolved \<Rightarrow> bool" where
  "same_board fs (SerialPort m _) (SerialPort m' _) =
     (case_option m id (fs_canonicalize fs m) = case_option m' id (fs_canonicalize fs m'))"
| "same_board fs (CanNode i n _) (CanNode i' n' _) = (i = i' \<and> n = n')"
| "same_board fs _ _ = False"

fun absolute_target :: "sysfs \<Rightarrow> resolved \<Rightarrow> bool" where
  "absolute_target fs (SerialPort m _) \<longleftrightarrow> starts_with m ''/'' \<and>
     (\<forall>p. fs_canonicalize fs m = Some p \<longrightarrow> starts_with p ''/'')"
| "absolute_target fs (CanNode i _ _) \<longleftrightarrow> CHR ''/'' \<notin> set i"

text \<open>C25: the occupancy key names hardware, not spelling.  Of two resolved targets the keys are equal
  exactly when the targets are the same board, however the labels were written; a serial device
  never shares a key with a bus node.  For two serial devices the board is the device node the path
  leads to, or the path itself where it cannot be followed.\<close>
theorem lock_key_iff_same_board:
  assumes "absolute_target fs r" and "absolute_target fs r'"
  shows "lock_key fs r = lock_key fs r' \<longleftrightarrow> same_board fs r r'"
proof (cases r; cases r')
  fix i n l i' n' l'
  assume r: "r = CanNode i n l" "r' = CanNode i' n' l'"
  have "split_once (CHR ''/'') (i @ ''/'' @ alt_hex n) = Some (i, alt_hex n)"
    "split_once (CHR ''/'') (i' @ ''/'' @ alt_hex n') = Some (i', alt_hex n')"
    using assms r by simp_all
  then have "i @ ''/'' @ alt_hex n = i' @ ''/'' @ alt_hex n' \<Longrightarrow> i = i' \<and> n = n'" by auto
  with r show ?thesis by auto
qed (use assms in \<open>auto simp: starts_with_def split: option.splits\<close>)

text \<open>C26: a serial number resolves to one board or to an error.  When it succeeds, the management device
  belongs to a tty with that serial, it advertises the management interface or is the only tty of
  the board, a log device is one of the board's own log interfaces, and no two ttys with the
  serial sit on different USB ports.\<close>
theorem serial_resolves_one_board:
  assumes "resolve fs (Usb (SerialNumber serial)) = Inr r"
  shows "\<exists>mgmt log candidates. r = SerialPort mgmt log \<and> scan_candidates fs = Inr candidates \<and>
    (\<exists>c \<in> set candidates. cand_dev c = mgmt \<and> cand_serial c = Some serial \<and>
      (cand_interface c = Some IFACE_MGMT \<or>
        filter (\<lambda>c. cand_serial c = Some serial) candidates = [c])) \<and>
    (\<forall>l. log = Some l \<longrightarrow> (\<exists>c \<in> set candidates. cand_dev c = l \<and> cand_serial c = Some serial \<and>
      cand_interface c = Some IFACE_LOG)) \<and>
    (\<forall>c \<in> set candidates. \<forall>c' \<in> set candidates. \<forall>p p'. cand_serial c = Some serial \<longrightarrow>
      cand_serial c' = Some serial \<longrightarrow> cand_port_path c = Some p \<longrightarrow> cand_port_path c' = Some p' \<longrightarrow> p = p')"
proof -
  from assms obtain cs where cs: "scan_candidates fs = Inr cs"
    by (auto simp: resolve_usb_serial_def bind_result_Inr_iff)
  let ?m = "filter (\<lambda>c. cand_serial c = Some serial) cs"
  let ?ports = "List.map_filter cand_port_path ?m"
  from assms cs have one: "\<not> 1 < length (remdups_adj (sort ?ports))"
    and choice: "choose_device (NoSerialMgmt serial (length ?m)) ?m = Inr r"
    by (auto simp: resolve_usb_serial_def Let_def split: if_splits)
  have "p = p'" if "c \<in> set ?m" "c' \<in> set ?m" "cand_port_path c = Some p" "cand_port_path c' = Some p'"
    for c c' p p'
  proof (rule one_port [OF one])
    show "p \<in> set ?ports" "p' \<in> set ?ports"
      using that by (force simp: List.map_filter_def)+
  qed
  then have ports: "\<forall>c \<in> set cs. \<forall>c' \<in> set cs. \<forall>p p'. cand_serial c = Some serial \<longrightarrow>
      cand_serial c' = Some serial \<longrightarrow> cand_port_path c = Some p \<longrightarrow> cand_port_path c' = Some p' \<longrightarrow> p = p'"
    by simp
  from choose_device_Inr [OF choice] obtain mgmt log where "r = SerialPort mgmt log"
      "\<exists>c \<in> set ?m. cand_dev c = mgmt \<and> (cand_interface c = Some IFACE_MGMT \<or> ?m = [c])"
      "\<forall>l. log = Some l \<longrightarrow> (\<exists>c \<in> set ?m. cand_dev c = l \<and> cand_interface c = Some IFACE_LOG)"
    by blast
  with cs ports show ?thesis by auto
qed

text \<open>A port path only ever leads to devices on that port.  Whether it was found through udev's
  links or by scanning sysfs, every device a \<open>usb:\<close> port path resolves to is, by sysfs, on the
  port the label names.\<close>
theorem port_path_stays_on_port:
  assumes "resolve fs (Usb (PortPath p)) = Inr r"
  shows "\<exists>mgmt log. r = SerialPort mgmt log \<and> on_port fs p mgmt \<and>
    (\<forall>l. log = Some l \<longrightarrow> on_port fs p l)"
proof -
  from assms obtain found where found: "from_udev_tree fs p = Inr found"
    by (auto simp: resolve_usb_def bind_result_Inr_iff)
  show ?thesis
  proof (cases found)
    case (Some r')
    with assms found have "r' = r" by (simp add: resolve_usb_def)
    with Some found from_udev_on_port show ?thesis by blast
  next
    case None
    with assms found obtain cs where cs: "scan_candidates fs = Inr cs"
      by (auto simp: resolve_usb_def bind_result_Inr_iff)
    let ?m = "filter (\<lambda>c. cand_port_path c = Some p) cs"
    have choice: "choose_device (NoPortMgmt p (length ?m)) ?m = Inr r"
      using assms found None cs by (auto simp: resolve_usb_def Let_def split: if_splits)
    have "on_port fs p (cand_dev c)" if "c \<in> set ?m" for c
      using that scan_candidate [OF cs, of c] unfolding on_port_def by auto
    with choose_device_Inr [OF choice] show ?thesis by blast
  qed
qed

subsection \<open>A machine with one composite board\<close>

definition bench :: sysfs where
  "bench = \<lparr>fs_exists = (\<lambda>p. p = ''/dev/ttyACM0'' \<or> p = ''/dev/ttyACM1''),
     fs_is_dir = (\<lambda>p. p = ''/sys/class/tty'' \<or> p = ''/sys/class/net/can0''),
     fs_read_dir = (\<lambda>p. Inr [Inr ''ttyS0'', Inr ''ttyACM1'', Inr ''ttyACM0'']),
     fs_canonicalize = (\<lambda>p.
        if p = ''/sys/class/tty/ttyACM0/device'' then Some ''/sys/usb3/3-6/3-6:1.0''
        else if p = ''/sys/class/tty/ttyACM1/device'' then Some ''/sys/usb3/3-6/3-6:1.2''
        else None),
     fs_read_to_string = (\<lambda>p.
        if p = ''/sys/class/tty/ttyACM0/device/interface'' then Some ''runtt-mgmt''
        else if p = ''/sys/class/tty/ttyACM1/device/interface'' then Some ''runtt-log''
        else if p = ''/sys/usb3/3-6/serial'' then Some ''feather-01''
        else None)\<rparr>"

lemmas resolve_defs = path_join_def starts_with_def ends_with_def tty_device_link_def
  path_file_name_def path_parent_def path_components_def suffix_to_prefix

lemma trim_names: "trim ''runtt-mgmt'' = ''runtt-mgmt''" "trim ''runtt-log'' = ''runtt-log''"
  "trim ''feather-01'' = ''feather-01''"
  by (simp_all add: trim_solid solid_def white_space_def)

lemma bench_scan:
  "scan_candidates bench = Inr
    [\<lparr>cand_dev = ''/dev/ttyACM1'', cand_port_path = Some ''3-6'', cand_interface = Some ''runtt-log'',
      cand_serial = Some ''feather-01''\<rparr>,
     \<lparr>cand_dev = ''/dev/ttyACM0'', cand_port_path = Some ''3-6'', cand_interface = Some ''runtt-mgmt'',
      cand_serial = Some ''feather-01''\<rparr>]"
  by (simp add: scan_candidates_def scan_ttys_def tty_candidate_def Let_def tty_port_path_def
      tty_interface_def tty_serial_def trimmed_contents_def resolve_defs bench_def trim_names)

lemma bench_udev: "from_udev_tree bench p = Inr None"
  by (simp add: from_udev_tree_def bench_def)

lemma bench_serial:
  "resolve bench (Usb (SerialNumber ''feather-01'')) = Inr (SerialPort ''/dev/ttyACM0'' (Some ''/dev/ttyACM1''))"
  by (simp add: resolve_usb_serial_def bench_scan List.map_filter_def choose_device_def
      iface_dev_def IFACE_MGMT_def IFACE_LOG_def)

lemma bench_port:
  "resolve bench (Usb (PortPath ''3-6'')) = Inr (SerialPort ''/dev/ttyACM0'' (Some ''/dev/ttyACM1''))"
  by (simp add: resolve_usb_def bench_udev bench_scan choose_device_def
      iface_dev_def IFACE_MGMT_def IFACE_LOG_def)

lemma bench_can: "resolve bench (Can ''can0'' ''0x42'') = Inr (CanNode ''can0'' 66 None)"
proof -
  have "alt_hex 66 = ''0x42''"
    by (simp add: alt_hex_def radix_string.simps digit_char_def)
  with parse_node_id_hex [of 66] have "parse_node_id ''0x42'' = Inr 66" by (simp add: node_verdict_def)
  then show ?thesis by (simp add: bench_def resolve_defs)
qed

theorem node_id_range_witness:
  "parse_node_id (alt_hex 2045) = Inr 2045 \<and> parse_node_id (dec_string 2046) =
    Inl (NodeLeavesNoRoom (dec_string 2046) 2046)"
  using node_id_range [of "[]" 0 2045] node_id_range [of "[]" 0 2046] by (simp add: node_verdict_def)

theorem can_display_resolves_witness:
  "\<exists>t. target_parse (resolved_display (CanNode ''can0'' 66 None)) = Inr t \<and>
    resolve bench t = Inr (CanNode ''can0'' 66 None)"
  using can_display_resolves [OF bench_can] by simp

theorem lock_key_iff_same_board_witness:
  "lock_key bench (CanNode ''can0'' 66 None) \<noteq> lock_key bench (SerialPort ''/dev/ttyACM0'' None)"
  using lock_key_iff_same_board [of bench "CanNode ''can0'' 66 None" "SerialPort ''/dev/ttyACM0'' None"]
  by (simp add: bench_def starts_with_def)

theorem serial_resolves_one_board_witness:
  "\<exists>candidates. scan_candidates bench = Inr candidates \<and>
    (\<exists>c \<in> set candidates. cand_dev c = ''/dev/ttyACM0'' \<and> cand_serial c = Some ''feather-01'')"
  using serial_resolves_one_board [OF bench_serial] by auto

theorem port_path_stays_on_port_witness:
  "on_port bench ''3-6'' ''/dev/ttyACM0'' \<and> on_port bench ''3-6'' ''/dev/ttyACM1''"
  using port_path_stays_on_port [OF bench_port] by simp

end
