(* ===== verification/Smp_Client.thy ===== *)
theory Smp_Client
  imports Resolve Mcuboot
begin

text \<open>
  The SMP client the runtime drives a board with: \<open>ImageSlot\<close> and the five-method surface
  (\<open>crates/runtt-smp/src/lib.rs\<close>), \<open>ToolkitClient\<close> (\<open>toolkit.rs\<close>), the describe command
  (\<open>describe.rs\<close>) and the way a connection is made (\<open>connect*\<close> in \<open>crates/runtt/src/flash.rs\<close>).

  The third-party client \<open>MCUmgrClient\<close>, the serial port, ISO-TP, the file system and the clock are
  the record \<open>host\<close> of the calls made on them, over an arbitrary world \<open>'w\<close>: each call gives a
  result, the milliseconds it took and the new world.  The runtime's own state is that world, the
  time, and the trace of what was done, in order; a handle is closed when its owner is dropped.
\<close>

record toolkit_image =
  ti_image :: nat
  ti_slot :: nat
  ti_version :: string
  ti_hash :: "bytes option"
  ti_bootable :: bool
  ti_pending :: bool
  ti_confirmed :: bool
  ti_active :: bool
  ti_permanent :: bool

record image_slot =
  sl_image :: "nat option"
  sl_slot :: nat
  sl_version :: string
  sl_hash :: "bytes option"
  sl_bootable :: bool
  sl_pending :: bool
  sl_confirmed :: bool
  sl_active :: bool
  sl_permanent :: bool

definition convert :: "toolkit_image \<Rightarrow> image_slot" where
  "convert s = \<lparr>sl_image = Some (ti_image s), sl_slot = ti_slot s, sl_version = ti_version s,
     sl_hash = ti_hash s, sl_bootable = ti_bootable s, sl_pending = ti_pending s,
     sl_confirmed = ti_confirmed s, sl_active = ti_active s, sl_permanent = ti_permanent s\<rparr>"

record describe =
  de_contract :: string
  de_board :: string
  de_app_version :: string
  de_channels :: nat
  de_img :: "bool option"
  de_idle :: "bool option"
  de_app_healthy :: "bool option"
  de_provisioned :: "bool option"
  de_serial :: "string option"
  de_can_node_id :: "nat option"

subsection \<open>The host\<close>

type_synonym ('w, 'r) step = "'w \<Rightarrow> 'r \<times> nat \<times> 'w"

text \<open>Operations on an open link take the number of its handle first.\<close>

record 'w host =
  h_read_file :: "string \<Rightarrow> ('w, string + bytes) step"
  h_open_serial :: "string \<Rightarrow> nat \<Rightarrow> nat \<Rightarrow> ('w, string + unit) step"
  h_demux :: "nat \<Rightarrow> nat \<Rightarrow> ('w, string + unit) step"
  h_open_isotp :: "string \<Rightarrow> nat \<Rightarrow> nat \<Rightarrow> ('w, string + unit) step"
  h_close :: "nat \<Rightarrow> ('w, unit) step"
  h_set_timeout :: "nat \<Rightarrow> nat \<Rightarrow> ('w, string + unit) step"
  h_set_retries :: "nat \<Rightarrow> nat \<Rightarrow> ('w, unit) step"
  h_auto_frame :: "nat \<Rightarrow> ('w, string + unit) step"
  h_echo :: "nat \<Rightarrow> string \<Rightarrow> ('w, string + string) step"
  h_describe :: "nat \<Rightarrow> ('w, string + describe) step"
  h_image_state :: "nat \<Rightarrow> ('w, string + toolkit_image list) step"
  h_upload :: "nat \<Rightarrow> bytes \<Rightarrow> bytes \<Rightarrow> ('w, (string + unit) \<times> (nat \<times> nat \<times> nat) list) step"
                             \<comment> \<open>with its progress reports: elapsed time, bytes done, total\<close>
  h_reset :: "nat \<Rightarrow> ('w, string + unit) step"
  h_set_state :: "nat \<Rightarrow> bytes \<Rightarrow> bool \<Rightarrow> ('w, string + unit) step"
  h_sleep :: "nat \<Rightarrow> ('w, unit) step"   \<comment> \<open>the time slept beyond what was asked\<close>
  h_stop :: "('w, bool) step"

text \<open>What the runtime writes to stdout (\<open>println!\<close>), by the place it is written from.\<close>

datatype printed =
    AlreadyRuns
  | Uploading nat nat nat
  | WrittenDirectly
  | MarkedTest
  | ImageConfirmed
  | OtherMajor string
  | BoardSerial string
  | NoIdentityRecord
  | AwaitingFirmware string string nat
  | BoardIs string string string nat
  | SingleChannel

datatype event =
    EvOpened nat
  | EvOpenFailed
  | EvClosed nat
  | EvTimeout nat nat
  | EvRetries nat nat
  | EvAutoFrame nat
  | EvEcho nat string bool
  | EvDescribe nat "describe option"
  | EvList nat "image_slot list option"
  | EvUpload nat bytes bool
  | EvReset nat bool
  | EvSetState nat bytes bool bool         \<comment> \<open>handle, digest, confirm, accepted\<close>
  | EvSleep nat
  | EvStopAsked bool
  | EvPrint printed

record 'w rt =
  rt_world :: 'w
  rt_now :: nat              \<comment> \<open>\<open>Instant::now()\<close>, in milliseconds\<close>
  rt_trace :: "event list"
  rt_opened :: nat           \<comment> \<open>number of handles opened so far\<close>

text \<open>Errors, as \<open>anyhow\<close> builds them: a cause under the contexts added on the way up.  A panic or a
  stack overflow of the image parser ends the process; it is the error \<open>Crash\<close>.\<close>

datatype deploy_context =
    ReadFirmware string
  | NotMcuboot string
  | OpenSerialFailed string
  | OpenIsotpFailed string nat
  | NoEchoAnswer
  | UploadFailed
  | ResetFailed
  | DidNotComeBack
  | MarkFailed
  | ConfirmFailed
  | WaitedForReturn
  | SmpFailed string

datatype deploy_error =
    Cause string
  | ImageRefused image_error
  | Crash
  | PathNotUtf8
  | SetTimeoutFailed string
  | UnparseableContract string
  | ContractRefused string
  | BringUpOnly string string
  | MarkedUnbootable bytes
  | NothingLanded bytes
  | PendingNotSwapped
  | UploadLost
  | RunsAnother "bytes option" bytes
  | NeverReturned
  | LostContact nat
  | Context deploy_context deploy_error

type_synonym ('w, 'a) rtm = "'w rt \<Rightarrow> (deploy_error + 'a) \<times> 'w rt"

subsection \<open>Sequencing\<close>

definition ok :: "'a \<Rightarrow> ('w, 'a) rtm" where
  "ok a s = (Inr a, s)"

definition fail :: "deploy_error \<Rightarrow> ('w, 'a) rtm" where
  "fail e s = (Inl e, s)"

definition and_then :: "('w, 'a) rtm \<Rightarrow> ('a \<Rightarrow> ('w, 'b) rtm) \<Rightarrow> ('w, 'b) rtm" where
  "and_then m f s = (case m s of (Inl e, s') \<Rightarrow> (Inl e, s') | (Inr a, s') \<Rightarrow> f a s')"

text \<open>\<open>.context(c)\<close>, and \<open>match\<close> on a result.\<close>

definition in_context :: "deploy_context \<Rightarrow> ('w, 'a) rtm \<Rightarrow> ('w, 'a) rtm" where
  "in_context c m s = (case m s of (Inl e, s') \<Rightarrow> (Inl (Context c e), s') | (Inr a, s') \<Rightarrow> (Inr a, s'))"

definition attempt :: "('w, 'a) rtm \<Rightarrow> ('w, deploy_error + 'a) rtm" where
  "attempt m s = (case m s of (r, s') \<Rightarrow> (Inr r, s'))"

text \<open>A call to the host, recorded in the trace; and the ones that may fail.\<close>

definition perform :: "('w, 'r) step \<Rightarrow> ('r \<Rightarrow> event list) \<Rightarrow> ('w, 'r) rtm" where
  "perform call ev s =
     (case call (rt_world s) of
        (r, dt, w) \<Rightarrow> (Inr r, s\<lparr>rt_world := w, rt_now := rt_now s + dt, rt_trace := rt_trace s @ ev r\<rparr>))"

definition raise_io :: "string + 'a \<Rightarrow> ('w, 'a) rtm" where
  "raise_io r = (case r of Inl e \<Rightarrow> fail (Cause e) | Inr a \<Rightarrow> ok a)"

definition is_ok :: "'e + 'a \<Rightarrow> bool" where
  "is_ok r = (case r of Inl _ \<Rightarrow> False | Inr _ \<Rightarrow> True)"

definition ok_value :: "'e + 'a \<Rightarrow> 'a option" where
  "ok_value r = (case r of Inl _ \<Rightarrow> None | Inr a \<Rightarrow> Some a)"

definition say :: "printed \<Rightarrow> ('w, unit) rtm" where
  "say p s = (Inr (), s\<lparr>rt_trace := rt_trace s @ [EvPrint p]\<rparr>)"

definition sleep :: "'w host \<Rightarrow> nat \<Rightarrow> ('w, unit) rtm" where
  "sleep H ms s =
     (case h_sleep H ms (rt_world s) of
        (r, extra, w) \<Rightarrow>
          (Inr (), s\<lparr>rt_world := w, rt_now := rt_now s + ms + extra, rt_trace := rt_trace s @ [EvSleep ms]\<rparr>))"

definition close_handle :: "'w host \<Rightarrow> nat \<Rightarrow> ('w, unit) rtm" where
  "close_handle H n = perform (h_close H n) (\<lambda>_. [EvClosed n])"

text \<open>\<open>?\<close> in a scope that owns the handle \<open>n\<close>: an error drops it on the way out.\<close>

definition owning :: "'w host \<Rightarrow> nat \<Rightarrow> ('w, 'a) rtm \<Rightarrow> ('w, 'a) rtm" where
  "owning H n m s =
     (case m s of
        (Inr a, s') \<Rightarrow> (Inr a, s')
      | (Inl e, s') \<Rightarrow> (case close_handle H n s' of (_, s'') \<Rightarrow> (Inl e, s'')))"

text \<open>Opening a handle; the new one gets the next number.\<close>

definition open_handle :: "('w, string + unit) step \<Rightarrow> deploy_context \<Rightarrow> ('w, nat) rtm" where
  "open_handle call c s =
     (case call (rt_world s) of
        (r, dt, w) \<Rightarrow>
          let s' = s\<lparr>rt_world := w, rt_now := rt_now s + dt\<rparr>; n = rt_opened s in
          (case r of
             Inl e \<Rightarrow> (Inl (Context c (Cause e)), s'\<lparr>rt_trace := rt_trace s @ [EvOpenFailed]\<rparr>)
           | Inr _ \<Rightarrow> (Inr n, s'\<lparr>rt_trace := rt_trace s @ [EvOpened n], rt_opened := n + 1\<rparr>)))"

subsection \<open>The toolkit client\<close>

definition DEFAULT_RETRIES :: nat where "DEFAULT_RETRIES = 3"

record client =
  cl_inner :: nat       \<comment> \<open>the handle under the \<open>MCUmgrClient\<close>\<close>
  cl_timeout :: nat

text \<open>\<open>ToolkitClient::new\<close> and \<open>from_transport\<close>; the timeout the client remembers is the one set.\<close>

definition client_new :: "'w host \<Rightarrow> nat \<Rightarrow> nat \<Rightarrow> ('w, client) rtm" where
  "client_new H inner timeout =
     owning H inner
       (and_then (perform (h_set_timeout H inner timeout) (\<lambda>_. [EvTimeout inner timeout])) (\<lambda>r.
          case r of Inl e \<Rightarrow> fail (SetTimeoutFailed e)
                  | Inr _ \<Rightarrow> ok \<lparr>cl_inner = inner, cl_timeout = timeout\<rparr>))"

definition tune_frame_size :: "'w host \<Rightarrow> client \<Rightarrow> ('w, unit) rtm" where
  "tune_frame_size H c =
     and_then (perform (h_auto_frame H (cl_inner c)) (\<lambda>_. [EvAutoFrame (cl_inner c)])) (\<lambda>_. ok ())"

definition set_limits :: "'w host \<Rightarrow> client \<Rightarrow> nat \<Rightarrow> nat \<Rightarrow> ('w, unit) rtm" where
  "set_limits H c timeout retries =
     and_then (perform (h_set_timeout H (cl_inner c) timeout) (\<lambda>_. [EvTimeout (cl_inner c) timeout])) (\<lambda>_.
       perform (h_set_retries H (cl_inner c) retries) (\<lambda>_. [EvRetries (cl_inner c) retries]))"

text \<open>\<open>probe_settings\<close> with the guard's scope as its last argument: the guard is dropped when the
  scope ends, whatever its result.\<close>

definition probe_settings ::
    "'w host \<Rightarrow> client \<Rightarrow> nat \<Rightarrow> nat \<Rightarrow> ('w, 'a) rtm \<Rightarrow> ('w, deploy_error + 'a) rtm" where
  "probe_settings H c timeout retries scope =
     and_then (set_limits H c timeout retries) (\<lambda>_.
     and_then (attempt scope) (\<lambda>r.
     and_then (set_limits H c (cl_timeout c) DEFAULT_RETRIES) (\<lambda>_. ok r)))"

definition echo :: "'w host \<Rightarrow> client \<Rightarrow> string \<Rightarrow> ('w, string) rtm" where
  "echo H c payload = in_context (SmpFailed ''SMP echo failed'')
     (and_then (perform (h_echo H (cl_inner c) payload) (\<lambda>r. [EvEcho (cl_inner c) payload (is_ok r)])) raise_io)"

definition client_describe :: "'w host \<Rightarrow> client \<Rightarrow> ('w, describe) rtm" where
  "client_describe H c = in_context (SmpFailed ''describe failed; does this firmware include the runtt module?'')
     (and_then (perform (h_describe H (cl_inner c)) (\<lambda>r. [EvDescribe (cl_inner c) (ok_value r)])) raise_io)"

definition image_list :: "'w host \<Rightarrow> client \<Rightarrow> ('w, image_slot list) rtm" where
  "image_list H c = in_context (SmpFailed ''SMP image state read failed'')
     (and_then (perform (h_image_state H (cl_inner c))
        (\<lambda>r. [EvList (cl_inner c) (map_option (map convert) (ok_value r))])) (\<lambda>r.
      and_then (raise_io r) (\<lambda>images. ok (map convert images))))"

definition client_reset :: "'w host \<Rightarrow> client \<Rightarrow> ('w, unit) rtm" where
  "client_reset H c = in_context (SmpFailed ''SMP reset failed'')
     (and_then (perform (h_reset H (cl_inner c)) (\<lambda>r. [EvReset (cl_inner c) (is_ok r)])) raise_io)"

definition client_set_state :: "'w host \<Rightarrow> client \<Rightarrow> bytes \<Rightarrow> bool \<Rightarrow> ('w, unit) rtm" where
  "client_set_state H c hash confirm = in_context (SmpFailed ''SMP set-state failed'')
     (and_then (perform (h_set_state H (cl_inner c) hash confirm)
        (\<lambda>r. [EvSetState (cl_inner c) hash confirm (is_ok r)])) raise_io)"

text \<open>\<open>flash\<close>: the upload carries the SHA-256 of the whole file; \<open>advance\<close> turns its progress reports
  into output.\<close>

definition flash ::
    "'w host \<Rightarrow> (bytes \<Rightarrow> bytes) \<Rightarrow> client \<Rightarrow> bytes \<Rightarrow> ((nat \<times> nat \<times> nat) list \<Rightarrow> printed list)
      \<Rightarrow> ('w, unit) rtm" where
  "flash H sha c img advance = in_context (SmpFailed ''SMP image upload failed'')
     (and_then (perform (h_upload H (cl_inner c) img (sha img))
        (\<lambda>(r, reports). map EvPrint (advance reports) @ [EvUpload (cl_inner c) img (is_ok r)]))
        (\<lambda>(r, _). raise_io r))"

end
