(* ===== verification/Flash.thy ===== *)
theory Flash
  imports Smp_Client
begin

text \<open>
  The deploy sequence and the resident loop (\<open>crates/runtt/src/flash.rs\<close>).  \<open>H\<close> is the host, \<open>sha\<close>
  the SHA-256 of the toolkit client, \<open>cfg\<close> the machine the runtime runs on; times are in
  milliseconds.  Log output through \<open>tracing\<close> is not modelled, what is printed is.
\<close>

definition BAUD :: nat where "BAUD = 115200"
definition SMP_TIMEOUT :: nat where "SMP_TIMEOUT = 10000"
definition REBOOT_GRACE :: nat where "REBOOT_GRACE = 30000"
definition HEARTBEAT_INTERVAL :: nat where "HEARTBEAT_INTERVAL = 5000"
definition CONTRACT_MAJOR :: nat where "CONTRACT_MAJOR = 2"
definition PROBE_TIMEOUT :: nat where "PROBE_TIMEOUT = 1500"

record deploy =
  dp_firmware :: string
  dp_resolved :: resolved
  dp_skip_if_same :: bool

subsection \<open>Connecting\<close>

definition connect_serial :: "'w host \<Rightarrow> string \<Rightarrow> bool \<Rightarrow> ('w, client) rtm" where
  "connect_serial H path demux_logs =
     (if \<not> utf8_valid path then fail PathNotUtf8
      else
        and_then (open_handle (h_open_serial H path BAUD SMP_TIMEOUT) (OpenSerialFailed path)) (\<lambda>ch.
          if demux_logs then
            and_then (owning H ch (and_then (perform (h_demux H ch SMP_TIMEOUT) (\<lambda>_. [])) raise_io)) (\<lambda>_.
              client_new H ch SMP_TIMEOUT)
          else client_new H ch SMP_TIMEOUT))"

definition connect_can :: "'w host \<Rightarrow> string \<Rightarrow> nat \<Rightarrow> ('w, client) rtm" where
  "connect_can H iface node_id =
     and_then (open_handle (h_open_isotp H iface node_id SMP_TIMEOUT) (OpenIsotpFailed iface node_id)) (\<lambda>ch.
       client_new H ch SMP_TIMEOUT)"

definition connect :: "'w host \<Rightarrow> resolved \<Rightarrow> ('w, client) rtm" where
  "connect H resolved =
     and_then (case resolved of
                 SerialPort mgmt log \<Rightarrow> connect_serial H mgmt (log = None)
               | CanNode iface node_id _ \<Rightarrow> connect_can H iface node_id) (\<lambda>c.
     and_then (tune_frame_size H c) (\<lambda>_. ok c))"

subsection \<open>The device's own account\<close>

text \<open>\<open>contract.split('.').next().and_then(|m| m.parse::<u32>().ok())\<close>.\<close>

definition contract_major :: "describe \<Rightarrow> nat option" where
  "contract_major d = parse_u32 (hd (split_on (CHR ''.'') (de_contract d)))"

definition confirm_contract_matches :: "'w host \<Rightarrow> client \<Rightarrow> ('w, unit) rtm" where
  "confirm_contract_matches H c =
     and_then (probe_settings H c PROBE_TIMEOUT 1 (client_describe H c)) (\<lambda>r.
       case r of
         Inl _ \<Rightarrow> ok ()
       | Inr d \<Rightarrow>
           (case contract_major d of
              None \<Rightarrow> fail (UnparseableContract (de_contract d))
            | Some major \<Rightarrow>
                if major \<noteq> CONTRACT_MAJOR then fail (ContractRefused (de_contract d)) else ok ()))"

definition when_do :: "bool \<Rightarrow> ('w, unit) rtm \<Rightarrow> ('w, unit) rtm" where
  "when_do b m = (if b then m else ok ())"

text \<open>What \<open>identify\<close> makes of an answer: the lines it prints, or the refusal.\<close>

definition report :: "describe \<Rightarrow> ('w, unit) rtm" where
  "report d =
     (case contract_major d of
        None \<Rightarrow> fail (UnparseableContract (de_contract d))
      | Some major \<Rightarrow>
          and_then (when_do (major \<noteq> CONTRACT_MAJOR) (say (OtherMajor (de_contract d)))) (\<lambda>_.
            if de_img d = Some False then fail (BringUpOnly (de_board d) (de_contract d))
            else
              and_then (case de_serial d of None \<Rightarrow> ok () | Some serial \<Rightarrow> say (BoardSerial serial)) (\<lambda>_.
              and_then (when_do (de_provisioned d = Some False) (say NoIdentityRecord)) (\<lambda>_.
                say (if de_idle d = Some True
                     then AwaitingFirmware (de_board d) (de_contract d) (de_channels d)
                     else BoardIs (de_board d) (de_app_version d) (de_contract d) (de_channels d))))))"

definition identify :: "'w host \<Rightarrow> client \<Rightarrow> ('w, unit) rtm" where
  "identify H c =
     and_then (probe_settings H c PROBE_TIMEOUT 1 (client_describe H c)) (\<lambda>r.
       case r of Inl _ \<Rightarrow> ok () | Inr d \<Rightarrow> report d)"

subsection \<open>Waiting for a reboot\<close>

definition connect_and_echo :: "'w host \<Rightarrow> resolved \<Rightarrow> ('w, client) rtm" where
  "connect_and_echo H resolved =
     and_then (connect H resolved) (\<lambda>c.
       owning H (cl_inner c) (and_then (echo H c ''runtt'') (\<lambda>_. ok c)))"

text \<open>Time never runs backwards in any of the operations, so every turn of the reconnect loop, which
  sleeps half a second, brings the deadline nearer.\<close>

definition forward :: "('w, 'a) rtm \<Rightarrow> bool" where
  "forward m \<longleftrightarrow> (\<forall>s. rt_now s \<le> rt_now (snd (m s)))"

named_theorems forwards \<open>operations that do not turn time back\<close>

lemma forwardI: "(\<And>s r s'. m s = (r, s') \<Longrightarrow> rt_now s \<le> rt_now s') \<Longrightarrow> forward m"
  by (auto simp: forward_def) (metis prod.collapse)

lemma forward_pair: "forward m \<Longrightarrow> m s = (r, s') \<Longrightarrow> rt_now s \<le> rt_now s'"
  by (auto simp: forward_def dest: spec [of _ s])

lemma forward_basic [forwards]:
  "forward (ok a)" "forward (fail e)" "forward (say p)" "forward (perform call ev)"
  "forward (raise_io r)" "forward (sleep H ms)" "forward (close_handle H n)"
  "forward (open_handle opening c)"
  by (auto simp: forward_def ok_def fail_def say_def perform_def raise_io_def sleep_def
      close_handle_def open_handle_def Let_def split: prod.splits sum.splits)

lemma forward_and_then [forwards]:
  "forward m \<Longrightarrow> (\<And>a. forward (f a)) \<Longrightarrow> forward (and_then m f)"
  by (rule forwardI) (auto simp: and_then_def split: prod.splits sum.splits
      dest!: forward_pair intro: order_trans)

lemma forward_in_context [forwards]: "forward m \<Longrightarrow> forward (in_context c m)"
  by (rule forwardI) (auto simp: in_context_def split: prod.splits sum.splits dest!: forward_pair)

lemma forward_attempt [forwards]: "forward m \<Longrightarrow> forward (attempt m)"
  by (rule forwardI) (auto simp: attempt_def split: prod.splits dest!: forward_pair)

lemma forward_owning [forwards]: "forward m \<Longrightarrow> forward (owning H n m)"
proof (rule forwardI)
  fix s r s'
  assume m: "forward m" and run: "owning H n m s = (r, s')"
  obtain r1 s1 where s1: "m s = (r1, s1)" by fastforce
  with m have "rt_now s \<le> rt_now s1" by (rule forward_pair)
  moreover obtain r2 s2 where s2: "close_handle H n s1 = (r2, s2)" by fastforce
  then have "rt_now s1 \<le> rt_now s2" by (rule forward_pair [OF forward_basic(7)])
  ultimately show "rt_now s \<le> rt_now s'"
    using run s1 s2 by (cases r1) (auto simp: owning_def)
qed

lemma forward_cases [forwards]:
  "(\<And>x. forward (f x)) \<Longrightarrow> (\<And>y. forward (g y)) \<Longrightarrow> forward (case r of Inl x \<Rightarrow> f x | Inr y \<Rightarrow> g y)"
  "forward m \<Longrightarrow> forward m' \<Longrightarrow> forward (if b then m else m')"
  "forward m \<Longrightarrow> (\<And>x. forward (f x)) \<Longrightarrow> forward (case x of None \<Rightarrow> m | Some x \<Rightarrow> f x)"
  by (auto split: sum.splits option.splits)

lemmas client_defs = client_new_def tune_frame_size_def set_limits_def probe_settings_def echo_def
  client_describe_def image_list_def client_reset_def client_set_state_def flash_def

lemma forward_connect [forwards]: "forward (connect H r)"
  by (cases r) (auto simp: connect_def connect_serial_def connect_can_def client_defs intro!: forwards)

lemma forward_connect_and_echo [forwards]: "forward (connect_and_echo H r)"
  by (auto simp: connect_and_echo_def echo_def intro!: forwards)

lemma connect_after_sleep:
  "connect_and_echo H r (snd (sleep H 500 s)) = (x, s') \<Longrightarrow> rt_now s + 500 \<le> rt_now s'"
  by (drule forward_pair [OF forward_connect_and_echo]) (auto simp: sleep_def split: prod.splits)

function reconnect_loop ::
    "'w host \<Rightarrow> resolved \<Rightarrow> nat \<Rightarrow> deploy_error option \<Rightarrow> ('w, client) rtm" where
  "reconnect_loop H resolved deadline last_err s =
     (if rt_now s < deadline then
        (case connect_and_echo H resolved (snd (sleep H 500 s)) of
           (Inr c, s') \<Rightarrow> (Inr c, s')
         | (Inl e, s') \<Rightarrow> reconnect_loop H resolved deadline (Some e) s')
      else (case last_err of
              Some e \<Rightarrow> (Inl (Context WaitedForReturn e), s)
            | None \<Rightarrow> (Inl NeverReturned, s)))"
  by pat_completeness auto
termination
  by (relation "measure (\<lambda>(H, resolved, deadline, last_err, s). deadline - rt_now s)")
    (auto dest: connect_after_sleep [OF sym])

declare reconnect_loop.simps [simp del]

definition reconnect :: "'w host \<Rightarrow> resolved \<Rightarrow> ('w, client) rtm" where
  "reconnect H resolved s = reconnect_loop H resolved (rt_now s + REBOOT_GRACE) None s"

subsection \<open>Deploying\<close>

text \<open>The progress callback: one line when two seconds have passed since the last, and one at the end.
  \<open>since\<close> is the time since the last line (at first, since the upload began).\<close>

fun advance :: "nat \<Rightarrow> (nat \<times> nat \<times> nat) list \<Rightarrow> printed list" where
  "advance since [] = []"
| "advance since ((elapsed, uploaded, whole) # reports) =
     (if 2000 \<le> since + elapsed \<or> uploaded = whole
      then Uploading uploaded whole (if whole = 0 then 0 else uploaded * 100 div whole) # advance 0 reports
      else advance (since + elapsed) reports)"

definition already_runs :: "bytes \<Rightarrow> image_slot list \<Rightarrow> bool" where
  "already_runs digest slots =
     (case find sl_active slots of
        Some active \<Rightarrow> sl_hash active = Some digest \<and> sl_confirmed active
      | None \<Rightarrow> False)"

definition known_unbootable :: "bytes \<Rightarrow> image_slot list \<Rightarrow> bool" where
  "known_unbootable digest slots = list_ex (\<lambda>s. sl_hash s = Some digest \<and> \<not> sl_bootable s) slots"

text \<open>What \<open>run\<close> does with its first connection, up to the reset; and how it goes on.\<close>

datatype staged = NothingToDo | WroteRunningSlot | TestMarked

definition mark_landed :: "'w host \<Rightarrow> client \<Rightarrow> bytes \<Rightarrow> ('w, staged) rtm" where
  "mark_landed H c digest =
     and_then (image_list H c) (\<lambda>slots.
       case find (\<lambda>s. sl_hash s = Some digest) slots of
         None \<Rightarrow> fail (NothingLanded digest)
       | Some landed \<Rightarrow>
           if sl_active landed \<and> sl_confirmed landed then
             and_then (say WrittenDirectly) (\<lambda>_.
             and_then (in_context ResetFailed (client_reset H c)) (\<lambda>_. ok WroteRunningSlot))
           else
             and_then (in_context MarkFailed (client_set_state H c digest False)) (\<lambda>_.
             and_then (say MarkedTest) (\<lambda>_.
             and_then (in_context ResetFailed (client_reset H c)) (\<lambda>_. ok TestMarked))))"

definition stage_image ::
    "'w host \<Rightarrow> (bytes \<Rightarrow> bytes) \<Rightarrow> deploy \<Rightarrow> client \<Rightarrow> bytes \<Rightarrow> bytes \<Rightarrow> ('w, staged) rtm" where
  "stage_image H sha D c img digest =
     and_then (in_context NoEchoAnswer (echo H c ''runtt'')) (\<lambda>_.
     and_then (identify H c) (\<lambda>_.
     and_then (image_list H c) (\<lambda>slots.
       if dp_skip_if_same D \<and> already_runs digest slots
       then and_then (say AlreadyRuns) (\<lambda>_. ok NothingToDo)
       else if known_unbootable digest slots then fail (MarkedUnbootable digest)
       else
         and_then (in_context UploadFailed (flash H sha c img (advance 0))) (\<lambda>_.
           mark_landed H c digest))))"

text \<open>What it does with the connection made after the reset.\<close>

definition confirm_image :: "'w host \<Rightarrow> client \<Rightarrow> bytes \<Rightarrow> ('w, client) rtm" where
  "confirm_image H c digest =
     and_then (image_list H c) (\<lambda>slots.
       case find sl_active slots of
         None \<Rightarrow>
           if list_ex (\<lambda>s. sl_hash s = Some digest \<and> sl_pending s) slots
           then fail PendingNotSwapped else fail UploadLost
       | Some active \<Rightarrow>
           if sl_hash active \<noteq> Some digest then fail (RunsAnother (sl_hash active) digest)
           else
             and_then (confirm_contract_matches H c) (\<lambda>_.
             and_then (in_context ConfirmFailed (client_set_state H c digest True)) (\<lambda>_.
             and_then (say ImageConfirmed) (\<lambda>_. ok c))))"

text \<open>A scope that drops the handle \<open>n\<close> at its end, whatever the result.\<close>

definition dropping :: "'w host \<Rightarrow> nat \<Rightarrow> ('w, 'a) rtm \<Rightarrow> ('w, 'a) rtm" where
  "dropping H n m s = (case m s of (r, s') \<Rightarrow> (r, snd (close_handle H n s')))"

definition read_image :: "'w host \<Rightarrow> usize_cfg \<Rightarrow> string \<Rightarrow> ('w, bytes \<times> image_info) rtm" where
  "read_image H cfg firmware =
     and_then (in_context (ReadFirmware firmware)
       (and_then (perform (h_read_file H firmware) (\<lambda>_. [])) raise_io)) (\<lambda>img.
       case mcuboot_parse cfg img of
         None \<Rightarrow> fail Crash
       | Some Panic \<Rightarrow> fail Crash
       | Some (Done (Inl e)) \<Rightarrow> fail (Context (NotMcuboot firmware) (ImageRefused e))
       | Some (Done (Inr info)) \<Rightarrow> ok (img, info))"

definition deploy_run ::
    "'w host \<Rightarrow> (bytes \<Rightarrow> bytes) \<Rightarrow> usize_cfg \<Rightarrow> deploy \<Rightarrow> ('w, client) rtm" where
  "deploy_run H sha cfg D =
     and_then (read_image H cfg (dp_firmware D)) (\<lambda>(img, info).
     and_then (connect H (dp_resolved D)) (\<lambda>c.
     and_then (owning H (cl_inner c) (stage_image H sha D c img (ii_digest info))) (\<lambda>st.
       case st of
         NothingToDo \<Rightarrow> ok c
       | WroteRunningSlot \<Rightarrow>
           dropping H (cl_inner c) (in_context DidNotComeBack (reconnect H (dp_resolved D)))
       | TestMarked \<Rightarrow>
           and_then (close_handle H (cl_inner c)) (\<lambda>_.
           and_then (in_context DidNotComeBack (reconnect H (dp_resolved D))) (\<lambda>c'.
             owning H (cl_inner c') (confirm_image H c' (ii_digest info)))))))"

text \<open>\<open>hex\<close>: two lower-case digits per byte.\<close>

definition hex :: "bytes \<Rightarrow> string" where
  "hex bs = concat (map (\<lambda>b. [digit_char (unat b div 16), digit_char (unat b mod 16)]) bs)"

subsection \<open>The resident loop\<close>

definition stop_asked :: "'w host \<Rightarrow> ('w, bool) rtm" where
  "stop_asked H = perform (h_stop H) (\<lambda>b. [EvStopAsked b])"

partial_function (option) resident_loop ::
    "'w host \<Rightarrow> client \<Rightarrow> nat \<Rightarrow> 'w rt \<Rightarrow> ((deploy_error + unit) \<times> 'w rt) option" where
  "resident_loop H c failures s =
     (case stop_asked H s of
        (stop1, s1) \<Rightarrow>
          if stop1 = Inr True then Some (Inr (), s1)
          else
            (case stop_asked H (snd (sleep H HEARTBEAT_INTERVAL s1)) of
               (stop2, s2) \<Rightarrow>
                 if stop2 = Inr True then Some (Inr (), s2)
                 else
                   (case echo H c ''hb'' s2 of
                      (answer, s3) \<Rightarrow>
                        if is_ok answer then resident_loop H c 0 s3
                        else if 2 \<le> failures + 1 then Some (Inl (LostContact (failures + 1)), s3)
                        else resident_loop H c (failures + 1) s3)))"

text \<open>\<open>stay_resident\<close> owns the client; the log channel is pumped by a thread of its own.\<close>

definition stay_resident ::
    "'w host \<Rightarrow> client \<Rightarrow> 'w rt \<Rightarrow> ((deploy_error + unit) \<times> 'w rt) option" where
  "stay_resident H c s =
     map_option (\<lambda>(r, s'). (r, snd (close_handle H (cl_inner c) s'))) (resident_loop H c 0 s)"

end
