(* ===== verification/Trace_Logic.thy ===== *)
theory Trace_Logic
  imports Flash
begin

text \<open>
  A small program logic for the runtime's operations: \<open>yields m Q\<close> says that whatever state \<open>m\<close>
  starts in, it only adds events to the trace, and \<open>Q\<close> holds of its result and the events added.
  One rule per way of composing operations, one fact per operation of the client.
\<close>

definition yields :: "('w, 'a) rtm \<Rightarrow> (deploy_error + 'a \<Rightarrow> event list \<Rightarrow> bool) \<Rightarrow> bool" where
  "yields m Q \<longleftrightarrow> (\<forall>s r s'. m s = (r, s') \<longrightarrow>
     (\<exists>tr. rt_trace s' = rt_trace s @ tr \<and> Q r tr))"

lemma yieldsI:
  "(\<And>s r s'. m s = (r, s') \<Longrightarrow> \<exists>tr. rt_trace s' = rt_trace s @ tr \<and> Q r tr) \<Longrightarrow> yields m Q"
  by (simp add: yields_def)

lemma yieldsD:
  "yields m Q \<Longrightarrow> m s = (r, s') \<Longrightarrow> \<exists>tr. rt_trace s' = rt_trace s @ tr \<and> Q r tr"
  by (simp add: yields_def)

lemma yields_trace:
  "yields m Q \<Longrightarrow> m s = (r, s') \<Longrightarrow> rt_trace s' = rt_trace s @ tr \<Longrightarrow> Q r tr"
  by (drule (1) yieldsD) simp

lemma yields_weaken: "yields m Q \<Longrightarrow> (\<And>r tr. Q r tr \<Longrightarrow> R r tr) \<Longrightarrow> yields m R"
  by (fastforce simp: yields_def)

lemma yields_both: "yields m Q \<Longrightarrow> yields m R \<Longrightarrow> yields m (\<lambda>r tr. Q r tr \<and> R r tr)"
  by (fastforce simp: yields_def)

subsection \<open>Rules\<close>

lemma yields_ok: "yields (ok a) (\<lambda>r tr. r = Inr a \<and> tr = [])"
  by (simp add: yields_def ok_def)

lemma yields_fail: "yields (fail e) (\<lambda>r tr. r = Inl e \<and> tr = [])"
  by (simp add: yields_def fail_def)

lemma yields_say: "yields (say p) (\<lambda>r tr. r = Inr () \<and> tr = [EvPrint p])"
  by (simp add: yields_def say_def)

lemma yields_raise: "yields (raise_io x) (\<lambda>r tr. tr = [] \<and> is_ok r = is_ok x \<and> ok_value r = ok_value x)"
  by (cases x) (simp_all add: yields_def raise_io_def ok_def fail_def is_ok_def ok_value_def)

lemma yields_perform: "yields (perform call ev) (\<lambda>r tr. \<exists>x. r = Inr x \<and> tr = ev x)"
  by (auto simp: yields_def perform_def split: prod.splits)

lemma yields_sleep: "yields (sleep H ms) (\<lambda>r tr. r = Inr () \<and> tr = [EvSleep ms])"
  by (auto simp: yields_def sleep_def split: prod.splits)

lemma yields_close: "yields (close_handle H n) (\<lambda>r tr. r = Inr () \<and> tr = [EvClosed n])"
  by (auto simp: yields_def close_handle_def perform_def split: prod.splits)

lemma yields_open:
  "yields (open_handle call c) (\<lambda>r tr. (\<exists>n. r = Inr n \<and> tr = [EvOpened n]) \<or>
     (\<exists>e. r = Inl e \<and> tr = [EvOpenFailed]))"
  by (auto simp: yields_def open_handle_def Let_def split: prod.splits sum.splits)

lemma yields_and_then:
  assumes "yields m Q" and "\<And>a. yields (f a) (R a)"
  shows "yields (and_then m f) (\<lambda>r tr. (\<exists>e. r = Inl e \<and> Q (Inl e) tr) \<or>
    (\<exists>a t1 t2. tr = t1 @ t2 \<and> Q (Inr a) t1 \<and> R a r t2))"
proof (rule yieldsI)
  fix s r s'
  assume run: "and_then m f s = (r, s')"
  obtain r1 s1 where m: "m s = (r1, s1)" by fastforce
  from yieldsD [OF assms(1) m] obtain t1 where t1: "rt_trace s1 = rt_trace s @ t1" "Q r1 t1" by blast
  show "\<exists>tr. rt_trace s' = rt_trace s @ tr \<and> ((\<exists>e. r = Inl e \<and> Q (Inl e) tr) \<or>
    (\<exists>a t1 t2. tr = t1 @ t2 \<and> Q (Inr a) t1 \<and> R a r t2))"
  proof (cases r1)
    case (Inl e)
    with run m t1 show ?thesis by (auto simp: and_then_def)
  next
    case (Inr a)
    with run m have "f a s1 = (r, s')" by (simp add: and_then_def)
    from yieldsD [OF assms(2) this] obtain t2 where "rt_trace s' = rt_trace s1 @ t2" "R a r t2" by blast
    with t1 Inr show ?thesis by (intro exI [of _ "t1 @ t2"]) auto
  qed
qed

lemma yields_in_context:
  assumes "yields m Q"
  shows "yields (in_context c m) (\<lambda>r tr. (\<exists>e. r = Inl (Context c e) \<and> Q (Inl e) tr) \<or>
    (\<exists>a. r = Inr a \<and> Q (Inr a) tr))"
  using assms by (fastforce simp: yields_def in_context_def split: prod.splits sum.splits)

lemma yields_attempt:
  assumes "yields m Q"
  shows "yields (attempt m) (\<lambda>r tr. \<exists>x. r = Inr x \<and> Q x tr)"
  using assms by (fastforce simp: yields_def attempt_def split: prod.splits)

lemma yields_owning:
  assumes "yields m Q"
  shows "yields (owning H n m) (\<lambda>r tr. (\<exists>a. r = Inr a \<and> Q (Inr a) tr) \<or>
    (\<exists>e t. r = Inl e \<and> tr = t @ [EvClosed n] \<and> Q (Inl e) t))"
proof (rule yieldsI)
  fix s r s'
  assume run: "owning H n m s = (r, s')"
  obtain r1 s1 where m: "m s = (r1, s1)" by fastforce
  from yieldsD [OF assms m] obtain t where t: "rt_trace s1 = rt_trace s @ t" "Q r1 t" by blast
  obtain r2 s2 where close: "close_handle H n s1 = (r2, s2)" by fastforce
  have "rt_trace s2 = rt_trace s1 @ [EvClosed n]" using yieldsD [OF yields_close close] by auto
  with run m t close show "\<exists>tr. rt_trace s' = rt_trace s @ tr \<and> ((\<exists>a. r = Inr a \<and> Q (Inr a) tr) \<or>
    (\<exists>e t. r = Inl e \<and> tr = t @ [EvClosed n] \<and> Q (Inl e) t))"
    by (cases r1) (auto simp: owning_def)
qed

lemma yields_dropping:
  assumes "yields m Q"
  shows "yields (dropping H n m) (\<lambda>r tr. \<exists>t. tr = t @ [EvClosed n] \<and> Q r t)"
proof (rule yieldsI)
  fix s r s'
  assume run: "dropping H n m s = (r, s')"
  obtain r1 s1 where m: "m s = (r1, s1)" by fastforce
  from yieldsD [OF assms m] obtain t where t: "rt_trace s1 = rt_trace s @ t" "Q r1 t" by blast
  obtain r2 s2 where close: "close_handle H n s1 = (r2, s2)" by fastforce
  have "rt_trace s2 = rt_trace s1 @ [EvClosed n]" using yieldsD [OF yields_close close] by auto
  with run m t close show "\<exists>tr. rt_trace s' = rt_trace s @ tr \<and> (\<exists>t. tr = t @ [EvClosed n] \<and> Q r t)"
    by (auto simp: dropping_def)
qed

subsection \<open>The client's operations\<close>

lemma is_ok_simps [simp]: "is_ok (Inr a)" "\<not> is_ok (Inl e)"
  "ok_value (Inr a) = Some a" "ok_value (Inl e) = None"
  by (simp_all add: is_ok_def ok_value_def)

lemma yields_call:
  assumes "\<And>x. Q (raise_result x) (ev x)"
    and "\<And>x :: string + 'a. raise_result x = map_sum (\<lambda>e. Context c (Cause e)) id x"
  shows "yields (in_context c (and_then (perform call ev) raise_io)) Q"
  unfolding yields_def
proof (intro allI impI)
  fix s r s'
  assume run: "in_context c (and_then (perform call ev) raise_io) s = (r, s')"
  obtain x dt w where call: "call (rt_world s) = (x, dt, w)" by (metis prod_cases3)
  from run call have "rt_trace s' = rt_trace s @ ev x \<and> r = raise_result x"
    unfolding assms(2)
    by (cases x) (auto simp: in_context_def and_then_def perform_def raise_io_def ok_def fail_def)
  with assms(1) show "\<exists>tr. rt_trace s' = rt_trace s @ tr \<and> Q r tr" by auto
qed

lemma yields_echo: "yields (echo H c p) (\<lambda>r tr. tr = [EvEcho (cl_inner c) p (is_ok r)])"
  unfolding echo_def by (rule yields_call [OF _ refl]) (simp add: is_ok_def map_sum_def split: sum.split)

lemma yields_describe: "yields (client_describe H c) (\<lambda>r tr. tr = [EvDescribe (cl_inner c) (ok_value r)])"
  unfolding client_describe_def by (rule yields_call [OF _ refl]) (simp add: ok_value_def map_sum_def split: sum.split)

lemma yields_reset: "yields (client_reset H c) (\<lambda>r tr. tr = [EvReset (cl_inner c) (is_ok r)])"
  unfolding client_reset_def by (rule yields_call [OF _ refl]) (simp add: is_ok_def map_sum_def split: sum.split)

lemma yields_set_state:
  "yields (client_set_state H c h b) (\<lambda>r tr. tr = [EvSetState (cl_inner c) h b (is_ok r)])"
  unfolding client_set_state_def
  by (rule yields_call [OF _ refl]) (simp add: is_ok_def map_sum_def split: sum.split)

lemma yields_image_list: "yields (image_list H c) (\<lambda>r tr. tr = [EvList (cl_inner c) (ok_value r)])"
  unfolding yields_def image_list_def
  by (auto simp: in_context_def and_then_def perform_def raise_io_def ok_def fail_def
      split: prod.splits sum.splits)

lemma yields_flash:
  "yields (flash H sha c img f) (\<lambda>r tr. \<exists>ps. tr = map EvPrint ps @ [EvUpload (cl_inner c) img (is_ok r)])"
  unfolding yields_def flash_def
  by (auto simp: in_context_def and_then_def perform_def raise_io_def ok_def fail_def
      split: prod.splits sum.splits)

lemma yields_set_limits:
  "yields (set_limits H c t n) (\<lambda>r tr. r = Inr () \<and> tr = [EvTimeout (cl_inner c) t, EvRetries (cl_inner c) n])"
  unfolding set_limits_def
  by (rule yields_weaken [OF yields_and_then [OF yields_perform yields_perform]]) auto

lemma yields_probe:
  assumes "yields scope Q"
  shows "yields (probe_settings H c t n scope) (\<lambda>r tr. \<exists>x tr1. r = Inr x \<and> Q x tr1 \<and>
    tr = [EvTimeout (cl_inner c) t, EvRetries (cl_inner c) n] @ tr1 @
      [EvTimeout (cl_inner c) (cl_timeout c), EvRetries (cl_inner c) DEFAULT_RETRIES])"
  unfolding probe_settings_def
  by (rule yields_weaken [OF yields_and_then [OF yields_set_limits
        yields_and_then [OF yields_attempt [OF assms] yields_and_then [OF yields_set_limits yields_ok]]]]) auto

lemma yields_client_new:
  "yields (client_new H n t) (\<lambda>r tr.
     (r = Inr \<lparr>cl_inner = n, cl_timeout = t\<rparr> \<and> tr = [EvTimeout n t]) \<or>
     (\<exists>e. r = Inl e \<and> tr = [EvTimeout n t, EvClosed n]))"
  unfolding client_new_def yields_def
  by (auto simp: owning_def close_handle_def and_then_def perform_def ok_def fail_def
      split: prod.splits sum.splits)

lemma yields_tune: "yields (tune_frame_size H c) (\<lambda>r tr. r = Inr () \<and> tr = [EvAutoFrame (cl_inner c)])"
  unfolding tune_frame_size_def
  by (rule yields_weaken [OF yields_and_then [OF yields_perform yields_ok]]) auto

lemma yields_sum:
  "(\<And>x. yields (f x) (Q x)) \<Longrightarrow> (\<And>y. yields (g y) (R y)) \<Longrightarrow>
    yields (case x of Inl x \<Rightarrow> f x | Inr y \<Rightarrow> g y) (\<lambda>r tr. case x of Inl x \<Rightarrow> Q x r tr | Inr y \<Rightarrow> R y r tr)"
  by (auto split: sum.splits)

lemma yields_if:
  "(b \<Longrightarrow> yields m Q) \<Longrightarrow> (\<not> b \<Longrightarrow> yields m' R) \<Longrightarrow>
    yields (if b then m else m') (\<lambda>r tr. if b then Q r tr else R r tr)"
  by auto

lemma yields_option:
  "yields m Q \<Longrightarrow> (\<And>x. yields (f x) (R x)) \<Longrightarrow>
    yields (case y of None \<Rightarrow> m | Some x \<Rightarrow> f x) (\<lambda>r tr. case y of None \<Rightarrow> Q r tr | Some x \<Rightarrow> R x r tr)"
  by (auto split: option.splits)

end
