(* ===== verification/Deploy_Safety.thy ===== *)
theory Deploy_Safety
  imports Trace_Logic
begin

text \<open>
  What the deploy sequence can and cannot do, whatever the host, the board and the timing are: the
  order of its writes, the gate in front of a confirmation, the settings an upload runs under, and
  the handles it opens and closes.
\<close>

subsection \<open>Connecting\<close>

definition linked :: "client \<Rightarrow> event list" where
  "linked c = [EvOpened (cl_inner c), EvTimeout (cl_inner c) SMP_TIMEOUT, EvAutoFrame (cl_inner c)]"

definition link_failed :: "event list \<Rightarrow> bool" where
  "link_failed tr \<longleftrightarrow> tr = [] \<or> tr = [EvOpenFailed] \<or> (\<exists>n. tr = [EvOpened n, EvClosed n]) \<or>
     (\<exists>n t. tr = [EvOpened n, EvTimeout n t, EvClosed n])"

definition link_post :: "deploy_error + client \<Rightarrow> event list \<Rightarrow> bool" where
  "link_post r tr \<longleftrightarrow>
     (\<exists>n. r = Inr \<lparr>cl_inner = n, cl_timeout = SMP_TIMEOUT\<rparr> \<and> tr = [EvOpened n, EvTimeout n SMP_TIMEOUT]) \<or>
     (\<not> is_ok r \<and> link_failed tr)"

lemma yields_link: "yields (and_then (open_handle call x) (\<lambda>ch. client_new H ch SMP_TIMEOUT)) link_post"
  by (rule yields_weaken [OF yields_and_then [OF yields_open yields_client_new]])
    (auto simp: link_failed_def link_post_def)

lemma yields_link_demuxed:
  "yields (and_then (open_handle call x) (\<lambda>ch.
      and_then (owning H ch (and_then (perform (h_demux H ch SMP_TIMEOUT) (\<lambda>_. [])) raise_io)) (\<lambda>_.
        client_new H ch SMP_TIMEOUT))) link_post"
  by (rule yields_weaken [OF yields_and_then [OF yields_open yields_and_then [OF
        yields_owning [OF yields_and_then [OF yields_perform yields_raise]] yields_client_new]]])
    (auto simp: link_failed_def link_post_def)

lemma yields_link_fail: "yields (fail e) link_post"
  by (rule yields_weaken [OF yields_fail]) (simp add: link_failed_def link_post_def)

lemma yields_connect_serial: "yields (connect_serial H path demux) link_post"
  by (cases demux) (simp_all add: connect_serial_def yields_link_fail yields_link yields_link_demuxed)

lemma yields_connect:
  "yields (connect H r) (\<lambda>r tr. (\<exists>c. r = Inr c \<and> cl_timeout c = SMP_TIMEOUT \<and> tr = linked c) \<or>
     (\<not> is_ok r \<and> link_failed tr))"
proof -
  have "yields (case r of SerialPort mgmt log \<Rightarrow> connect_serial H mgmt (log = None)
      | CanNode iface node_id _ \<Rightarrow> connect_can H iface node_id) link_post"
    by (cases r) (simp_all add: yields_connect_serial connect_can_def yields_link)
  from yields_and_then [OF this yields_and_then [OF yields_tune yields_ok]] show ?thesis
    unfolding connect_def by (rule yields_weaken) (auto simp: linked_def link_post_def)
qed

definition attempt_failed :: "event list \<Rightarrow> bool" where
  "attempt_failed tr \<longleftrightarrow> link_failed tr \<or>
     (\<exists>c. tr = linked c @ [EvEcho (cl_inner c) ''runtt'' False, EvClosed (cl_inner c)])"

lemma yields_connect_and_echo:
  "yields (connect_and_echo H r) (\<lambda>r tr.
     (\<exists>c. r = Inr c \<and> cl_timeout c = SMP_TIMEOUT \<and> tr = linked c @ [EvEcho (cl_inner c) ''runtt'' True]) \<or>
     (\<not> is_ok r \<and> attempt_failed tr))"
  unfolding connect_and_echo_def
  by (rule yields_weaken [OF yields_and_then [OF yields_connect
        yields_owning [OF yields_and_then [OF yields_echo yields_ok]]]])
    (auto simp: attempt_failed_def)

text \<open>The trace of failed attempts to reconnect.\<close>

inductive retries :: "nat \<Rightarrow> event list \<Rightarrow> bool" where
  none: "retries 0 []"
| more: "attempt_failed t \<Longrightarrow> retries n tr \<Longrightarrow> retries (Suc n) (EvSleep 500 # t @ tr)"

inductive_cases retries_SucE: "retries (Suc n) tr"

lemma yields_reconnect_loop:
  "reconnect_loop H res deadline last_err s = (r, s') \<Longrightarrow>
    (\<exists>n t. retries n t \<and> rt_now s + 500 * n \<le> rt_now s' \<and> (0 < n \<longrightarrow> rt_now s + 500 * (n - 1) < deadline) \<and>
      ((\<exists>e. r = Inl e \<and> rt_trace s' = rt_trace s @ t \<and> deadline \<le> rt_now s') \<or>
       (\<exists>c. r = Inr c \<and> cl_timeout c = SMP_TIMEOUT \<and> rt_now s + 500 * n < deadline \<and>
         rt_trace s' = rt_trace s @ t @ [EvSleep 500] @ linked c @ [EvEcho (cl_inner c) ''runtt'' True])))"
proof (induction H res deadline last_err s arbitrary: r s' rule: reconnect_loop.induct)
  case (1 H res deadline last_err s)
  show ?case
  proof (cases "rt_now s < deadline")
    case False
    with "1.prems" show ?thesis
      by (intro exI [of _ 0] exI [of _ "[]"])
        (auto simp: reconnect_loop.simps [of H res deadline last_err s] retries.none split: option.splits)
  next
    case True
    let ?s1 = "snd (sleep H 500 s)"
    obtain r2 s2 where conn: "connect_and_echo H res ?s1 = (r2, s2)" by fastforce
    have slept: "rt_trace ?s1 = rt_trace s @ [EvSleep 500]"
      by (simp add: sleep_def split: prod.splits)
    have later: "rt_now s + 500 \<le> rt_now s2" using conn by (rule connect_after_sleep)
    from yieldsD [OF yields_connect_and_echo conn] obtain t where
      t: "rt_trace s2 = rt_trace s @ EvSleep 500 # t"
      and cases: "(\<exists>c. r2 = Inr c \<and> cl_timeout c = SMP_TIMEOUT \<and>
          t = linked c @ [EvEcho (cl_inner c) ''runtt'' True]) \<or> (\<not> is_ok r2 \<and> attempt_failed t)"
      by (auto simp: slept)
    show ?thesis
    proof (cases r2)
      case (Inr c)
      with "1.prems" True conn cases t later show ?thesis
        by (intro exI [of _ 0] exI [of _ "[]"])
          (auto simp: reconnect_loop.simps [of H res deadline last_err s] retries.none)
    next
      case (Inl e)
      with True conn "1.prems" have "reconnect_loop H res deadline (Some e) s2 = (r, s')"
        by (simp add: reconnect_loop.simps [of H res deadline last_err s])
      from "1.IH" [OF True conn [symmetric] Inl this] obtain n u where
        u: "retries n u" "rt_now s2 + 500 * n \<le> rt_now s'"
          "0 < n \<longrightarrow> rt_now s2 + 500 * (n - 1) < deadline"
          "(\<exists>e. r = Inl e \<and> rt_trace s' = rt_trace s2 @ u \<and> deadline \<le> rt_now s') \<or>
           (\<exists>c. r = Inr c \<and> cl_timeout c = SMP_TIMEOUT \<and> rt_now s2 + 500 * n < deadline \<and>
             rt_trace s' = rt_trace s2 @ u @ [EvSleep 500] @ linked c @ [EvEcho (cl_inner c) ''runtt'' True])"
        by blast
      have "retries (Suc n) (EvSleep 500 # t @ u)"
        using cases Inl u(1) by (auto intro: retries.more)
      moreover have "rt_now s + 500 * n < deadline"
        using u(3) later True by (cases n) auto
      ultimately show ?thesis
        using u later t by (intro exI [of _ "Suc n"] exI [of _ "EvSleep 500 # t @ u"]) auto
    qed
  qed
qed

definition reconnect_post :: "deploy_error + client \<Rightarrow> event list \<Rightarrow> bool" where
  "reconnect_post r tr \<longleftrightarrow> (\<exists>n t. retries n t \<and> n \<le> 60 \<and>
     ((\<not> is_ok r \<and> tr = t) \<or>
      (\<exists>c. r = Inr c \<and> cl_timeout c = SMP_TIMEOUT \<and>
        tr = t @ [EvSleep 500] @ linked c @ [EvEcho (cl_inner c) ''runtt'' True])))"

lemma yields_reconnect: "yields (reconnect H res) reconnect_post"
proof (rule yieldsI)
  fix s r s'
  assume "reconnect H res s = (r, s')"
  then have run: "reconnect_loop H res (rt_now s + REBOOT_GRACE) None s = (r, s')"
    by (simp add: reconnect_def)
  from yields_reconnect_loop [OF run] obtain n t where
    "retries n t" "0 < n \<longrightarrow> rt_now s + 500 * (n - 1) < rt_now s + REBOOT_GRACE"
    "(\<exists>e. r = Inl e \<and> rt_trace s' = rt_trace s @ t) \<or> (\<exists>c. r = Inr c \<and> cl_timeout c = SMP_TIMEOUT \<and>
      rt_trace s' = rt_trace s @ t @ [EvSleep 500] @ linked c @ [EvEcho (cl_inner c) ''runtt'' True])"
    by blast
  moreover from this(2) have "n \<le> 60" by (simp add: REBOOT_GRACE_def) linarith
  ultimately show "\<exists>tr. rt_trace s' = rt_trace s @ tr \<and> reconnect_post r tr"
    unfolding reconnect_post_def by (elim disjE) fastforce+
qed

subsection \<open>The two connections\<close>

definition probe_events :: "client \<Rightarrow> describe option \<Rightarrow> event list" where
  "probe_events c d =
     [EvTimeout (cl_inner c) PROBE_TIMEOUT, EvRetries (cl_inner c) 1, EvDescribe (cl_inner c) d,
      EvTimeout (cl_inner c) (cl_timeout c), EvRetries (cl_inner c) DEFAULT_RETRIES]"

text \<open>The contract gate: no answer at all, or an answer with the major version the runtime implements.\<close>

definition acceptable :: "describe option \<Rightarrow> bool" where
  "acceptable d \<longleftrightarrow> (\<forall>a. d = Some a \<longrightarrow> contract_major a = Some CONTRACT_MAJOR)"

definition runs :: "bytes \<Rightarrow> image_slot list \<Rightarrow> bool" where
  "runs digest slots \<longleftrightarrow> (\<exists>a. find sl_active slots = Some a \<and> sl_hash a = Some digest)"

text \<open>The first slot that holds the image is the running one, confirmed.\<close>

definition wrote_running :: "bytes \<Rightarrow> image_slot list \<Rightarrow> bool" where
  "wrote_running digest slots \<longleftrightarrow> (\<exists>l. find (\<lambda>s. sl_hash s = Some digest) slots = Some l \<and>
     sl_active l \<and> sl_confirmed l)"

text \<open>Events that write nothing to the board's flash and do not reboot it.\<close>

fun idle_event :: "event \<Rightarrow> bool" where
  "idle_event (EvUpload _ _ _) = False"
| "idle_event (EvSetState _ _ _ _) = False"
| "idle_event (EvReset _ _) = False"
| "idle_event _ = True"

definition idle :: "event list \<Rightarrow> bool" where
  "idle tr \<longleftrightarrow> list_all idle_event tr"

lemma idle_simps [simp]:
  "idle []" "idle (e # tr) \<longleftrightarrow> idle_event e \<and> idle tr" "idle (tr @ u) \<longleftrightarrow> idle tr \<and> idle u"
  "idle (map EvPrint ps)" "idle (probe_events c d)" "idle (linked c)"
  by (auto simp: idle_def probe_events_def linked_def list_all_iff)

text \<open>Idle events that open and close nothing either.\<close>

definition quiet :: "event list \<Rightarrow> bool" where
  "quiet tr \<longleftrightarrow> list_all (\<lambda>e. idle_event e \<and> (\<forall>n. e \<noteq> EvOpened n \<and> e \<noteq> EvClosed n)) tr"

lemma quiet_simps [simp]:
  "quiet []" "quiet (e # tr) \<longleftrightarrow> idle_event e \<and> (\<forall>n. e \<noteq> EvOpened n \<and> e \<noteq> EvClosed n) \<and> quiet tr"
  "quiet (tr @ u) \<longleftrightarrow> quiet tr \<and> quiet u" "quiet (map EvPrint ps)" "quiet (probe_events c d)"
  by (auto simp: quiet_def probe_events_def list_all_iff)

lemma quiet_idle: "quiet tr \<Longrightarrow> idle tr"
  by (auto simp: quiet_def idle_def list_all_iff)

definition only_prints :: "event list \<Rightarrow> bool" where
  "only_prints tr \<longleftrightarrow> (\<exists>ps. tr = map EvPrint ps)"

lemma only_prints_simps [simp]: "only_prints []" "only_prints [EvPrint p]"
  by (auto simp: only_prints_def intro: exI [of _ "[p]"])

lemma only_prints_append: "only_prints t \<Longrightarrow> only_prints u \<Longrightarrow> only_prints (t @ u)"
  by (auto simp: only_prints_def) (metis map_append)

lemma prints_basic:
  "yields (ok a) (\<lambda>r. only_prints)" "yields (fail e) (\<lambda>r. only_prints)" "yields (say p) (\<lambda>r. only_prints)"
  "yields (when_do b (say p)) (\<lambda>r. only_prints)"
  "yields (case x of None \<Rightarrow> ok () | Some y \<Rightarrow> say (f y)) (\<lambda>r. only_prints)"
  by (auto simp: yields_def say_def ok_def fail_def when_do_def split: option.splits)

lemma prints_join:
  "yields m (\<lambda>r. only_prints) \<Longrightarrow> (\<And>a. yields (f a) (\<lambda>r. only_prints)) \<Longrightarrow>
    yields (and_then m f) (\<lambda>r. only_prints)"
  by (rule yields_weaken [OF yields_and_then]) (auto intro: only_prints_append)

lemma yields_report: "yields (report d) (\<lambda>r. only_prints)"
  unfolding report_def
  by (cases "contract_major d"; cases "de_img d = Some False")
    (auto intro!: prints_join prints_basic)

lemma yields_identify:
  "yields (identify H c) (\<lambda>r tr. \<exists>d ps. tr = probe_events c d @ map EvPrint ps)"
proof -
  have "yields (case x of Inl _ \<Rightarrow> ok () | Inr d \<Rightarrow> report d) (\<lambda>r. only_prints)" for x
    by (cases x) (simp_all add: yields_report prints_basic)
  from yields_and_then [OF yields_probe [OF yields_describe] this] show ?thesis
    unfolding identify_def by (rule yields_weaken) (auto simp: probe_events_def only_prints_def)
qed

lemma yields_confirm_contract:
  "yields (confirm_contract_matches H c) (\<lambda>r tr. \<exists>d. tr = probe_events c d \<and> (is_ok r \<longrightarrow> acceptable d))"
proof -
  have "yields (case x of Inl _ \<Rightarrow> ok () | Inr d \<Rightarrow>
      (case contract_major d of None \<Rightarrow> fail (UnparseableContract (de_contract d))
       | Some major \<Rightarrow> if major \<noteq> CONTRACT_MAJOR then fail (ContractRefused (de_contract d)) else ok ()))
      (\<lambda>r tr. tr = [] \<and> (is_ok r \<longrightarrow> acceptable (ok_value x)))" for x :: "deploy_error + describe"
    by (cases x) (auto simp: yields_def ok_def fail_def acceptable_def split: option.splits)
  from yields_and_then [OF yields_probe [OF yields_describe] this] show ?thesis
    unfolding confirm_contract_matches_def by (rule yields_weaken) (auto simp: probe_events_def)
qed

definition mark_post :: "client \<Rightarrow> bytes \<Rightarrow> deploy_error + staged \<Rightarrow> event list \<Rightarrow> bool" where
  "mark_post c digest r tr \<longleftrightarrow>
     (\<exists>slots. r = Inr TestMarked \<and> \<not> wrote_running digest slots \<and>
        tr = [EvList (cl_inner c) (Some slots), EvSetState (cl_inner c) digest False True,
              EvPrint MarkedTest, EvReset (cl_inner c) True]) \<or>
     (\<exists>slots. r = Inr WroteRunningSlot \<and> wrote_running digest slots \<and>
        tr = [EvList (cl_inner c) (Some slots), EvPrint WrittenDirectly, EvReset (cl_inner c) True]) \<or>
     (\<not> is_ok r \<and> (\<exists>sl rest. tr = EvList (cl_inner c) sl # rest \<and>
        (rest = [] \<or> rest = [EvSetState (cl_inner c) digest False False] \<or>
         rest = [EvSetState (cl_inner c) digest False True, EvPrint MarkedTest, EvReset (cl_inner c) False] \<or>
         rest = [EvPrint WrittenDirectly, EvReset (cl_inner c) False])))"

lemma yields_mark_landed: "yields (mark_landed H c digest) (mark_post c digest)"
proof -
  have direct: "yields (and_then (say WrittenDirectly) (\<lambda>_.
      and_then (in_context ResetFailed (client_reset H c)) (\<lambda>_. ok WroteRunningSlot)))
    (\<lambda>r tr. (r = Inr WroteRunningSlot \<and> tr = [EvPrint WrittenDirectly, EvReset (cl_inner c) True]) \<or>
      (\<not> is_ok r \<and> tr = [EvPrint WrittenDirectly, EvReset (cl_inner c) False]))"
    by (rule yields_weaken [OF yields_and_then [OF yields_say
          yields_and_then [OF yields_in_context [OF yields_reset] yields_ok]]]) auto
  have marked: "yields (and_then (in_context MarkFailed (client_set_state H c digest False)) (\<lambda>_.
      and_then (say MarkedTest) (\<lambda>_.
      and_then (in_context ResetFailed (client_reset H c)) (\<lambda>_. ok TestMarked))))
    (\<lambda>r tr. (r = Inr TestMarked \<and> tr = [EvSetState (cl_inner c) digest False True, EvPrint MarkedTest,
        EvReset (cl_inner c) True]) \<or>
      (\<not> is_ok r \<and> (tr = [EvSetState (cl_inner c) digest False False] \<or>
        tr = [EvSetState (cl_inner c) digest False True, EvPrint MarkedTest, EvReset (cl_inner c) False])))"
    by (rule yields_weaken [OF yields_and_then [OF yields_in_context [OF yields_set_state]
          yields_and_then [OF yields_say yields_and_then [OF yields_in_context [OF yields_reset] yields_ok]]]])
      auto
  have "yields (case find (\<lambda>s. sl_hash s = Some digest) slots of None \<Rightarrow> fail (NothingLanded digest)
      | Some landed \<Rightarrow> if sl_active landed \<and> sl_confirmed landed
          then and_then (say WrittenDirectly) (\<lambda>_.
            and_then (in_context ResetFailed (client_reset H c)) (\<lambda>_. ok WroteRunningSlot))
          else and_then (in_context MarkFailed (client_set_state H c digest False)) (\<lambda>_.
            and_then (say MarkedTest) (\<lambda>_.
            and_then (in_context ResetFailed (client_reset H c)) (\<lambda>_. ok TestMarked))))
    (\<lambda>r tr. mark_post c digest r (EvList (cl_inner c) (Some slots) # tr))" for slots
    by (auto split: option.split
        intro!: yields_weaken [OF direct] yields_weaken [OF marked] yields_weaken [OF yields_fail]
        simp: mark_post_def wrote_running_def)
  from yields_and_then [OF yields_image_list this] show ?thesis
    unfolding mark_landed_def by (rule yields_weaken) (auto simp: mark_post_def)
qed

definition intro_events :: "client \<Rightarrow> describe option \<Rightarrow> printed list \<Rightarrow> image_slot list \<Rightarrow> event list" where
  "intro_events c d ps slots =
     EvEcho (cl_inner c) ''runtt'' True # probe_events c d @ map EvPrint ps @ [EvList (cl_inner c) (Some slots)]"

definition stage_post ::
    "deploy \<Rightarrow> client \<Rightarrow> bytes \<Rightarrow> bytes \<Rightarrow> deploy_error + staged \<Rightarrow> event list \<Rightarrow> bool" where
  "stage_post D c img digest r tr \<longleftrightarrow>
     (\<exists>d ps slots. r = Inr NothingToDo \<and> dp_skip_if_same D \<and> already_runs digest slots \<and>
        tr = intro_events c d ps slots @ [EvPrint AlreadyRuns]) \<or>
     (\<exists>d ps slots ps' t. \<not> (dp_skip_if_same D \<and> already_runs digest slots) \<and>
        \<not> known_unbootable digest slots \<and>
        ((tr = intro_events c d ps slots @ map EvPrint ps' @ EvUpload (cl_inner c) img True # t \<and>
            mark_post c digest r t) \<or>
         (\<not> is_ok r \<and> tr = intro_events c d ps slots @ map EvPrint ps' @ [EvUpload (cl_inner c) img False]))) \<or>
     (\<not> is_ok r \<and> quiet tr)"

lemma yields_stage_image: "yields (stage_image H sha D c img digest) (stage_post D c img digest)"
proof -
  define go where "go slots = (if dp_skip_if_same D \<and> already_runs digest slots
       then and_then (say AlreadyRuns) (\<lambda>_. ok NothingToDo)
       else if known_unbootable digest slots then fail (MarkedUnbootable digest)
       else and_then (in_context UploadFailed (flash H sha c img (advance 0))) (\<lambda>_. mark_landed H c digest))"
    for slots
  define go_post where "go_post slots r tr \<longleftrightarrow>
     (r = Inr NothingToDo \<and> dp_skip_if_same D \<and> already_runs digest slots \<and> tr = [EvPrint AlreadyRuns]) \<or>
     (\<exists>ps' t. \<not> (dp_skip_if_same D \<and> already_runs digest slots) \<and> \<not> known_unbootable digest slots \<and>
        ((tr = map EvPrint ps' @ EvUpload (cl_inner c) img True # t \<and> mark_post c digest r t) \<or>
         (\<not> is_ok r \<and> tr = map EvPrint ps' @ [EvUpload (cl_inner c) img False]))) \<or>
     (\<not> is_ok r \<and> quiet tr)" for slots r tr
  have skip: "yields (and_then (say AlreadyRuns) (\<lambda>_. ok NothingToDo))
      (\<lambda>r tr. r = Inr NothingToDo \<and> tr = [EvPrint AlreadyRuns])"
    by (rule yields_weaken [OF yields_and_then [OF yields_say yields_ok]]) auto
  have upload: "yields (and_then (in_context UploadFailed (flash H sha c img (advance 0))) (\<lambda>_. mark_landed H c digest))
      (\<lambda>r tr. \<exists>ps' t. (tr = map EvPrint ps' @ EvUpload (cl_inner c) img True # t \<and> mark_post c digest r t) \<or>
         (\<not> is_ok r \<and> tr = map EvPrint ps' @ [EvUpload (cl_inner c) img False]))"
    by (rule yields_weaken [OF yields_and_then [OF yields_in_context [OF yields_flash] yields_mark_landed]])
      fastforce
  have "yields (go slots) (go_post slots)" for slots
    unfolding go_def go_post_def
    by (auto intro: yields_weaken [OF skip] yields_weaken [OF upload] yields_weaken [OF yields_fail])
  moreover have lift: "stage_post D c img digest r
      (EvEcho (cl_inner c) ''runtt'' True # probe_events c d @ map EvPrint ps @ EvList (cl_inner c) (Some slots) # tr)"
    if "go_post slots r tr" for slots r tr d ps
  proof -
    have "quiet (intro_events c d ps slots)" by (simp add: intro_events_def)
    with that have "stage_post D c img digest r (intro_events c d ps slots @ tr)"
      unfolding go_post_def stage_post_def by (elim disjE exE conjE) (blast | simp)+
    then show ?thesis by (simp add: intro_events_def)
  qed
  moreover have "stage_post D c img digest (Inl e) tr" if "quiet tr" for e tr
    using that by (simp add: stage_post_def)
  ultimately show ?thesis
    unfolding stage_image_def go_def [symmetric]
    by (intro yields_weaken [OF yields_and_then [OF yields_in_context [OF yields_echo]
          yields_and_then [OF yields_identify yields_and_then [OF yields_image_list]]]])
      (assumption, auto)
qed

definition confirm_post :: "client \<Rightarrow> bytes \<Rightarrow> deploy_error + client \<Rightarrow> event list \<Rightarrow> bool" where
  "confirm_post c digest r tr \<longleftrightarrow>
     (\<exists>slots d. runs digest slots \<and> acceptable d \<and>
        ((r = Inr c \<and> tr = EvList (cl_inner c) (Some slots) # probe_events c d @
            [EvSetState (cl_inner c) digest True True, EvPrint ImageConfirmed]) \<or>
         (\<not> is_ok r \<and> tr = EvList (cl_inner c) (Some slots) # probe_events c d @
            [EvSetState (cl_inner c) digest True False]))) \<or>
     (\<not> is_ok r \<and> quiet tr)"

lemma yields_confirm_image: "yields (confirm_image H c digest) (confirm_post c digest)"
proof -
  have gate: "yields (and_then (confirm_contract_matches H c) (\<lambda>_.
      and_then (in_context ConfirmFailed (client_set_state H c digest True)) (\<lambda>_.
      and_then (say ImageConfirmed) (\<lambda>_. ok c))))
    (\<lambda>r tr. (\<exists>d. acceptable d \<and>
       ((r = Inr c \<and> tr = probe_events c d @ [EvSetState (cl_inner c) digest True True, EvPrint ImageConfirmed]) \<or>
        (\<not> is_ok r \<and> tr = probe_events c d @ [EvSetState (cl_inner c) digest True False]))) \<or>
       (\<not> is_ok r \<and> quiet tr))"
    by (rule yields_weaken [OF yields_and_then [OF yields_confirm_contract yields_and_then [OF
          yields_in_context [OF yields_set_state] yields_and_then [OF yields_say yields_ok]]]]) fastforce
  have "yields (case find sl_active slots of
       None \<Rightarrow> if list_ex (\<lambda>s. sl_hash s = Some digest \<and> sl_pending s) slots
               then fail PendingNotSwapped else fail UploadLost
     | Some active \<Rightarrow>
         if sl_hash active \<noteq> Some digest then fail (RunsAnother (sl_hash active) digest)
         else and_then (confirm_contract_matches H c) (\<lambda>_.
             and_then (in_context ConfirmFailed (client_set_state H c digest True)) (\<lambda>_.
             and_then (say ImageConfirmed) (\<lambda>_. ok c))))
    (\<lambda>r tr. confirm_post c digest r (EvList (cl_inner c) (Some slots) # tr))" for slots
    by (auto split: option.split
        intro!: yields_weaken [OF gate] yields_weaken [OF yields_fail] simp: confirm_post_def runs_def)
  from yields_and_then [OF yields_image_list this] show ?thesis
    unfolding confirm_image_def by (rule yields_weaken) (auto simp: confirm_post_def)
qed

subsection \<open>The whole deploy\<close>

lemma yields_read_image:
  "yields (read_image H cfg fw) (\<lambda>r tr. tr = [] \<and>
     (\<forall>img info. r = Inr (img, info) \<longrightarrow> mcuboot_parse cfg img = Some (Done (Inr info))))"
proof -
  have parse: "yields (case mcuboot_parse cfg img of None \<Rightarrow> fail Crash | Some Panic \<Rightarrow> fail Crash
      | Some (Done (Inl e)) \<Rightarrow> fail (Context (NotMcuboot fw) (ImageRefused e))
      | Some (Done (Inr info)) \<Rightarrow> ok (img, info))
    (\<lambda>r tr. tr = [] \<and> (\<forall>img info. r = Inr (img, info) \<longrightarrow> mcuboot_parse cfg img = Some (Done (Inr info))))"
    for img
    by (auto simp: yields_def ok_def fail_def split: option.splits outcome.splits sum.splits)
  show ?thesis
    unfolding read_image_def
    by (rule yields_weaken [OF yields_and_then [OF yields_in_context [OF
            yields_and_then [OF yields_perform yields_raise]] parse]]) auto
qed

definition finish_post ::
    "client \<Rightarrow> bytes \<Rightarrow> deploy_error + staged \<Rightarrow> deploy_error + client \<Rightarrow> event list \<Rightarrow> bool" where
  "finish_post c digest st r u \<longleftrightarrow>
     (\<not> is_ok st \<and> \<not> is_ok r \<and> u = [EvClosed (cl_inner c)]) \<or>
     (st = Inr NothingToDo \<and> r = Inr c \<and> u = []) \<or>
     (st = Inr WroteRunningSlot \<and>
        (\<exists>x t. reconnect_post x t \<and> u = t @ [EvClosed (cl_inner c)] \<and> ok_value r = ok_value x)) \<or>
     (st = Inr TestMarked \<and>
        ((\<exists>x t. reconnect_post x t \<and> \<not> is_ok x \<and> \<not> is_ok r \<and> u = EvClosed (cl_inner c) # t) \<or>
         (\<exists>c' t v x. reconnect_post (Inr c') t \<and> confirm_post c' digest x v \<and> ok_value r = ok_value x \<and>
            u = EvClosed (cl_inner c) # t @ v @ (if is_ok x then [] else [EvClosed (cl_inner c')]))))"

definition deploy_post :: "usize_cfg \<Rightarrow> deploy \<Rightarrow> deploy_error + client \<Rightarrow> event list \<Rightarrow> bool" where
  "deploy_post cfg D r tr \<longleftrightarrow>
     (\<not> is_ok r \<and> (tr = [] \<or> link_failed tr)) \<or>
     (\<exists>img info c st t u. mcuboot_parse cfg img = Some (Done (Inr info)) \<and> cl_timeout c = SMP_TIMEOUT \<and>
        tr = linked c @ t @ u \<and> stage_post D c img (ii_digest info) st t \<and>
        finish_post c (ii_digest info) st r u)"

lemma is_ok_iff: "is_ok r \<longleftrightarrow> (\<exists>a. r = Inr a)" "\<not> is_ok r \<longleftrightarrow> (\<exists>e. r = Inl e)"
  by (cases r; simp)+

lemma finish_tested:
  "reconnect_post (Inl e) t \<Longrightarrow> finish_post c digest (Inr TestMarked) (Inl e') (EvClosed (cl_inner c) # t)"
  "reconnect_post (Inr c') t \<Longrightarrow> confirm_post c' digest (Inr a) v \<Longrightarrow>
    finish_post c digest (Inr TestMarked) (Inr a) (EvClosed (cl_inner c) # t @ v)"
  "reconnect_post (Inr c') t \<Longrightarrow> confirm_post c' digest (Inl e) v \<Longrightarrow>
    finish_post c digest (Inr TestMarked) (Inl e) (EvClosed (cl_inner c) # t @ v @ [EvClosed (cl_inner c')])"
proof -
  show "reconnect_post (Inl e) t \<Longrightarrow> finish_post c digest (Inr TestMarked) (Inl e') (EvClosed (cl_inner c) # t)"
    unfolding finish_post_def is_ok_def by auto
  show "reconnect_post (Inr c') t \<Longrightarrow> confirm_post c' digest (Inr a) v \<Longrightarrow>
      finish_post c digest (Inr TestMarked) (Inr a) (EvClosed (cl_inner c) # t @ v)"
    unfolding finish_post_def
    by (intro disjI2 conjI refl exI [of _ c'] exI [of _ t] exI [of _ v] exI [of _ "Inr a"]) simp_all
  show "reconnect_post (Inr c') t \<Longrightarrow> confirm_post c' digest (Inl e) v \<Longrightarrow>
      finish_post c digest (Inr TestMarked) (Inl e) (EvClosed (cl_inner c) # t @ v @ [EvClosed (cl_inner c')])"
    unfolding finish_post_def
    by (intro disjI2 conjI refl exI [of _ c'] exI [of _ t] exI [of _ v] exI [of _ "Inl e"]) simp_all
qed

lemma ok_value_Some: "ok_value x = Some a \<longleftrightarrow> x = Inr a" "Some a = ok_value x \<longleftrightarrow> x = Inr a"
  by (cases x; auto)+

lemma yields_finish:
  "yields (case st of
      NothingToDo \<Rightarrow> ok c
    | WroteRunningSlot \<Rightarrow> dropping H (cl_inner c) (in_context DidNotComeBack (reconnect H res))
    | TestMarked \<Rightarrow>
        and_then (close_handle H (cl_inner c)) (\<lambda>_.
        and_then (in_context DidNotComeBack (reconnect H res)) (\<lambda>c'.
          owning H (cl_inner c') (confirm_image H c' digest))))
    (finish_post c digest (Inr st))"
proof (cases st)
  case NothingToDo
  then show ?thesis by (auto intro: yields_weaken [OF yields_ok] simp: finish_post_def)
next
  case WroteRunningSlot
  have "yields (dropping H (cl_inner c) (in_context DidNotComeBack (reconnect H res)))
      (finish_post c digest (Inr WroteRunningSlot))"
    by (rule yields_weaken [OF yields_dropping [OF yields_in_context [OF yields_reconnect]]])
      (force simp: finish_post_def)
  with WroteRunningSlot show ?thesis by simp
next
  case TestMarked
  have "yields (and_then (close_handle H (cl_inner c)) (\<lambda>_.
        and_then (in_context DidNotComeBack (reconnect H res)) (\<lambda>c'.
          owning H (cl_inner c') (confirm_image H c' digest))))
      (finish_post c digest (Inr TestMarked))"
    by (rule yields_weaken [OF yields_and_then [OF yields_close yields_and_then [OF
            yields_in_context [OF yields_reconnect] yields_owning [OF yields_confirm_image]]]])
      (auto intro: finish_tested)
  with TestMarked show ?thesis by simp
qed

lemma finish_failed: "finish_post c digest (Inl e) (Inl e') [EvClosed (cl_inner c)]"
  by (simp add: finish_post_def)

lemma yields_deploy: "yields (deploy_run H sha cfg D) (deploy_post cfg D)"
proof -
  have stage: "yields (and_then (owning H (cl_inner c) (stage_image H sha D c img digest)) (\<lambda>st.
      case st of
        NothingToDo \<Rightarrow> ok c
      | WroteRunningSlot \<Rightarrow> dropping H (cl_inner c) (in_context DidNotComeBack (reconnect H (dp_resolved D)))
      | TestMarked \<Rightarrow>
          and_then (close_handle H (cl_inner c)) (\<lambda>_.
          and_then (in_context DidNotComeBack (reconnect H (dp_resolved D))) (\<lambda>c'.
            owning H (cl_inner c') (confirm_image H c' digest)))))
    (\<lambda>r tr. \<exists>st t u. tr = t @ u \<and> stage_post D c img digest st t \<and> finish_post c digest st r u)"
    for c img digest
    by (rule yields_weaken [OF yields_and_then [OF yields_owning [OF yields_stage_image] yields_finish]])
      (use finish_failed in blast)
  define rest where "rest = (\<lambda>(img, info :: image_info). and_then (connect H (dp_resolved D)) (\<lambda>c.
      and_then (owning H (cl_inner c) (stage_image H sha D c img (ii_digest info))) (\<lambda>st.
      case st of
        NothingToDo \<Rightarrow> ok c
      | WroteRunningSlot \<Rightarrow> dropping H (cl_inner c) (in_context DidNotComeBack (reconnect H (dp_resolved D)))
      | TestMarked \<Rightarrow>
          and_then (close_handle H (cl_inner c)) (\<lambda>_.
          and_then (in_context DidNotComeBack (reconnect H (dp_resolved D))) (\<lambda>c'.
            owning H (cl_inner c') (confirm_image H c' (ii_digest info)))))))"
  have "yields (rest x) (\<lambda>r tr. (\<not> is_ok r \<and> link_failed tr) \<or>
    (\<exists>c st t u. cl_timeout c = SMP_TIMEOUT \<and> tr = linked c @ t @ u \<and>
      stage_post D c (fst x) (ii_digest (snd x)) st t \<and> finish_post c (ii_digest (snd x)) st r u))" for x
    unfolding rest_def split_beta
    by (rule yields_weaken [OF yields_and_then [OF yields_connect stage]]) fastforce
  note whole = yields_and_then [where f = rest, OF yields_read_image this]
  have "deploy_run H sha cfg D = and_then (read_image H cfg (dp_firmware D)) rest"
    unfolding deploy_run_def rest_def by (rule refl)
  moreover have "yields (and_then (read_image H cfg (dp_firmware D)) rest) (deploy_post cfg D)"
    by (rule yields_weaken [OF whole]) (fastforce simp: deploy_post_def)
  ultimately show ?thesis by simp
qed

subsection \<open>Reading the trace\<close>

fun confirms :: "event \<Rightarrow> bool" where
  "confirms (EvSetState _ _ True _) = True"
| "confirms _ = False"

definition tame :: "event list \<Rightarrow> bool" where
  "tame tr \<longleftrightarrow> list_all (\<lambda>e. \<not> confirms e) tr"

lemma idle_tame: "idle tr \<Longrightarrow> tame tr"
proof -
  have "idle_event e \<Longrightarrow> \<not> confirms e" for e by (cases e rule: confirms.cases) simp_all
  then show "idle tr \<Longrightarrow> tame tr" by (auto simp: idle_def tame_def list_all_iff)
qed

lemma tame_simps [simp]:
  "tame []" "tame (e # tr) \<longleftrightarrow> \<not> confirms e \<and> tame tr" "tame (tr @ u) \<longleftrightarrow> tame tr \<and> tame u"
  by (simp_all add: tame_def)

lemma link_failed_idle: "link_failed tr \<Longrightarrow> idle tr"
  by (auto simp: link_failed_def)

lemma attempt_failed_idle: "attempt_failed tr \<Longrightarrow> idle tr"
  by (auto simp: attempt_failed_def link_failed_idle)

lemma retries_idle: "retries n tr \<Longrightarrow> idle tr"
  by (induction rule: retries.induct) (simp_all add: attempt_failed_idle)

lemma reconnect_idle: "reconnect_post r tr \<Longrightarrow> idle tr"
  by (auto simp: reconnect_post_def dest: retries_idle)

lemma intro_idle [simp]: "idle (intro_events c d ps slots)"
  by (simp add: intro_events_def)

lemma mark_tame: "mark_post c digest r tr \<Longrightarrow> tame tr"
  by (auto simp: mark_post_def)

lemma stage_tame: "stage_post D c img digest r tr \<Longrightarrow> tame tr"
  by (auto simp: stage_post_def mark_tame idle_tame quiet_idle)

text \<open>A list has at most one occurrence of an element with a rare property.\<close>

lemma rare_split:
  assumes "xs @ x # ys = us @ v # vs" and "P x" and "P v"
    and "\<forall>z \<in> set xs. \<not> P z" and "\<forall>z \<in> set ys. \<not> P z"
  shows "us = xs \<and> v = x \<and> vs = ys"
  using assms
proof (induction xs arbitrary: us)
  case Nil
  then show ?case by (cases us) auto
next
  case (Cons a xs)
  then show ?case by (cases us) auto
qed

lemma confirm_split:
  assumes "X @ EvSetState n h True b # Y = pre @ EvSetState n' h' True b' # post" and "tame X" and "tame Y"
  shows "pre = X \<and> n' = n \<and> h' = h \<and> b' = b \<and> post = Y"
  using rare_split [where P = confirms, OF assms(1)] assms(2,3) by (auto simp: tame_def list_all_iff)

lemma not_in_tame: "tame (pre @ EvSetState n h True b # post) \<Longrightarrow> False"
  by simp

text \<open>The only confirmation in a deploy, with everything before it.\<close>

definition gated :: "usize_cfg \<Rightarrow> event list \<Rightarrow> nat \<Rightarrow> bytes \<Rightarrow> bool" where
  "gated cfg pre n digest \<longleftrightarrow>
     (\<exists>img info (c :: client) before landed k waiting slots d.
        mcuboot_parse cfg img = Some (Done (Inr info)) \<and> digest = ii_digest info \<and>
        pre = before @
          [EvUpload (cl_inner c) img True, EvList (cl_inner c) (Some landed),
           EvSetState (cl_inner c) digest False True, EvPrint MarkedTest, EvReset (cl_inner c) True,
           EvClosed (cl_inner c)] @
          waiting @
          [EvSleep 500, EvOpened n, EvTimeout n SMP_TIMEOUT, EvAutoFrame n, EvEcho n ''runtt'' True,
           EvList n (Some slots),
           EvTimeout n PROBE_TIMEOUT, EvRetries n 1, EvDescribe n d, EvTimeout n SMP_TIMEOUT,
           EvRetries n DEFAULT_RETRIES] \<and>
        idle before \<and> retries k waiting \<and> runs digest slots \<and> acceptable d)"

lemma finish_not_tame:
  assumes "finish_post c digest st r u" and "\<not> tame u"
  shows "st = Inr TestMarked \<and> (\<exists>c' w v x. reconnect_post (Inr c') w \<and> confirm_post c' digest x v \<and>
    ok_value r = ok_value x \<and>
    u = EvClosed (cl_inner c) # w @ v @ (if is_ok x then [] else [EvClosed (cl_inner c')]))"
proof -
  have rec: "reconnect_post x t \<Longrightarrow> tame t" for x t using reconnect_idle idle_tame by blast
  from assms(1) show ?thesis
    unfolding finish_post_def
  proof (elim disjE)
    assume "st = Inr WroteRunningSlot \<and>
      (\<exists>x t. reconnect_post x t \<and> u = t @ [EvClosed (cl_inner c)] \<and> ok_value r = ok_value x)"
    with rec assms(2) show ?thesis by auto
  next
    assume "st = Inr TestMarked \<and> ((\<exists>x t. reconnect_post x t \<and> \<not> is_ok x \<and> \<not> is_ok r \<and> u = EvClosed (cl_inner c) # t) \<or>
      (\<exists>c' t v x. reconnect_post (Inr c') t \<and> confirm_post c' digest x v \<and> ok_value r = ok_value x \<and>
            u = EvClosed (cl_inner c) # t @ v @ (if is_ok x then [] else [EvClosed (cl_inner c')])))"
    with rec assms(2) show ?thesis by (elim conjE disjE) (fastforce, blast)
  qed (use assms(2) in auto)
qed

text \<open>Where a confirmation can come from: a test-marked stage, a reconnect and a passed gate.\<close>

lemma confirm_source:
  assumes "deploy_post cfg D r (pre @ EvSetState n h True b # post)"
  shows "\<exists>img info c t c' w slots d. mcuboot_parse cfg img = Some (Done (Inr info)) \<and> h = ii_digest info \<and>
    cl_timeout c = SMP_TIMEOUT \<and> n = cl_inner c' \<and>
    stage_post D c img h (Inr TestMarked) t \<and> reconnect_post (Inr c') w \<and> runs h slots \<and> acceptable d \<and>
    pre = linked c @ t @ EvClosed (cl_inner c) # w @ EvList n (Some slots) # probe_events c' d \<and>
    ((b \<and> r = Inr c' \<and> post = [EvPrint ImageConfirmed]) \<or>
     (\<not> b \<and> \<not> is_ok r \<and> post = [EvClosed n]))"
proof -
  let ?e = "EvSetState n h True b"
  from assms obtain img info c st t u where
    parse: "mcuboot_parse cfg img = Some (Done (Inr info))" and time: "cl_timeout c = SMP_TIMEOUT"
    and tr: "pre @ ?e # post = linked c @ t @ u"
    and stage: "stage_post D c img (ii_digest info) st t" and fin: "finish_post c (ii_digest info) st r u"
    unfolding deploy_post_def using link_failed_idle idle_tame not_in_tame by (metis append_is_Nil_conv list.distinct(1))
  have t: "tame (linked c @ t)" using stage_tame [OF stage] by (simp add: idle_tame)
  have "\<not> tame u"
  proof
    assume "tame u"
    with t have "tame (pre @ ?e # post)" unfolding tr by simp
    then show False by simp
  qed
  then obtain c' w v x where st: "st = Inr TestMarked" and w: "reconnect_post (Inr c') w"
    and v: "confirm_post c' (ii_digest info) x v" and rx: "ok_value r = ok_value x"
    and u: "u = EvClosed (cl_inner c) # w @ v @ (if is_ok x then [] else [EvClosed (cl_inner c')])"
    using finish_not_tame [OF fin] by blast
  have "\<not> tame v"
    using \<open>\<not> tame u\<close> idle_tame [OF reconnect_idle [OF w]] unfolding u by (auto split: if_splits)
  with v obtain slots d b' where gate: "runs (ii_digest info) slots" "acceptable d"
    and veq: "v = EvList (cl_inner c') (Some slots) # probe_events c' d @
        EvSetState (cl_inner c') (ii_digest info) True b' # (if b' then [EvPrint ImageConfirmed] else [])"
    and b': "b' = is_ok x" and xc: "b' \<longrightarrow> x = Inr c'"
    unfolding confirm_post_def by (auto dest: idle_tame quiet_idle)
  let ?X = "linked c @ t @ EvClosed (cl_inner c) # w @ EvList (cl_inner c') (Some slots) # probe_events c' d"
  let ?Y = "if b' then [EvPrint ImageConfirmed] else [EvClosed (cl_inner c')]"
  have "?X @ EvSetState (cl_inner c') (ii_digest info) True b' # ?Y = pre @ ?e # post"
    unfolding tr u veq using b' by auto
  moreover have "tame ?X"
    using t idle_tame [OF reconnect_idle [OF w]] by (simp add: idle_tame)
  moreover have "tame ?Y" by simp
  ultimately have split: "pre = ?X \<and> n = cl_inner c' \<and> h = ii_digest info \<and> b = b' \<and> post = ?Y"
    by (rule confirm_split)
  have "(b \<and> r = Inr c' \<and> post = [EvPrint ImageConfirmed]) \<or> (\<not> b \<and> \<not> is_ok r \<and> post = [EvClosed n])"
    using split b' xc rx by (cases x; cases r) auto
  then show ?thesis using parse time stage st w gate split by blast
qed

lemma confirm_gate:
  assumes "deploy_post cfg D r (pre @ EvSetState n digest True accepted # post)"
  shows "gated cfg pre n digest"
proof -
  from confirm_source [OF assms] obtain img info c t c' w slots d where
    parse: "mcuboot_parse cfg img = Some (Done (Inr info))" "digest = ii_digest info"
    and n: "n = cl_inner c'" and stage: "stage_post D c img digest (Inr TestMarked) t"
    and w: "reconnect_post (Inr c') w" and gate: "runs digest slots" "acceptable d"
    and pre: "pre = linked c @ t @ EvClosed (cl_inner c) # w @ EvList n (Some slots) # probe_events c' d"
    by blast
  from stage obtain d0 ps slots0 ps' landed where t: "t = intro_events c d0 ps slots0 @ map EvPrint ps' @
      [EvUpload (cl_inner c) img True, EvList (cl_inner c) (Some landed),
       EvSetState (cl_inner c) digest False True, EvPrint MarkedTest, EvReset (cl_inner c) True]"
    by (auto simp: stage_post_def mark_post_def)
  from w obtain k waiting where waiting: "retries k waiting" "cl_timeout c' = SMP_TIMEOUT"
      "w = waiting @ [EvSleep 500] @ linked c' @ [EvEcho (cl_inner c') ''runtt'' True]"
    by (auto simp: reconnect_post_def)
  show ?thesis
    unfolding gated_def
    using parse gate waiting n
    by (intro exI [of _ img] exI [of _ info] exI [of _ c] exI [of _ "linked c @ intro_events c d0 ps slots0 @ map EvPrint ps'"]
        exI [of _ landed] exI [of _ k] exI [of _ waiting] exI [of _ slots] exI [of _ d])
      (simp add: pre t linked_def probe_events_def)
qed

subsection \<open>Uploads, handles and time\<close>

fun is_upload :: "event \<Rightarrow> bool" where
  "is_upload (EvUpload _ _ _) = True"
| "is_upload _ = False"

definition no_upload :: "event list \<Rightarrow> bool" where
  "no_upload tr \<longleftrightarrow> list_all (\<lambda>e. \<not> is_upload e) tr"

lemma no_upload_simps [simp]:
  "no_upload []" "no_upload (e # tr) \<longleftrightarrow> \<not> is_upload e \<and> no_upload tr"
  "no_upload (tr @ u) \<longleftrightarrow> no_upload tr \<and> no_upload u"
  by (simp_all add: no_upload_def)

lemma idle_no_upload: "idle tr \<Longrightarrow> no_upload tr"
proof -
  have "idle_event e \<Longrightarrow> \<not> is_upload e" for e by (cases e) simp_all
  then show "idle tr \<Longrightarrow> no_upload tr" by (auto simp: idle_def no_upload_def list_all_iff)
qed

lemma finish_no_upload: "finish_post c digest st r u \<Longrightarrow> no_upload u"
  by (auto simp: finish_post_def confirm_post_def idle_no_upload reconnect_idle quiet_idle)

lemma mark_no_upload: "mark_post c digest r tr \<Longrightarrow> no_upload tr"
  by (auto simp: mark_post_def)

lemma upload_source:
  assumes "deploy_post cfg D r (pre @ EvUpload n img b # post)"
  shows "\<exists>info c d ps slots ps'. mcuboot_parse cfg img = Some (Done (Inr info)) \<and>
    cl_timeout c = SMP_TIMEOUT \<and> n = cl_inner c \<and>
    pre = linked c @ intro_events c d ps slots @ map EvPrint ps' \<and> no_upload post \<and>
    \<not> known_unbootable (ii_digest info) slots \<and>
    \<not> (dp_skip_if_same D \<and> already_runs (ii_digest info) slots)"
proof -
  let ?tr = "pre @ EvUpload n img b # post"
  have up: "\<not> no_upload ?tr" by simp
  then have "\<not> (tr = [] \<or> link_failed tr)" if "tr = ?tr" for tr
    using that idle_no_upload link_failed_idle by (metis no_upload_simps(1))
  with assms obtain img' info c st t u where
    parse: "mcuboot_parse cfg img' = Some (Done (Inr info))" and time: "cl_timeout c = SMP_TIMEOUT"
    and tr: "?tr = linked c @ t @ u"
    and stage: "stage_post D c img' (ii_digest info) st t" and fin: "finish_post c (ii_digest info) st r u"
    unfolding deploy_post_def by blast
  have "\<not> no_upload t" using up finish_no_upload [OF fin] unfolding tr by (auto simp: idle_no_upload)
  then have "\<not> quiet t" using idle_no_upload quiet_idle by blast
  with stage \<open>\<not> no_upload t\<close> obtain d ps slots ps' b' t' where
    t: "t = intro_events c d ps slots @ map EvPrint ps' @ EvUpload (cl_inner c) img' b' # t'"
    and t': "no_upload t'" and slots: "\<not> known_unbootable (ii_digest info) slots"
      "\<not> (dp_skip_if_same D \<and> already_runs (ii_digest info) slots)"
    unfolding stage_post_def by (auto simp: idle_no_upload dest!: mark_no_upload)
  let ?X = "linked c @ intro_events c d ps slots @ map EvPrint ps'"
  have "?X @ EvUpload (cl_inner c) img' b' # (t' @ u) = ?tr" unfolding tr t by simp
  moreover have "no_upload ?X" "no_upload (t' @ u)"
    using t' finish_no_upload [OF fin] by (simp_all add: idle_no_upload)
  ultimately have "pre = ?X \<and> EvUpload n img b = EvUpload (cl_inner c) img' b' \<and> post = t' @ u"
    using rare_split [where P = is_upload] unfolding no_upload_def list_all_iff
    by (metis is_upload.simps(1))
  with parse time slots \<open>no_upload (t' @ u)\<close> show ?thesis by blast
qed

text \<open>The timeout and the retry count a link was last given.\<close>

definition note_setting :: "nat \<Rightarrow> nat option \<times> nat option \<Rightarrow> event \<Rightarrow> nat option \<times> nat option" where
  "note_setting n st e =
     (case e of
        EvTimeout m t \<Rightarrow> if m = n then (Some t, snd st) else st
      | EvRetries m k \<Rightarrow> if m = n then (fst st, Some k) else st
      | _ \<Rightarrow> st)"

definition in_force :: "nat \<Rightarrow> event list \<Rightarrow> nat option \<times> nat option" where
  "in_force n tr = foldl (note_setting n) (None, None) tr"

lemma note_prints: "foldl (note_setting n) st (map EvPrint ps) = st"
  by (induction ps arbitrary: st) (simp_all add: note_setting_def)

text \<open>Handles opened and not closed again.\<close>

fun balance :: "event list \<Rightarrow> int" where
  "balance [] = 0"
| "balance (EvOpened _ # tr) = balance tr + 1"
| "balance (EvClosed _ # tr) = balance tr - 1"
| "balance (_ # tr) = balance tr"

lemma balance_append [simp]: "balance (tr @ u) = balance tr + balance u"
  by (induction tr rule: balance.induct) simp_all

lemma balance_prints [simp]: "balance (map EvPrint ps) = 0"
  by (induction ps) simp_all

lemma balance_quiet: "quiet tr \<Longrightarrow> balance tr = 0"
  by (induction tr rule: balance.induct) auto

lemma balance_link [simp]: "balance (linked c) = 1" "balance (probe_events c d) = 0"
  "balance (intro_events c d ps slots) = 0"
  by (simp_all add: linked_def probe_events_def intro_events_def)

lemma balance_link_failed: "link_failed tr \<Longrightarrow> balance tr = 0"
  by (auto simp: link_failed_def)

lemma balance_retries: "retries n tr \<Longrightarrow> balance tr = 0"
  by (induction rule: retries.induct) (auto simp: attempt_failed_def balance_link_failed)

definition weight :: "'e + 'a \<Rightarrow> int" where
  "weight r = (if is_ok r then 1 else 0)"

lemma balance_reconnect: "reconnect_post r tr \<Longrightarrow> balance tr = weight r"
  by (auto simp: reconnect_post_def balance_retries weight_def)

lemma ok_value_weight: "ok_value r = ok_value x \<Longrightarrow> weight r = weight x"
  by (cases r; cases x) (simp_all add: weight_def)

lemma balance_stage: "stage_post D c img digest r tr \<Longrightarrow> balance tr = 0"
  by (auto simp: stage_post_def mark_post_def balance_quiet)

lemma balance_confirm: "confirm_post c digest r tr \<Longrightarrow> balance tr = 0"
  by (auto simp: confirm_post_def balance_quiet)

lemma balance_finish: "finish_post c digest st r u \<Longrightarrow> balance u = weight r - 1"
  unfolding finish_post_def
proof (elim disjE)
  assume "st = Inr TestMarked \<and>
        ((\<exists>x t. reconnect_post x t \<and> \<not> is_ok x \<and> \<not> is_ok r \<and> u = EvClosed (cl_inner c) # t) \<or>
         (\<exists>c' t v x. reconnect_post (Inr c') t \<and> confirm_post c' digest x v \<and> ok_value r = ok_value x \<and>
            u = EvClosed (cl_inner c) # t @ v @ (if is_ok x then [] else [EvClosed (cl_inner c')])))"
  then show ?thesis
    by (auto dest!: balance_reconnect balance_confirm ok_value_weight simp: weight_def split: if_splits)
next
  assume "st = Inr WroteRunningSlot \<and>
    (\<exists>x t. reconnect_post x t \<and> u = t @ [EvClosed (cl_inner c)] \<and> ok_value r = ok_value x)"
  then show ?thesis by (auto dest!: balance_reconnect ok_value_weight)
qed (auto simp: weight_def)

lemma balance_deploy: "deploy_post cfg D r tr \<Longrightarrow> balance tr = weight r"
  unfolding deploy_post_def
  by (auto simp: balance_link_failed balance_stage balance_finish) (simp add: weight_def)+

lemma failed_idle: "deploy_post cfg D (Inl e) tr \<Longrightarrow> no_upload tr \<Longrightarrow> idle tr"
proof -
  assume post: "deploy_post cfg D (Inl e) tr" and up: "no_upload tr"
  have staged: "idle tr" if tr: "tr = linked c @ t @ u" and stage: "stage_post D c img digest st t"
    and fin: "finish_post c digest st (Inl e) u" for c t u img digest st
  proof -
    have "quiet t \<and> \<not> is_ok st \<or> st = Inr NothingToDo" using stage up unfolding tr stage_post_def by auto
    with fin have "quiet t" "u = [EvClosed (cl_inner c)]" by (auto simp: finish_post_def)
    then show ?thesis by (simp add: tr quiet_idle)
  qed
  from post show "idle tr"
    unfolding deploy_post_def by (elim disjE exE conjE) (simp, erule link_failed_idle, erule (2) staged)
qed

lemma failed_confirm:
  assumes "deploy_post cfg D (Inl e) tr"
  shows "tame tr \<or> (\<exists>pre n h. tr = pre @ [EvSetState n h True False, EvClosed n] \<and> tame pre \<and> gated cfg pre n h)"
proof (cases "tame tr")
  case False
  then obtain pre ev rest where ev: "tr = pre @ ev # rest" "confirms ev"
    by (auto simp: tame_def list_all_iff dest: split_list)
  then obtain n h b where sent: "ev = EvSetState n h True b" by (cases ev rule: confirms.cases) auto
  have post: "deploy_post cfg D (Inl e) (pre @ EvSetState n h True b # rest)" using assms ev(1) sent by simp
  from confirm_source [OF post] obtain img c t c' w slots d where src:
    "stage_post D c img h (Inr TestMarked) t" "reconnect_post (Inr c') w"
    "pre = linked c @ t @ EvClosed (cl_inner c) # w @ EvList n (Some slots) # probe_events c' d"
    "b \<and> Inl e = Inr c' \<and> rest = [EvPrint ImageConfirmed] \<or> \<not> b \<and> \<not> is_ok (Inl e :: deploy_error + client) \<and> rest = [EvClosed n]"
    by blast
  then have "\<not> b" "rest = [EvClosed n]" by simp_all
  moreover from src(1-3) have "tame pre" by (simp add: idle_tame reconnect_idle stage_tame)
  ultimately show ?thesis using ev(1) sent confirm_gate [OF post] by auto
qed simp

subsection \<open>Properties\<close>

text \<open>C1: an image is confirmed only through the contract.  Whatever the host, the link and the board
  do, every confirmation a deploy sends names the digest of the firmware file and comes at the end
  of one exact sequence: that file was uploaded successfully, its digest was marked for test, the
  board was reset and the old connection closed, a new connection was opened after that, on it an
  echo was answered, the image list was read and shows that digest in the running slot, and
  describe was either not answered or answered with the contract major this runtime implements.\<close>
theorem confirm_only_after_gate:
  assumes "deploy_run H sha cfg D s = (r, s')"
    and "rt_trace s' = rt_trace s @ pre @ EvSetState n digest True accepted # post"
  shows "gated cfg pre n digest"
  using confirm_gate yields_trace [OF yields_deploy assms(1)] assms(2) by simp

text \<open>C2: how a deploy can end.  If it fails, it has sent no confirmation, or one, past the whole gate, that was
  not answered with success, after which it only closed the connection; and if nothing was uploaded, nothing that
  changes the board was sent.  This is what the host has sent and seen.  A board may still hold the image
  confirmed after a failure: where the answer to the confirmation was lost, or where the board wrote its
  running slot itself and the reset or the reconnect failed afterwards.  If it
  succeeds, then either the running image already was this digest, confirmed, skipping was asked
  for and nothing was written; or the board itself put the uploaded image in the running slot,
  confirmed, and nothing was marked; or the board accepted a confirmation of this digest on the
  very connection that is returned.\<close>
theorem deploy_outcomes:
  assumes "deploy_run H sha cfg D s = (r, s')" and "rt_trace s' = rt_trace s @ tr"
  shows "case r of
      Inl e \<Rightarrow> (\<forall>n h. EvSetState n h True True \<notin> set tr) \<and> (no_upload tr \<longrightarrow> idle tr) \<and>
        (tame tr \<or> (\<exists>pre n h. tr = pre @ [EvSetState n h True False, EvClosed n] \<and> tame pre \<and> gated cfg pre n h))
    | Inr c \<Rightarrow> \<exists>img info slots n. mcuboot_parse cfg img = Some (Done (Inr info)) \<and>
        ((dp_skip_if_same D \<and> already_runs (ii_digest info) slots \<and> idle tr \<and>
            EvList n (Some slots) \<in> set tr) \<or>
         (wrote_running (ii_digest info) slots \<and> EvUpload n img True \<in> set tr \<and>
            EvList n (Some slots) \<in> set tr \<and> (\<forall>m h b a. EvSetState m h b a \<notin> set tr)) \<or>
         EvSetState (cl_inner c) (ii_digest info) True True \<in> set tr)"
proof -
  have post: "deploy_post cfg D r tr" using yields_trace [OF yields_deploy assms] .
  have no_set: "idle u \<Longrightarrow> EvSetState m h b a \<notin> set u" for u m h b a
    by (auto simp: idle_def list_all_iff)
  show ?thesis
  proof (cases r)
    case (Inl e)
    have "EvSetState n h True True \<notin> set tr" for n h
    proof
      assume "EvSetState n h True True \<in> set tr"
      then obtain pre rest where "tr = pre @ EvSetState n h True True # rest" by (meson split_list)
      with post confirm_source show False using Inl by (metis Inl_Inr_False)
    qed
    with Inl failed_idle [OF post [unfolded Inl]] failed_confirm [OF post [unfolded Inl]]
    show ?thesis by simp
  next
    case (Inr c')
    from post Inr obtain img info c st t u where
      parse: "mcuboot_parse cfg img = Some (Done (Inr info))"
      and tr: "tr = linked c @ t @ u"
      and stage: "stage_post D c img (ii_digest info) st t" and fin: "finish_post c (ii_digest info) st r u"
      by (auto simp: deploy_post_def)
    have "?thesis" if "st = Inr NothingToDo"
    proof -
      from stage that obtain d ps slots where "dp_skip_if_same D" "already_runs (ii_digest info) slots"
          and t: "t = intro_events c d ps slots @ [EvPrint AlreadyRuns]"
        by (auto simp: stage_post_def mark_post_def)
      moreover from fin that have "u = []" by (auto simp: finish_post_def)
      moreover have "EvList (cl_inner c) (Some slots) \<in> set tr"
        unfolding tr t by (simp add: intro_events_def)
      ultimately show ?thesis using Inr parse tr by auto
    qed
    moreover have "?thesis" if wrote: "st = Inr WroteRunningSlot"
    proof -
      from stage wrote obtain d ps slots0 ps' slots where "wrote_running (ii_digest info) slots"
          and t: "t = intro_events c d ps slots0 @ map EvPrint ps' @ [EvUpload (cl_inner c) img True,
            EvList (cl_inner c) (Some slots), EvPrint WrittenDirectly, EvReset (cl_inner c) True]"
        by (auto simp: stage_post_def mark_post_def)
      moreover from fin wrote have "idle u" by (auto simp: finish_post_def reconnect_idle)
      then have "\<forall>m h b a. EvSetState m h b a \<notin> set tr"
        unfolding tr t using no_set [of u] no_set [OF intro_idle] by (auto simp: linked_def)
      ultimately show ?thesis using Inr parse unfolding tr t by auto
    qed
    moreover have "?thesis" if "st = Inr TestMarked"
    proof -
      from fin that Inr obtain c'' t' v where "confirm_post c'' (ii_digest info) (Inr c') v"
          and "u = EvClosed (cl_inner c) # t' @ v"
        by (auto simp: finish_post_def ok_value_Some)
      moreover from this(1) have "c'' = c'" by (auto simp: confirm_post_def)
      ultimately have "EvSetState (cl_inner c') (ii_digest info) True True \<in> set tr"
        unfolding tr by (auto simp: confirm_post_def)
      with Inr parse show ?thesis by auto
    qed
    ultimately show ?thesis using fin Inr by (auto simp: finish_post_def)
  qed
qed

text \<open>A deploy uploads once, with the client's full patience.  At the moment of an upload the link's
  timeout is back at ten seconds and its retries at the default, whatever the describe probe
  before it did; the image list had been read on this link, and does not mark this digest
  unbootable; and no second upload follows.\<close>
theorem upload_settings:
  assumes "deploy_run H sha cfg D s = (r, s')"
    and "rt_trace s' = rt_trace s @ pre @ EvUpload n img accepted # post"
  shows "in_force n pre = (Some SMP_TIMEOUT, Some DEFAULT_RETRIES) \<and>
    (\<exists>info slots. mcuboot_parse cfg img = Some (Done (Inr info)) \<and> EvList n (Some slots) \<in> set pre \<and>
      \<not> known_unbootable (ii_digest info) slots \<and>
      \<not> (dp_skip_if_same D \<and> already_runs (ii_digest info) slots)) \<and>
    no_upload post"
proof -
  have "deploy_post cfg D r (pre @ EvUpload n img accepted # post)"
    using yields_trace [OF yields_deploy assms(1)] assms(2) by simp
  from upload_source [OF this] obtain info c d ps slots ps' where
    *: "mcuboot_parse cfg img = Some (Done (Inr info))" "cl_timeout c = SMP_TIMEOUT" "n = cl_inner c"
      "no_upload post" "\<not> known_unbootable (ii_digest info) slots"
      "\<not> (dp_skip_if_same D \<and> already_runs (ii_digest info) slots)"
    and pre: "pre = linked c @ intro_events c d ps slots @ map EvPrint ps'" by blast
  have "in_force n pre = (Some SMP_TIMEOUT, Some DEFAULT_RETRIES)"
    using * by (simp add: in_force_def pre linked_def intro_events_def probe_events_def note_prints
        note_setting_def)
  moreover have "EvList n (Some slots) \<in> set pre" using * by (simp add: pre intro_events_def)
  ultimately show ?thesis using * by blast
qed

text \<open>C13: handles do not leak.  After a failed deploy every handle it opened has been closed again, and
  after a successful one exactly one is open, for the resident loop.\<close>
theorem handles_balanced:
  assumes "deploy_run H sha cfg D s = (r, s')" and "rt_trace s' = rt_trace s @ tr"
  shows "balance tr = (case r of Inl _ \<Rightarrow> 0 | Inr _ \<Rightarrow> 1)"
  using balance_deploy [OF yields_trace [OF yields_deploy assms]]
  by (simp add: weight_def split: sum.splits)

text \<open>C14: waiting for a reboot ends.  \<open>reconnect\<close> returns for every host, after at most sixty failed
  attempts, each after half a second of sleep; it gives up only when the thirty seconds of grace
  are over, and returns a connection only if it answered an echo.\<close>
theorem reconnect_ends:
  assumes "reconnect H res s = (r, s')"
  shows "\<exists>n t. retries n t \<and> n \<le> 60 \<and>
    (case r of
       Inl _ \<Rightarrow> rt_trace s' = rt_trace s @ t \<and> rt_now s + REBOOT_GRACE \<le> rt_now s'
     | Inr c \<Rightarrow> rt_trace s' = rt_trace s @ t @ [EvSleep 500] @ linked c @
         [EvEcho (cl_inner c) ''runtt'' True])"
proof -
  have run: "reconnect_loop H res (rt_now s + REBOOT_GRACE) None s = (r, s')"
    using assms by (simp add: reconnect_def)
  from yields_reconnect_loop [OF run] obtain n t where
    *: "retries n t" "0 < n \<longrightarrow> rt_now s + 500 * (n - 1) < rt_now s + REBOOT_GRACE"
      "(\<exists>e. r = Inl e \<and> rt_trace s' = rt_trace s @ t \<and> rt_now s + REBOOT_GRACE \<le> rt_now s') \<or>
       (\<exists>c. r = Inr c \<and> rt_trace s' = rt_trace s @ t @ [EvSleep 500] @ linked c @
         [EvEcho (cl_inner c) ''runtt'' True])"
    by blast
  moreover have "n \<le> 60" using *(2) by (simp add: REBOOT_GRACE_def) linarith
  ultimately show ?thesis by (intro exI [of _ n] exI [of _ t]) auto
qed

end
