(* ===== verification/Resident.thy ===== *)
theory Resident
  imports Trace_Logic
begin

text \<open>
  The resident loop of \<open>crates/runtt/src/flash.rs\<close> (\<open>stay_resident\<close>): what it takes to end it, and that
  it does end when the board is gone.
\<close>

text \<open>The events of one heartbeat that goes unanswered.\<close>

definition missed :: "client \<Rightarrow> event list" where
  "missed c = [EvStopAsked False, EvSleep HEARTBEAT_INTERVAL, EvStopAsked False,
     EvEcho (cl_inner c) ''hb'' False]"

lemma stop_asked_step:
  "stop_asked H s = (r, s') \<Longrightarrow> \<exists>b. r = Inr b \<and> rt_trace s' = rt_trace s @ [EvStopAsked b]"
  unfolding stop_asked_def by (drule yieldsD [OF yields_perform]) auto

lemma sleep_step: "rt_trace (snd (sleep H ms s)) = rt_trace s @ [EvSleep ms]"
  by (simp add: sleep_def split: prod.splits)

lemma echo_step:
  "echo H c p s = (r, s') \<Longrightarrow> rt_trace s' = rt_trace s @ [EvEcho (cl_inner c) p (is_ok r)]"
  by (drule yieldsD [OF yields_echo]) auto

definition resident_end :: "client \<Rightarrow> nat \<Rightarrow> deploy_error + unit \<Rightarrow> event list \<Rightarrow> bool" where
  "resident_end c failures r tr \<longleftrightarrow>
     (case r of
        Inr _ \<Rightarrow> \<exists>u. tr = u @ [EvStopAsked True]
      | Inl e \<Rightarrow> e = LostContact 2 \<and>
          ((failures = 1 \<and> tr = missed c) \<or> (\<exists>u. tr = u @ missed c @ missed c)))"

lemma resident_end_more:
  "resident_end c 0 r tr \<Longrightarrow> resident_end c failures r (u @ tr)"
  by (auto simp: resident_end_def split: sum.splits)

lemma resident_end_missed:
  "resident_end c 1 r tr \<Longrightarrow> resident_end c failures r (missed c @ tr)"
  by (auto simp: resident_end_def split: sum.splits)

lemma resident_loop_end:
  assumes "resident_loop H c failures s = Some y"
  shows "failures \<le> 1 \<longrightarrow> (\<exists>tr. rt_trace (snd y) = rt_trace s @ tr \<and> resident_end c failures (fst y) tr)"
proof (rule resident_loop.raw_induct [of "\<lambda>H c failures s y. failures \<le> 1 \<longrightarrow>
      (\<exists>tr. rt_trace (snd y) = rt_trace s @ tr \<and> resident_end c failures (fst y) tr)", OF _ assms],
    intro impI)
  fix loop :: "'b host \<Rightarrow> client \<Rightarrow> nat \<Rightarrow> 'b rt \<Rightarrow> ((deploy_error + unit) \<times> 'b rt) option"
    and H :: "'b host" and c :: client and failures s y
  assume IH: "\<And>H c failures s y. loop H c failures s = Some y \<Longrightarrow> failures \<le> 1 \<longrightarrow>
      (\<exists>tr. rt_trace (snd y) = rt_trace s @ tr \<and> resident_end c failures (fst y) tr)"
    and body: "(case stop_asked H s of (stop1, s1) \<Rightarrow>
          if stop1 = Inr True then Some (Inr (), s1)
          else case stop_asked H (snd (sleep H HEARTBEAT_INTERVAL s1)) of (stop2, s2) \<Rightarrow>
                 if stop2 = Inr True then Some (Inr (), s2)
                 else case echo H c ''hb'' s2 of (answer, s3) \<Rightarrow>
                        if is_ok answer then loop H c 0 s3
                        else if 2 \<le> failures + 1 then Some (Inl (LostContact (failures + 1)), s3)
                        else loop H c (failures + 1) s3) = Some y"
    and small: "failures \<le> 1"
  obtain r1 s1 where stop1: "stop_asked H s = (r1, s1)" by fastforce
  from stop_asked_step [OF this] obtain b1 where b1: "r1 = Inr b1" "rt_trace s1 = rt_trace s @ [EvStopAsked b1]"
    by blast
  let ?s = "snd (sleep H HEARTBEAT_INTERVAL s1)"
  obtain r2 s2 where stop2: "stop_asked H ?s = (r2, s2)" by fastforce
  from stop_asked_step [OF this] obtain b2 where
    b2: "r2 = Inr b2" "rt_trace s2 = rt_trace ?s @ [EvStopAsked b2]" by blast
  obtain a s3 where echo: "echo H c ''hb'' s2 = (a, s3)" by fastforce
  note trace = echo_step [OF echo] b2(2) sleep_step [of H HEARTBEAT_INTERVAL s1] b1(2)
  consider "b1" | "\<not> b1" "b2" | "\<not> b1" "\<not> b2" "is_ok a" | "\<not> b1" "\<not> b2" "\<not> is_ok a" by blast
  then show "\<exists>tr. rt_trace (snd y) = rt_trace s @ tr \<and> resident_end c failures (fst y) tr"
  proof cases
    case 1
    with body stop1 b1 show ?thesis by (auto simp: resident_end_def)
  next
    case 2
    with body stop1 stop2 b1 b2 have "y = (Inr (), s2)" by simp
    with 2 trace show ?thesis by (simp add: resident_end_def)
  next
    case 3
    with body stop1 stop2 echo b1 b2 have "loop H c 0 s3 = Some y" by simp
    from IH [OF this] obtain tr where "rt_trace (snd y) = rt_trace s3 @ tr"
      "resident_end c 0 (fst y) tr" by auto
    with trace 3 show ?thesis
      by (intro exI [of _ "[EvStopAsked b1, EvSleep HEARTBEAT_INTERVAL, EvStopAsked b2,
          EvEcho (cl_inner c) ''hb'' (is_ok a)] @ tr"] conjI resident_end_more) simp_all
  next
    case 4
    have miss: "rt_trace s3 = rt_trace s @ missed c" using 4 trace by (simp add: missed_def)
    show ?thesis
    proof (cases "failures = 1")
      case True
      with 4 body stop1 stop2 echo b1 b2 have "y = (Inl (LostContact 2), s3)"
        by (simp add: numeral_2_eq_2)
      with miss True show ?thesis by (simp add: resident_end_def)
    next
      case False
      with small have "failures = 0" by simp
      with 4 body stop1 stop2 echo b1 b2 have "loop H c 1 s3 = Some y" by simp
      from IH [OF this] obtain tr where "rt_trace (snd y) = rt_trace s3 @ tr"
        "resident_end c 1 (fst y) tr" by auto
      with miss show ?thesis by (intro exI [of _ "missed c @ tr"] conjI resident_end_missed) simp_all
    qed
  qed
qed

lemma silent_turn:
  assumes "\<And>w. fst (h_stop H w) = False" and "\<And>w. \<exists>e. fst (h_echo H (cl_inner c) ''hb'' w) = Inl e"
  shows "\<exists>s'. resident_loop H c failures s =
    (if 1 \<le> failures then Some (Inl (LostContact (failures + 1)), s') else resident_loop H c (failures + 1) s')"
proof -
  have stop: "\<exists>s'. stop_asked H s = (Inr False, s')" for s
    using assms(1) [of "rt_world s"]
    by (auto simp: stop_asked_def perform_def split: prod.splits)
  have echo: "\<exists>e s'. echo H c ''hb'' s = (Inl e, s')" for s
    using assms(2) [of "rt_world s"]
    by (auto simp: echo_def in_context_def and_then_def perform_def raise_io_def fail_def split: prod.splits)
  obtain s1 where s1: "stop_asked H s = (Inr False, s1)" using stop by blast
  obtain s2 where s2: "stop_asked H (snd (sleep H HEARTBEAT_INTERVAL s1)) = (Inr False, s2)" using stop by blast
  obtain e s3 where s3: "echo H c ''hb'' s2 = (Inl e, s3)" using echo by blast
  show ?thesis by (intro exI [of _ s3], subst resident_loop.simps) (simp add: s1 s2 s3)
qed

subsection \<open>Properties\<close>

text \<open>C15: what ends the resident loop.  It reports a lost board only after two heartbeats in a row went
  unanswered, with nothing else between them, and it returns success only when it was asked to
  stop; a single miss, however often, never ends it.\<close>
theorem resident_two_strikes:
  assumes "resident_loop H c 0 s = Some (r, s')"
  shows "\<exists>tr. rt_trace s' = rt_trace s @ tr \<and>
    (case r of
       Inr _ \<Rightarrow> \<exists>u. tr = u @ [EvStopAsked True]
     | Inl e \<Rightarrow> e = LostContact 2 \<and> (\<exists>u. tr = u @ missed c @ missed c))"
  using resident_loop_end [OF assms] by (auto simp: resident_end_def split: sum.splits)

text \<open>C16: an unplugged board ends the container.  When no echo is answered any more and nobody asks to
  stop, \<open>stay_resident\<close> returns, with the error that makes the restart policy fire.\<close>
theorem unplugged_board_ends:
  assumes "\<And>w. fst (h_stop H w) = False" and "\<And>w. \<exists>e. fst (h_echo H (cl_inner c) ''hb'' w) = Inl e"
  shows "\<exists>s'. stay_resident H c s = Some (Inl (LostContact 2), s')"
proof -
  obtain s1 where "resident_loop H c 0 s = resident_loop H c 1 s1"
    using silent_turn [where failures = 0, OF assms, of s] by auto
  moreover obtain s2 where "resident_loop H c 1 s1 = Some (Inl (LostContact 2), s2)"
    using silent_turn [where failures = 1, OF assms, of s1] by (auto simp: numeral_2_eq_2)
  ultimately show ?thesis by (simp add: stay_resident_def)
qed

end
