(* ===== verification/Board_Host.thy ===== *)
theory Board_Host
  imports Deploy_Safety Device
begin

text \<open>
  A deploy against a board that keeps the contract.  The interface is the locale \<open>update_cycle\<close>: what
  the client's calls do to the phase a board's update is in.  \<open>Mock_Deploy\<close>
  shows that the emulated board of \<open>Device\<close> satisfies it, so that the deploy sequence and the board's
  slot logic are proved to work together.
\<close>

subsection \<open>The interface of a board\<close>

datatype phase =
    Idle          \<comment> \<open>something else runs, the image is in no slot\<close>
  | Staged        \<comment> \<open>the image is in a slot, not running\<close>
  | Marked        \<comment> \<open>and marked for test\<close>
  | Trial         \<comment> \<open>it runs, unconfirmed\<close>
  | Confirmed
  | Elsewhere     \<comment> \<open>none of these\<close>

text \<open>A call that succeeds in phase \<open>p\<close>, leads to \<open>q\<close> and gives a result with \<open>P\<close>.\<close>

definition leads :: "('w \<Rightarrow> phase) \<Rightarrow> phase \<Rightarrow> phase \<Rightarrow> ('w, 'r) step \<Rightarrow> ('r \<Rightarrow> bool) \<Rightarrow> bool" where
  "leads ph p q call P \<longleftrightarrow> (\<forall>w. ph w = p \<longrightarrow> (case call w of (r, dt, w') \<Rightarrow> P r \<and> ph w' = q))"

definition keeps :: "('w \<Rightarrow> phase) \<Rightarrow> ('w, 'r) step \<Rightarrow> ('r \<Rightarrow> bool) \<Rightarrow> bool" where
  "keeps ph call P \<longleftrightarrow> (\<forall>p. leads ph p p call P)"

definition sees :: "bytes \<Rightarrow> phase \<Rightarrow> toolkit_image list \<Rightarrow> bool" where
  "sees digest p images \<longleftrightarrow>
     (case p of
        Idle \<Rightarrow> \<forall>i \<in> set images. ti_hash i \<noteq> Some digest
      | Staged \<Rightarrow> (\<exists>i. find (\<lambda>i. ti_hash i = Some digest) images = Some i \<and> \<not> (ti_active i \<and> ti_confirmed i))
      | Trial \<Rightarrow> (\<exists>i. find ti_active images = Some i \<and> ti_hash i = Some digest)
      | _ \<Rightarrow> True)"

locale update_cycle =
  fixes H :: "'w host" and ph :: "'w \<Rightarrow> phase" and sha :: "bytes \<Rightarrow> bytes"
    and fw :: string and img digest :: bytes
  assumes reads: "keeps ph (h_read_file H fw) (\<lambda>r. r = Inr img)"
    and links: "keeps ph (h_open_serial H path baud ms) is_ok" "keeps ph (h_demux H n ms) is_ok"
      "keeps ph (h_open_isotp H iface node ms) is_ok"
    and limits: "keeps ph (h_set_timeout H n ms) is_ok" "keeps ph (h_set_retries H n k) (\<lambda>_. True)"
      "keeps ph (h_auto_frame H n) (\<lambda>_. True)"
    and echoes: "keeps ph (h_echo H n payload) is_ok"
    and describes: "keeps ph (h_describe H n)
      (\<lambda>r. \<exists>d. r = Inr d \<and> contract_major d = Some CONTRACT_MAJOR \<and> de_img d \<noteq> Some False)"
    and rests: "keeps ph (h_close H n) (\<lambda>_. True)" "keeps ph (h_sleep H ms) (\<lambda>_. True)"
    and lists: "leads ph p p (h_image_state H n) (\<lambda>r. \<exists>images. r = Inr images \<and> sees digest p images)"
    and uploads: "leads ph Idle Staged (h_upload H n img (sha img)) (\<lambda>r. is_ok (fst r))"
    and marks: "leads ph Staged Marked (h_set_state H n digest False) is_ok"
    and boots: "leads ph Marked Trial (h_reset H n) is_ok"
    and confirms: "leads ph Trial Confirmed (h_set_state H n digest True) is_ok"

text \<open>The same for the runtime's operations.\<close>

definition moves :: "('w \<Rightarrow> phase) \<Rightarrow> phase \<Rightarrow> phase \<Rightarrow> ('w, 'a) rtm \<Rightarrow> ('a \<Rightarrow> bool) \<Rightarrow> bool" where
  "moves ph p q m P \<longleftrightarrow> (\<forall>s. ph (rt_world s) = p \<longrightarrow>
     (\<exists>a s'. m s = (Inr a, s') \<and> P a \<and> ph (rt_world s') = q))"

lemma moves_ok: "P a \<Longrightarrow> moves ph p p (ok a) P"
  by (simp add: moves_def ok_def)

lemma moves_say: "moves ph p p (say x) (\<lambda>_. True)"
  by (simp add: moves_def say_def)

lemma moves_perform: "leads ph p q call P \<Longrightarrow> moves ph p q (perform call ev) P"
  by (fastforce simp: moves_def leads_def perform_def split: prod.splits)

lemma moves_raise: "is_ok r \<Longrightarrow> moves ph p p (raise_io r) (\<lambda>a. r = Inr a)"
  by (cases r) (simp_all add: moves_def raise_io_def ok_def)

lemma moves_and_then:
  assumes "moves ph p q m P" and "\<And>a. P a \<Longrightarrow> moves ph q r (f a) Q"
  shows "moves ph p r (and_then m f) Q"
  using assms unfolding moves_def and_then_def by fastforce

lemma moves_in_context: "moves ph p q m P \<Longrightarrow> moves ph p q (in_context c m) P"
  by (fastforce simp: moves_def in_context_def)

lemma moves_owning: "moves ph p q m P \<Longrightarrow> moves ph p q (owning H n m) P"
  by (fastforce simp: moves_def owning_def)

lemma moves_weaken: "moves ph p q m P \<Longrightarrow> (\<And>a. P a \<Longrightarrow> Q a) \<Longrightarrow> moves ph p q m Q"
  by (fastforce simp: moves_def)

lemma moves_attempt: "moves ph p q m P \<Longrightarrow> moves ph p q (attempt m) (\<lambda>r. \<exists>a. r = Inr a \<and> P a)"
  by (fastforce simp: moves_def attempt_def)

lemma moves_sleep:
  assumes "keeps ph (h_sleep H ms) (\<lambda>_. True)"
  shows "moves ph p p (sleep H ms) (\<lambda>_. True)"
  using assms by (fastforce simp: moves_def sleep_def keeps_def leads_def split: prod.splits)

lemma moves_open:
  fixes ph :: "'a \<Rightarrow> phase"
  shows "keeps ph call is_ok \<Longrightarrow> moves ph p p (open_handle call c) (\<lambda>_. True)"
  unfolding moves_def
proof (intro allI impI)
  fix s :: "'a rt"
  assume keep: "keeps ph call is_ok" and p: "ph (rt_world s) = p"
  obtain r dt w where call: "call (rt_world s) = (r, dt, w)" by (metis prod_cases3)
  from keep p have "leads ph p p call is_ok" by (simp add: keeps_def)
  with call p have "is_ok r" "ph w = p" by (auto simp: leads_def)
  with call show "\<exists>a s'. open_handle call c s = (Inr a, s') \<and> True \<and> ph (rt_world s') = p"
    by (cases r) (simp_all add: open_handle_def Let_def)
qed

lemma moves_call:
  assumes "leads ph p q call is_ok"
  shows "moves ph p q (in_context c (and_then (perform call ev) raise_io)) (\<lambda>_. True)"
  by (rule moves_in_context, rule moves_and_then [OF moves_perform [OF assms]])
    (rule moves_weaken [OF moves_raise], simp_all)

context update_cycle
begin

lemma keep: "keeps ph call P \<Longrightarrow> leads ph p p call P"
  by (simp add: keeps_def)

lemma moves_close: "moves ph p p (close_handle H n) (\<lambda>_. True)"
  unfolding close_handle_def by (rule moves_perform [OF keep [OF rests(1)]])

lemma moves_client_new: "moves ph p p (client_new H n ms) (\<lambda>_. True)"
proof -
  have "moves ph p p (case r of Inl e \<Rightarrow> fail (SetTimeoutFailed e) | Inr _ \<Rightarrow> ok \<lparr>cl_inner = n, cl_timeout = ms\<rparr>)
      (\<lambda>_. True)" if "is_ok r" for r :: "string + unit"
    using that by (cases r) (simp_all add: moves_ok)
  then show ?thesis
    unfolding client_new_def by (intro moves_owning moves_and_then [OF moves_perform [OF keep [OF limits(1)]]])
qed

lemma moves_tune: "moves ph p p (tune_frame_size H c) (\<lambda>_. True)"
  unfolding tune_frame_size_def
  by (rule moves_and_then [OF moves_perform [OF keep [OF limits(3)]]]) (rule moves_ok, simp)

lemma moves_demux:
  "moves ph p p (owning H n (and_then (perform (h_demux H n ms) ev) raise_io)) (\<lambda>_. True)"
  by (rule moves_owning, rule moves_and_then [OF moves_perform [OF keep [OF links(2)]]])
    (rule moves_weaken [OF moves_raise], simp_all)

lemma moves_connect:
  assumes "\<And>mgmt log. res = SerialPort mgmt log \<Longrightarrow> utf8_valid mgmt"
  shows "moves ph p p (connect H res) (\<lambda>_. True)"
proof -
  have serial: "moves ph p p (connect_serial H path demux) (\<lambda>_. True)" if "utf8_valid path" for path demux
    using that
    by (cases demux) (auto simp: connect_serial_def
        intro!: moves_and_then [OF moves_open [OF links(1)]] moves_and_then [OF moves_demux] moves_client_new)
  have "moves ph p p (case res of SerialPort mgmt log \<Rightarrow> connect_serial H mgmt (log = None)
      | CanNode iface node_id _ \<Rightarrow> connect_can H iface node_id) (\<lambda>_. True)"
    using assms
    by (cases res) (auto simp: connect_can_def
        intro!: serial moves_and_then [OF moves_open [OF links(3)]] moves_client_new)
  then show ?thesis
    unfolding connect_def by (rule moves_and_then) (rule moves_and_then [OF moves_tune], rule moves_ok, simp)
qed

lemma moves_echo: "moves ph p p (echo H c payload) (\<lambda>_. True)"
  unfolding echo_def by (rule moves_call [OF keep [OF echoes]])

lemma moves_limits: "moves ph p p (set_limits H c ms k) (\<lambda>_. True)"
  unfolding set_limits_def
  by (rule moves_and_then [OF moves_perform [OF keep [OF limits(1)]]])
    (rule moves_perform [OF keep [OF limits(2)]])

abbreviation fit :: "describe \<Rightarrow> bool" where
  "fit d \<equiv> contract_major d = Some CONTRACT_MAJOR \<and> de_img d \<noteq> Some False"

lemma moves_describe: "moves ph p p (client_describe H c) fit"
  unfolding client_describe_def
  by (rule moves_in_context, rule moves_and_then [OF moves_perform [OF keep [OF describes]]])
    (rule moves_weaken [OF moves_raise], auto)

lemma moves_probe: "moves ph p p (probe_settings H c ms k (client_describe H c)) (\<lambda>r. \<exists>d. r = Inr d \<and> fit d)"
  unfolding probe_settings_def
  by (rule moves_and_then [OF moves_limits], rule moves_and_then [OF moves_attempt [OF moves_describe]])
    (rule moves_and_then [OF moves_limits], rule moves_ok)

lemma moves_identify: "moves ph p p (identify H c) (\<lambda>_. True)"
proof -
  have opt: "moves ph p p (case x of None \<Rightarrow> ok () | Some serial \<Rightarrow> say (BoardSerial serial)) (\<lambda>_. True)" for x
    by (cases x) (simp_all add: moves_ok moves_say)
  have cond: "moves ph p p (when_do b (say x)) (\<lambda>_. True)" for b x
    by (simp add: when_do_def moves_ok moves_say)
  have "moves ph p p (report d) (\<lambda>_. True)" if "fit d" for d
    using that by (auto simp: report_def intro!: moves_and_then [OF cond] moves_and_then [OF opt] moves_say)
  then have "moves ph p p (case r of Inl _ \<Rightarrow> ok () | Inr d \<Rightarrow> report d) (\<lambda>_. True)"
    if "\<exists>d. r = Inr d \<and> fit d" for r :: "deploy_error + describe"
    using that by auto
  then show ?thesis
    unfolding identify_def by (rule moves_and_then [OF moves_probe])
qed

lemma moves_image_list:
  "moves ph p p (image_list H c) (\<lambda>slots. \<exists>images. slots = map convert images \<and> sees digest p images)"
  unfolding image_list_def
  by (rule moves_in_context, rule moves_and_then [OF moves_perform [OF lists]],
      rule moves_and_then [OF moves_raise]) (auto intro: moves_ok)

lemma moves_gate: "moves ph p p (confirm_contract_matches H c) (\<lambda>_. True)"
proof -
  have "moves ph p p (case r of Inl _ \<Rightarrow> ok () | Inr d \<Rightarrow>
       (case contract_major d of None \<Rightarrow> fail (UnparseableContract (de_contract d))
        | Some major \<Rightarrow> if major \<noteq> CONTRACT_MAJOR then fail (ContractRefused (de_contract d)) else ok ()))
      (\<lambda>_. True)" if "\<exists>d. r = Inr d \<and> fit d" for r :: "deploy_error + describe"
    using that by (auto simp: moves_ok)
  then show ?thesis unfolding confirm_contract_matches_def by (rule moves_and_then [OF moves_probe])
qed

lemma unseen:
  assumes "sees digest Idle images"
  shows "\<not> already_runs digest (map convert images)" "\<not> known_unbootable digest (map convert images)"
proof -
  have none: "sl_hash i \<noteq> Some digest" if "i \<in> set (map convert images)" for i
    using assms that by (auto simp: sees_def convert_def)
  show "\<not> already_runs digest (map convert images)"
  proof (cases "find sl_active (map convert images)")
    case (Some i)
    then have "i \<in> set (map convert images)" by (simp only: find_in)
    with none Some show ?thesis by (simp add: already_runs_def)
  qed (simp add: already_runs_def)
  show "\<not> known_unbootable digest (map convert images)"
    using none by (auto simp: known_unbootable_def list_ex_iff)
qed

lemma find_convert:
  "find (\<lambda>s. sl_hash s = Some digest) (map convert images) =
    map_option convert (find (\<lambda>i. ti_hash i = Some digest) images)"
  "find sl_active (map convert images) = map_option convert (find ti_active images)"
  by (induction images) (simp_all add: convert_def)

lemma moves_mark: "moves ph Staged Trial (mark_landed H c digest) (\<lambda>st. st = TestMarked)"
proof -
  have marked: "moves ph Staged Trial
      (and_then (in_context MarkFailed (client_set_state H c digest False)) (\<lambda>_.
       and_then (say MarkedTest) (\<lambda>_.
       and_then (in_context ResetFailed (client_reset H c)) (\<lambda>_. ok TestMarked)))) (\<lambda>st. st = TestMarked)"
    unfolding client_set_state_def client_reset_def
    by (rule moves_and_then [OF moves_in_context [OF moves_call [OF marks]]],
        rule moves_and_then [OF moves_say],
        rule moves_and_then [OF moves_in_context [OF moves_call [OF boots]]]) (rule moves_ok, simp)
  show ?thesis
    unfolding mark_landed_def
    by (rule moves_and_then [OF moves_image_list])
      (use marked in \<open>auto simp: sees_def find_convert convert_def\<close>)
qed

lemma moves_stage: "moves ph Idle Trial (stage_image H sha D c img digest) (\<lambda>st. st = TestMarked)"
proof -
  have flash: "moves ph Idle Staged (flash H sha c img f) (\<lambda>_. True)" for f
    unfolding flash_def
    by (rule moves_in_context, rule moves_and_then [OF moves_perform [OF uploads]])
      (auto intro: moves_weaken [OF moves_raise] split: prod.splits)
  have "moves ph Idle Trial
      (if dp_skip_if_same D \<and> already_runs digest slots
       then and_then (say AlreadyRuns) (\<lambda>_. ok NothingToDo)
       else if known_unbootable digest slots then fail (MarkedUnbootable digest)
       else and_then (in_context UploadFailed (flash H sha c img (advance 0))) (\<lambda>_. mark_landed H c digest))
      (\<lambda>st. st = TestMarked)"
    if "\<exists>images. slots = map convert images \<and> sees digest Idle images" for slots
    using that unseen moves_and_then [OF moves_in_context [OF flash] moves_mark] by auto
  then show ?thesis
    unfolding stage_image_def
    by (rule moves_and_then [OF moves_in_context [OF moves_echo] moves_and_then [OF moves_identify
          moves_and_then [OF moves_image_list]]])
qed

lemma moves_confirm: "moves ph Trial Confirmed (confirm_image H c digest) (\<lambda>a. a = c)"
proof -
  have gate: "moves ph Trial Confirmed
      (and_then (confirm_contract_matches H c) (\<lambda>_.
       and_then (in_context ConfirmFailed (client_set_state H c digest True)) (\<lambda>_.
       and_then (say ImageConfirmed) (\<lambda>_. ok c)))) (\<lambda>a. a = c)"
    unfolding client_set_state_def
    by (rule moves_and_then [OF moves_gate],
        rule moves_and_then [OF moves_in_context [OF moves_call [OF confirms]]],
        rule moves_and_then [OF moves_say]) (rule moves_ok, simp)
  show ?thesis
    unfolding confirm_image_def
    by (rule moves_and_then [OF moves_image_list])
      (use gate in \<open>auto simp: sees_def find_convert convert_def\<close>)
qed

lemma moves_reconnect:
  assumes "\<And>mgmt log. res = SerialPort mgmt log \<Longrightarrow> utf8_valid mgmt"
  shows "moves ph p p (reconnect H res) (\<lambda>_. True)"
  unfolding moves_def
proof (intro allI impI)
  fix s :: "'w rt"
  assume "ph (rt_world s) = p"
  then obtain s1 where s1: "sleep H 500 s = (Inr (), s1)" "ph (rt_world s1) = p"
    using moves_sleep [OF rests(2)] by (fastforce simp: moves_def)
  have "moves ph p p (connect_and_echo H res) (\<lambda>_. True)"
    unfolding connect_and_echo_def
    by (rule moves_and_then [OF moves_connect [OF assms]], assumption, rule moves_owning,
        rule moves_and_then [OF moves_echo], rule moves_ok) simp
  with s1 obtain c s' where "connect_and_echo H res s1 = (Inr c, s')" "ph (rt_world s') = p"
    by (fastforce simp: moves_def)
  with s1 show "\<exists>a s'. reconnect H res s = (Inr a, s') \<and> True \<and> ph (rt_world s') = p"
    by (auto simp: reconnect_def REBOOT_GRACE_def reconnect_loop.simps)
qed

text \<open>Against such a board a deploy succeeds and leaves the image confirmed.\<close>

lemma deploy_confirms:
  assumes "mcuboot_parse cfg img = Some (Done (Inr info))" and "ii_digest info = digest"
    and "dp_firmware D = fw"
    and "\<And>mgmt log. dp_resolved D = SerialPort mgmt log \<Longrightarrow> utf8_valid mgmt"
  shows "moves ph Idle Confirmed (deploy_run H sha cfg D) (\<lambda>_. True)"
proof -
  have "moves ph Idle Idle (read_image H cfg fw) (\<lambda>r. r = (img, info))"
    unfolding read_image_def
    by (rule moves_and_then [where q = Idle and P = "\<lambda>a. a = img"], rule moves_in_context,
        rule moves_and_then [OF moves_perform [OF keep [OF reads]]], rule moves_weaken [OF moves_raise])
      (auto simp: assms(1) intro: moves_ok)
  moreover have "moves ph Trial Confirmed (and_then (close_handle H n) (\<lambda>_.
      and_then (in_context DidNotComeBack (reconnect H (dp_resolved D))) (\<lambda>c'.
        owning H (cl_inner c') (confirm_image H c' digest)))) (\<lambda>_. True)" for n
    by (rule moves_and_then [OF moves_close],
        rule moves_and_then [OF moves_in_context [OF moves_reconnect [OF assms(4)]]], assumption,
        rule moves_owning, rule moves_weaken [OF moves_confirm]) simp
  ultimately show ?thesis
    unfolding deploy_run_def assms(3)
    by (auto intro!: moves_and_then [where q = Idle and P = "\<lambda>r. r = (img, info)"]
        moves_and_then [OF moves_connect [OF assms(4)]]
        moves_and_then [OF moves_owning [OF moves_stage]] simp: assms(2))
qed

end

end
