(* ===== verification/Mock_Deploy.thy ===== *)
theory Mock_Deploy
  imports Board_Host Resident
begin

text \<open>
  The deploy sequence of \<open>crates/runtt/src/flash.rs\<close> against the emulated board of
  \<open>crates/runtt-mock/src/device.rs\<close>, over a link that loses nothing, as in
  \<open>crates/runtt/tests/e2e_against_mock.rs\<close>.  The calls of the client are the board's operations, an
  upload is the chunk loop of \<open>Device\<close>, and the image list is the one \<open>Server::state_payload\<close>
  reports.  The board is shown to keep the contract \<open>update_cycle\<close>, so the deploy confirms on it.
\<close>

subsection \<open>The emulated board as a host\<close>

definition board_image :: "slot_report \<Rightarrow> toolkit_image" where
  "board_image r = \<lparr>ti_image = 0, ti_slot = sr_slot r, ti_version = im_version (sr_img r),
     ti_hash = Some (im_hash (sr_img r)), ti_bootable = im_bootable (sr_img r),
     ti_pending = im_pending (sr_img r), ti_confirmed = im_confirmed (sr_img r),
     ti_active = sr_active r, ti_permanent = im_permanent (sr_img r)\<rparr>"

definition at_once :: "'r \<Rightarrow> 'w \<Rightarrow> 'r \<times> nat \<times> 'w" where
  "at_once r w = (r, 0, w)"

definition mock_host ::
    "usize_cfg \<Rightarrow> (bytes \<Rightarrow> bytes) \<Rightarrow> (string \<Rightarrow> bytes option) \<Rightarrow> describe \<Rightarrow> device host" where
  "mock_host cfg sha files d =
     \<lparr>h_read_file = (\<lambda>path. at_once (case files path of Some b \<Rightarrow> Inr b | None \<Rightarrow> Inl ''not found'')),
      h_open_serial = (\<lambda>path baud ms. at_once (Inr ())), h_demux = (\<lambda>n ms. at_once (Inr ())),
      h_open_isotp = (\<lambda>iface node ms. at_once (Inr ())), h_close = (\<lambda>n. at_once ()),
      h_set_timeout = (\<lambda>n ms. at_once (Inr ())), h_set_retries = (\<lambda>n k. at_once ()),
      h_auto_frame = (\<lambda>n. at_once (Inr ())), h_echo = (\<lambda>n payload. at_once (Inr payload)),
      h_describe = (\<lambda>n. at_once (Inr d)),
      h_image_state = (\<lambda>n w. at_once (Inr (map board_image (image_states w))) w),
      h_upload = (\<lambda>n img digest w.
        case upload_whole cfg sha w img of
          Some (Complete len True, w') \<Rightarrow> at_once (Inr (), [(0, len, length img)]) w'
        | Some (_, w') \<Rightarrow> at_once (Inl ''upload failed'', []) w'
        | None \<Rightarrow> at_once (Inl ''upload failed'', []) w),
      h_reset = (\<lambda>n w. at_once (Inr ()) (reset w)),
      h_set_state = (\<lambda>n hash confirm w.
        case set_state w (Some hash) confirm of
          (Inr _, w') \<Rightarrow> at_once (Inr ()) w' | (Inl _, w') \<Rightarrow> at_once (Inl ''refused'') w'),
      h_sleep = (\<lambda>ms. at_once ()), h_stop = at_once False\<rparr>"

text \<open>The phase of an update to the image with that digest.\<close>

definition holds_image :: "bytes \<Rightarrow> slot_image option \<Rightarrow> bool" where
  "holds_image digest slot \<longleftrightarrow> (case slot of None \<Rightarrow> False | Some i \<Rightarrow> im_hash i = digest)"

definition reliable :: "fault \<Rightarrow> bool" where
  "reliable f \<longleftrightarrow> (case f of NoFault \<Rightarrow> True | RestartUpload _ \<Rightarrow> True | _ \<Rightarrow> False)"

definition mock_phase :: "bytes \<Rightarrow> device \<Rightarrow> phase" where
  "mock_phase digest w =
     (if \<not> reliable (dev_fault w) then Elsewhere
      else if holds_image digest (dev_slot0 w) then
        (if dev_awaiting_confirm w then Trial
         else if map_option im_confirmed (dev_slot0 w) = Some True then Confirmed else Elsewhere)
      else if dev_awaiting_confirm w then Elsewhere
      else if holds_image digest (dev_slot1 w) then
        (if map_option im_pending (dev_slot1 w) = Some False then Staged
         else if map_option im_permanent (dev_slot1 w) = Some False then Marked else Elsewhere)
      else Idle)"

lemmas phase_defs = mock_phase_def holds_image_def

lemma phase_iff:
  "mock_phase h w = Staged \<longleftrightarrow> reliable (dev_fault w) \<and> \<not> holds_image h (dev_slot0 w) \<and>
     \<not> dev_awaiting_confirm w \<and> (\<exists>i. dev_slot1 w = Some i \<and> im_hash i = h \<and> \<not> im_pending i)"
  "mock_phase h w = Marked \<longleftrightarrow> reliable (dev_fault w) \<and> \<not> holds_image h (dev_slot0 w) \<and>
     \<not> dev_awaiting_confirm w \<and>
     (\<exists>i. dev_slot1 w = Some i \<and> im_hash i = h \<and> im_pending i \<and> \<not> im_permanent i)"
  "mock_phase h w = Trial \<longleftrightarrow> reliable (dev_fault w) \<and> dev_awaiting_confirm w \<and>
     (\<exists>i. dev_slot0 w = Some i \<and> im_hash i = h)"
  "mock_phase h w = Confirmed \<longleftrightarrow> reliable (dev_fault w) \<and> \<not> dev_awaiting_confirm w \<and>
     (\<exists>i. dev_slot0 w = Some i \<and> im_hash i = h \<and> im_confirmed i)"
  by (auto simp: phase_defs split: option.splits)

lemma reliable_honest:
  "reliable f \<Longrightarrow> honest_fault f \<and> f \<noteq> DigestAlreadyFailed \<and> f \<noteq> RevertOnBoot"
  by (cases f) (auto simp: reliable_def honest_fault_def)

lemmas call_defs = mock_host_def at_once_def set_state_def confirm_running_def reset_def Let_def

locale mock_deploy =
  fixes cfg :: usize_cfg and sha :: "bytes \<Rightarrow> bytes" and files :: "string \<Rightarrow> bytes option"
    and d :: describe and fw :: string and img :: bytes and info :: image_info
  assumes on_disk: "files fw = Some img" and some_bytes: "img \<noteq> []"
    and parses: "mcuboot_parse cfg img = Some (Done (Inr info))"
    and speaks: "contract_major d = Some CONTRACT_MAJOR" "de_img d \<noteq> Some False"
begin

abbreviation ph :: "device \<Rightarrow> phase" where "ph \<equiv> mock_phase (ii_digest info)"

lemma idle_upload:
  assumes "ph w = Idle"
  shows "\<exists>w'. upload_whole cfg sha w img = Some (Complete (length img) True, w') \<and> ph w' = Staged"
proof -
  let ?im = "\<lparr>im_version = ii_version info, im_hash = ii_digest info, im_bytes = length img,
    im_bootable = True, im_pending = False, im_confirmed = False, im_permanent = False\<rparr>"
  have "image_from_bytes cfg sha img ''2.0.0+staged'' = Some ?im"
    by (simp add: image_from_bytes_def parses)
  moreover have "honest_fault (dev_fault w)"
    using assms reliable_honest by (auto simp: phase_defs split: if_splits)
  ultimately obtain w' where up: "upload_whole cfg sha w img = Some (Complete (length img) True, w')"
    and s1: "dev_slot1 w' = Some ?im"
    using upload_whole_stages [OF some_bytes] by blast
  from upload_loop_frame [OF up [unfolded upload_whole_def]] have "same_run w w'" by simp
  with assms s1 have "ph w' = Staged"
    by (auto simp: same_run_def phase_defs split: if_splits)
  with up show ?thesis by blast
qed

lemma mock_calls:
  "leads ph p p (h_image_state (mock_host cfg sha files d) n)
     (\<lambda>r. \<exists>images. r = Inr images \<and> sees (ii_digest info) p images)"
  "leads ph Idle Staged (h_upload (mock_host cfg sha files d) n img h) (\<lambda>r. is_ok (fst r))"
  "leads ph Staged Marked (h_set_state (mock_host cfg sha files d) n (ii_digest info) False) is_ok"
  "leads ph Marked Trial (h_reset (mock_host cfg sha files d) n) is_ok"
  "leads ph Trial Confirmed (h_set_state (mock_host cfg sha files d) n (ii_digest info) True) is_ok"
proof -
  show "leads ph p p (h_image_state (mock_host cfg sha files d) n)
     (\<lambda>r. \<exists>images. r = Inr images \<and> sees (ii_digest info) p images)"
    by (auto simp: leads_def mock_host_def at_once_def sees_def phase_defs image_states_def board_image_def
        split: phase.splits option.splits if_splits)
  show "leads ph Idle Staged (h_upload (mock_host cfg sha files d) n img h) (\<lambda>r. is_ok (fst r))"
    unfolding leads_def
  proof (intro allI impI)
    fix w
    assume "ph w = Idle"
    from idle_upload [OF this] show "case h_upload (mock_host cfg sha files d) n img h w of
        (r, dt, w') \<Rightarrow> is_ok (fst r) \<and> ph w' = Staged"
      by (auto simp: mock_host_def at_once_def is_ok_def)
  qed
  show "leads ph Staged Marked (h_set_state (mock_host cfg sha files d) n (ii_digest info) False) is_ok"
    "leads ph Marked Trial (h_reset (mock_host cfg sha files d) n) is_ok"
    "leads ph Trial Confirmed (h_set_state (mock_host cfg sha files d) n (ii_digest info) True) is_ok"
    by (auto simp: leads_def phase_iff call_defs is_ok_def holds_image_def dest!: reliable_honest
        split: option.splits)
qed

end

sublocale mock_deploy \<subseteq> cycle: update_cycle "mock_host cfg sha files d" "mock_phase (ii_digest info)"
    sha fw img "ii_digest info"
  by unfold_locales
    (simp_all add: mock_calls, simp_all add: keeps_def leads_def mock_host_def at_once_def is_ok_def on_disk speaks)


context mock_deploy
begin

lemma confirms_fresh:
  assumes "dp_firmware D = fw" and "\<And>mgmt log. dp_resolved D = SerialPort mgmt log \<Longrightarrow> utf8_valid mgmt"
  shows "moves ph Idle Confirmed (deploy_run (mock_host cfg sha files d) sha cfg D) (\<lambda>_. True)"
  by (rule cycle.deploy_confirms [OF parses refl assms])

end

subsection \<open>A concrete run\<close>

definition sample_describe :: describe where
  "sample_describe = \<lparr>de_contract = ''2.1'', de_board = ''native_sim'', de_app_version = ''1.0.0'',
     de_channels = 1, de_img = Some True, de_idle = Some False, de_app_healthy = Some True,
     de_provisioned = Some True, de_serial = Some ''A1'', de_can_node_id = None\<rparr>"

definition sample_digest :: bytes where "sample_digest = replicate 32 5"

definition sample_info :: image_info where
  "sample_info = \<lparr>ii_digest = sample_digest, ii_version = ''1.2.3+4'', ii_header_size = 32, ii_image_size = 2\<rparr>"

definition sample_files :: "string \<Rightarrow> bytes option" where
  "sample_files = [''app.bin'' \<mapsto> sample_image]"

definition sample_deploy :: deploy where
  "sample_deploy = \<lparr>dp_firmware = ''app.bin'', dp_resolved = CanNode ''can0'' 66 None, dp_skip_if_same = True\<rparr>"

definition sample_host :: "device host" where
  "sample_host = mock_host (cfg64 True) id sample_files sample_describe"

definition sample_start :: "device rt" where
  "sample_start = \<lparr>rt_world = staged_board, rt_now = 0, rt_trace = [], rt_opened = 0\<rparr>"

lemma sample_parse: "mcuboot_parse (cfg64 True) sample_image = Some (Done (Inr sample_info))"
  using sample_image_parses by (simp add: sample_info_def sample_digest_def) (simp add: sample_image_def from_le32_def)

lemma sample_contract: "contract_major sample_describe = Some 2"
  by (simp add: contract_major_def sample_describe_def parse_unsigned_def digit_value_def Let_def)

interpretation sample: mock_deploy "cfg64 True" id sample_files sample_describe "''app.bin''" sample_image sample_info
  by unfold_locales (simp_all add: sample_files_def sample_parse sample_contract CONTRACT_MAJOR_def,
     simp_all add: sample_image_def sample_describe_def sample_header_def)


lemmas monad_run = and_then_def ok_def fail_def in_context_def attempt_def perform_def raise_io_def is_ok_def
  ok_value_def say_def sleep_def close_handle_def owning_def open_handle_def dropping_def when_do_def

lemmas client_run = client_new_def tune_frame_size_def set_limits_def probe_settings_def echo_def
  client_describe_def image_list_def client_reset_def client_set_state_def flash_def connect_def connect_can_def
  identify_def report_def confirm_contract_matches_def read_image_def

definition fresh_image :: slot_image where
  "fresh_image = \<lparr>im_version = ''1.2.3+4'', im_hash = sample_digest, im_bytes = 80, im_bootable = True,
     im_pending = False, im_confirmed = False, im_permanent = False\<rparr>"

definition uploaded_board :: device where
  "uploaded_board = staged_board\<lparr>dev_upload := \<lparr>up_expected_len = 80, up_declared_sha = Some sample_image,
     up_received = sample_image, up_chunks = 1, up_restart_demanded = False\<rparr>, dev_slot1 := Some fresh_image\<rparr>"

definition marked_board :: device where
  "marked_board = uploaded_board\<lparr>dev_slot1 := Some (fresh_image\<lparr>im_pending := True\<rparr>)\<rparr>"

lemma sample_upload:
  "upload_whole (cfg64 True) id staged_board sample_image = Some (Complete 80 True, uploaded_board)"
  using sample_parse
  by (simp add: upload_whole_def upload_loop.simps upload_chunk_def length_sample_image board_defs Let_def
      image_from_bytes_def sample_info_def uploaded_board_def fresh_image_def)

lemma mock_calls_run [simp]:
  "h_read_file sample_host path w =
    (case sample_files path of Some b \<Rightarrow> (Inr b, 0, w) | None \<Rightarrow> (Inl ''not found'', 0, w))"
  "h_open_isotp sample_host iface node ms w = (Inr (), 0, w)"
  "h_close sample_host n w = ((), 0, w)" "h_set_timeout sample_host n ms w = (Inr (), 0, w)"
  "h_set_retries sample_host n k w = ((), 0, w)" "h_auto_frame sample_host n w = (Inr (), 0, w)"
  "h_echo sample_host n p w = (Inr p, 0, w)" "h_describe sample_host n w = (Inr sample_describe, 0, w)"
  "h_image_state sample_host n w = (Inr (map board_image (image_states w)), 0, w)"
  "h_reset sample_host n w = (Inr (), 0, reset w)" "h_sleep sample_host ms w = ((), 0, w)"
  "h_stop sample_host w = (False, 0, w)"
  by (simp_all add: sample_host_def mock_host_def at_once_def split: option.split)

definition slots_of :: "device \<Rightarrow> image_slot list" where
  "slots_of w = map convert (map board_image (image_states w))"

lemma other_digest: "sample_digest \<noteq> [1]" "sample_digest \<noteq> [2]" "[1] \<noteq> sample_digest" "[2] \<noteq> sample_digest"
  by (simp_all add: sample_digest_def numeral_eq_Suc)

lemma sample_slots:
  "\<not> already_runs sample_digest (slots_of staged_board)"
  "\<not> known_unbootable sample_digest (slots_of staged_board)"
  "find (\<lambda>s. sl_hash s = Some sample_digest) (slots_of uploaded_board) =
    Some (convert (board_image \<lparr>sr_slot = 1, sr_active = False, sr_img = fresh_image\<rparr>))"
  "find sl_active (slots_of (reset marked_board)) =
    Some (convert (board_image \<lparr>sr_slot = 0, sr_active = True, sr_img = fresh_image\<rparr>))"
  by (simp_all add: slots_of_def image_states_def reset_def marked_board_def uploaded_board_def board_defs
      fresh_image_def convert_def board_image_def already_runs_def known_unbootable_def other_digest)

lemma sample_marks:
  "h_upload sample_host n sample_image h staged_board = ((Inr (), [(0, 80, 80)]), 0, uploaded_board)"
  "h_set_state sample_host n sample_digest False uploaded_board = (Inr (), 0, marked_board)"
  "h_set_state sample_host n sample_digest True (reset marked_board) =
    (Inr (), 0, confirm_running fresh_image (reset marked_board))"
  by (simp_all add: sample_host_def mock_host_def at_once_def sample_upload length_sample_image)
    (simp_all add: set_state_def uploaded_board_def marked_board_def staged_board_def old_image_def fresh_image_def
      other_digest reset_def Let_def at_once_def)

lemma sample_calls:
  "connect sample_host (CanNode iface node log) s =
    (Inr \<lparr>cl_inner = rt_opened s, cl_timeout = SMP_TIMEOUT\<rparr>,
     s\<lparr>rt_trace := rt_trace s @ [EvOpened (rt_opened s), EvTimeout (rt_opened s) SMP_TIMEOUT,
         EvAutoFrame (rt_opened s)], rt_opened := rt_opened s + 1\<rparr>)"
  "echo sample_host c p s = (Inr p, s\<lparr>rt_trace := rt_trace s @ [EvEcho (cl_inner c) p True]\<rparr>)"
  "probe_settings sample_host c ms k (client_describe sample_host c) s =
    (Inr (Inr sample_describe), s\<lparr>rt_trace := rt_trace s @ [EvTimeout (cl_inner c) ms, EvRetries (cl_inner c) k,
       EvDescribe (cl_inner c) (Some sample_describe), EvTimeout (cl_inner c) (cl_timeout c),
       EvRetries (cl_inner c) DEFAULT_RETRIES]\<rparr>)"
  "image_list sample_host c s = (Inr (slots_of (rt_world s)),
    s\<lparr>rt_trace := rt_trace s @ [EvList (cl_inner c) (Some (slots_of (rt_world s)))]\<rparr>)"
  by (simp_all add: connect_def connect_can_def client_new_def tune_frame_size_def echo_def probe_settings_def
      set_limits_def client_describe_def image_list_def slots_of_def monad_run Let_def)

lemma sample_report:
  "report sample_describe s = (Inr (), s\<lparr>rt_trace := rt_trace s @
     [EvPrint (BoardSerial ''A1''), EvPrint (BoardIs ''native_sim'' ''1.0.0'' ''2.1'' 1)]\<rparr>)"
  by (simp add: report_def sample_contract CONTRACT_MAJOR_def monad_run) (simp add: sample_describe_def monad_run)

lemma sample_reconnect:
  "reconnect sample_host (CanNode iface node log) s =
    (Inr \<lparr>cl_inner = rt_opened s, cl_timeout = SMP_TIMEOUT\<rparr>,
     s\<lparr>rt_now := rt_now s + 500, rt_trace := rt_trace s @ [EvSleep 500, EvOpened (rt_opened s),
         EvTimeout (rt_opened s) SMP_TIMEOUT, EvAutoFrame (rt_opened s), EvEcho (rt_opened s) ''runtt'' True],
       rt_opened := rt_opened s + 1\<rparr>)"
  by (simp add: reconnect_def reconnect_loop.simps connect_and_echo_def sample_calls monad_run REBOOT_GRACE_def)

definition sample_early :: "event list" where
  "sample_early = [EvOpened 0, EvTimeout 0 SMP_TIMEOUT, EvAutoFrame 0, EvEcho 0 ''runtt'' True,
     EvTimeout 0 PROBE_TIMEOUT, EvRetries 0 1, EvDescribe 0 (Some sample_describe),
     EvTimeout 0 SMP_TIMEOUT, EvRetries 0 DEFAULT_RETRIES, EvPrint (BoardSerial ''A1''),
     EvPrint (BoardIs ''native_sim'' ''1.0.0'' ''2.1'' 1), EvList 0 (Some (slots_of staged_board)),
     EvPrint (Uploading 80 80 100)]"

definition sample_middle :: "event list" where
  "sample_middle = [EvList 0 (Some (slots_of uploaded_board)),
     EvSetState 0 sample_digest False True, EvPrint MarkedTest, EvReset 0 True, EvClosed 0, EvSleep 500,
     EvOpened 1, EvTimeout 1 SMP_TIMEOUT, EvAutoFrame 1, EvEcho 1 ''runtt'' True,
     EvList 1 (Some (slots_of (reset marked_board))), EvTimeout 1 PROBE_TIMEOUT, EvRetries 1 1,
     EvDescribe 1 (Some sample_describe), EvTimeout 1 SMP_TIMEOUT, EvRetries 1 DEFAULT_RETRIES]"

definition sample_late :: "event list" where
  "sample_late = sample_middle @ [EvSetState 1 sample_digest True True, EvPrint ImageConfirmed]"

definition sample_end :: "device rt" where
  "sample_end = \<lparr>rt_world = confirm_running fresh_image (reset marked_board), rt_now = 500,
     rt_trace = sample_early @ EvUpload 0 sample_image True # sample_late, rt_opened = 2\<rparr>"

lemma sample_run:
  "deploy_run sample_host id (cfg64 True) sample_deploy sample_start =
    (Inr \<lparr>cl_inner = 1, cl_timeout = SMP_TIMEOUT\<rparr>, sample_end)"
proof -
  have stage: "stage_image sample_host id sample_deploy \<lparr>cl_inner = 0, cl_timeout = SMP_TIMEOUT\<rparr> sample_image
      sample_digest \<lparr>rt_world = staged_board, rt_now = 0, rt_trace = [EvOpened 0, EvTimeout 0 SMP_TIMEOUT,
        EvAutoFrame 0], rt_opened = Suc 0\<rparr> =
    (Inr TestMarked, \<lparr>rt_world = reset marked_board, rt_now = 0, rt_trace = sample_early @
      EvUpload 0 sample_image True # take 4 sample_middle, rt_opened = Suc 0\<rparr>)"
    by (simp add: stage_image_def sample_calls identify_def sample_report monad_run sample_slots)
      (simp add: flash_def mark_landed_def client_set_state_def client_reset_def sample_calls sample_marks
        sample_slots monad_run, simp add: convert_def board_image_def sample_early_def sample_middle_def)
  have confirm: "confirm_image sample_host \<lparr>cl_inner = Suc 0, cl_timeout = SMP_TIMEOUT\<rparr> sample_digest s =
    (Inr \<lparr>cl_inner = Suc 0, cl_timeout = SMP_TIMEOUT\<rparr>,
      s\<lparr>rt_world := confirm_running fresh_image (reset marked_board), rt_trace := rt_trace s @
        drop 10 sample_late\<rparr>)" if "rt_world s = reset marked_board" for s
    using that
    by (simp add: confirm_image_def sample_calls sample_slots confirm_contract_matches_def monad_run
        sample_contract CONTRACT_MAJOR_def client_set_state_def sample_marks sample_late_def sample_middle_def)
      (simp add: convert_def board_image_def fresh_image_def)
  show ?thesis
    by (simp add: deploy_run_def sample_start_def sample_deploy_def read_image_def sample_files_def
        sample_parse sample_calls monad_run)
      (simp add: stage [unfolded sample_deploy_def] sample_info_def sample_reconnect monad_run confirm,
        simp add: sample_end_def sample_late_def sample_middle_def)
qed

subsection \<open>Properties\<close>

text \<open>C3: a deploy succeeds and sticks.  Against an emulated board that answers, does not lose or corrupt
  data (it may demand that the upload starts over) and does not hold the image yet, deploying a
  readable, well-formed image returns a connection, and the board then runs exactly that digest,
  confirmed and no longer on probation.\<close>
theorem deploy_confirms_on_board:
  assumes "files (dp_firmware D) = Some img" and "img \<noteq> []"
    and "mcuboot_parse cfg img = Some (Done (Inr info))"
    and "contract_major d = Some CONTRACT_MAJOR" and "de_img d \<noteq> Some False"
    and "\<And>mgmt log. dp_resolved D = SerialPort mgmt log \<Longrightarrow> utf8_valid mgmt"
    and "reliable (dev_fault (rt_world s))" and "\<not> dev_awaiting_confirm (rt_world s)"
    and "\<not> holds_image (ii_digest info) (dev_slot0 (rt_world s))"
    and "\<not> holds_image (ii_digest info) (dev_slot1 (rt_world s))"
  shows "\<exists>c s' i. deploy_run (mock_host cfg sha files d) sha cfg D s = (Inr c, s') \<and>
    dev_slot0 (rt_world s') = Some i \<and> im_hash i = ii_digest info \<and> im_confirmed i \<and>
    \<not> dev_awaiting_confirm (rt_world s')"
proof -
  have "mock_deploy cfg files d (dp_firmware D) img info"
    by (rule mock_deploy.intro) (fact assms(1-5))+
  from mock_deploy.confirms_fresh [OF this refl assms(6)]
  have "moves (mock_phase (ii_digest info)) Idle Confirmed (deploy_run (mock_host cfg sha files d) sha cfg D) (\<lambda>_. True)" .
  moreover have "mock_phase (ii_digest info) (rt_world s) = Idle"
    using assms(7-10) by (simp add: mock_phase_def)
  ultimately show ?thesis by (fastforce simp: moves_def phase_iff)
qed

lemma deploy_confirms_on_board_witness:
  "\<exists>c s' i. deploy_run sample_host id (cfg64 True) sample_deploy sample_start = (Inr c, s') \<and>
    dev_slot0 (rt_world s') = Some i \<and> im_hash i = sample_digest \<and> im_confirmed i \<and>
    \<not> dev_awaiting_confirm (rt_world s')"
  unfolding sample_host_def
  by (rule deploy_confirms_on_board [of sample_files sample_deploy sample_image "cfg64 True" sample_info
        sample_describe sample_start id, simplified sample_info_def image_info.simps])
    (use sample.on_disk sample.some_bytes sample_parse sample_contract other_digest in
      \<open>auto simp: sample_deploy_def sample_start_def sample_info_def board_defs holds_image_def reliable_def
        sample_describe_def CONTRACT_MAJOR_def\<close>)

subsection \<open>The properties of the deploy sequence on the concrete run\<close>

lemma confirm_only_after_gate_witness:
  "gated (cfg64 True) (sample_early @ EvUpload 0 sample_image True # sample_middle) 1 sample_digest"
  using confirm_only_after_gate [OF sample_run, of
      "sample_early @ EvUpload 0 sample_image True # sample_middle" 1 sample_digest True "[EvPrint ImageConfirmed]"]
  by (simp add: sample_start_def sample_end_def sample_late_def)

lemma deploy_outcomes_witness:
  "EvSetState 1 sample_digest True True \<in> set (rt_trace sample_end)"
proof -
  have "\<not> idle (rt_trace sample_end)" "EvSetState 1 sample_digest True True \<in> set (rt_trace sample_end)"
    by (simp_all add: sample_end_def sample_late_def)
  moreover have "case (Inr \<lparr>cl_inner = 1, cl_timeout = SMP_TIMEOUT\<rparr> :: deploy_error + client) of
      Inl e \<Rightarrow> (\<forall>n h. EvSetState n h True True \<notin> set (rt_trace sample_end)) \<and>
        (no_upload (rt_trace sample_end) \<longrightarrow> idle (rt_trace sample_end)) \<and>
        (tame (rt_trace sample_end) \<or> (\<exists>pre n h. rt_trace sample_end = pre @ [EvSetState n h True False, EvClosed n] \<and>
          tame pre \<and> gated (cfg64 True) pre n h))
    | Inr c \<Rightarrow> \<exists>img info slots n. mcuboot_parse (cfg64 True) img = Some (Done (Inr info)) \<and>
        ((dp_skip_if_same sample_deploy \<and> already_runs (ii_digest info) slots \<and> idle (rt_trace sample_end) \<and>
            EvList n (Some slots) \<in> set (rt_trace sample_end)) \<or>
         (wrote_running (ii_digest info) slots \<and> EvUpload n img True \<in> set (rt_trace sample_end) \<and>
            EvList n (Some slots) \<in> set (rt_trace sample_end) \<and>
            (\<forall>m h b a. EvSetState m h b a \<notin> set (rt_trace sample_end))) \<or>
         EvSetState (cl_inner c) (ii_digest info) True True \<in> set (rt_trace sample_end))"
    by (rule deploy_outcomes [OF sample_run]) (simp add: sample_start_def)
  ultimately show ?thesis by auto
qed

lemma upload_settings_witness:
  "in_force 0 sample_early = (Some SMP_TIMEOUT, Some DEFAULT_RETRIES) \<and> no_upload sample_late"
  using upload_settings [OF sample_run, of sample_early 0 sample_image True sample_late]
  by (simp add: sample_start_def sample_end_def)

lemma handles_balanced_witness: "balance (rt_trace sample_end) = 1"
  using handles_balanced [OF sample_run, of "rt_trace sample_end"] by (simp add: sample_start_def)

lemma reconnect_ends_witness:
  "\<exists>n t. retries n t \<and> n \<le> 60 \<and>
    rt_trace (snd (reconnect sample_host (CanNode ''can0'' 66 None) sample_start)) =
      t @ [EvSleep 500] @ linked \<lparr>cl_inner = 0, cl_timeout = SMP_TIMEOUT\<rparr> @ [EvEcho 0 ''runtt'' True]"
  using reconnect_ends [OF sample_reconnect [of "''can0''" 66 None sample_start]]
  by (simp add: sample_start_def sample_reconnect)

definition unplugged_host :: "device host" where
  "unplugged_host = sample_host\<lparr>h_echo := \<lambda>n p w. (Inl ''timed out'', 0, w)\<rparr>"

lemma unplugged_calls [simp]:
  "h_echo unplugged_host n p w = (Inl ''timed out'', 0, w)" "h_stop unplugged_host w = (False, 0, w)"
  "h_sleep unplugged_host ms w = ((), 0, w)" "h_close unplugged_host n w = ((), 0, w)"
  by (simp_all add: unplugged_host_def)

lemma unplugged_run:
  "resident_loop unplugged_host c 0 s = Some (Inl (LostContact 2),
     s\<lparr>rt_now := rt_now s + 10000, rt_trace := rt_trace s @ missed c @ missed c\<rparr>)"
  by (simp add: resident_loop.simps stop_asked_def echo_def monad_run missed_def HEARTBEAT_INTERVAL_def)

lemma resident_two_strikes_witness:
  "\<exists>tr. [EvStopAsked False, EvSleep 5000, EvStopAsked False, EvEcho 0 ''hb'' False,
       EvStopAsked False, EvSleep 5000, EvStopAsked False, EvEcho 0 ''hb'' False] = tr \<and>
    (\<exists>u. tr = u @ missed \<lparr>cl_inner = 0, cl_timeout = 0\<rparr> @ missed \<lparr>cl_inner = 0, cl_timeout = 0\<rparr>)"
  using resident_two_strikes [OF unplugged_run [of "\<lparr>cl_inner = 0, cl_timeout = 0\<rparr>" sample_start]]
  by (simp add: missed_def sample_start_def HEARTBEAT_INTERVAL_def)

lemma unplugged_board_ends_witness:
  "\<exists>s'. stay_resident unplugged_host \<lparr>cl_inner = 0, cl_timeout = 0\<rparr> sample_start = Some (Inl (LostContact 2), s')"
  by (rule unplugged_board_ends) simp_all

end
