(* ===== verification/Runtime_Io.thy ===== *)
theory Runtime_Io
  imports Flash
begin

text \<open>
  The operating system as the verbs of the runtime see it (\<open>crates/runtt/src\<close>, without \<open>flash.rs\<close>):
  the record \<open>os\<close> of the calls they make on it, over an arbitrary world \<open>'w\<close>, the errors they report
  and the sequencing of fallible calls.  JSON is \<open>serde_json\<close> and \<open>oci_spec\<close>; their codecs are the
  record \<open>json\<close>.  File names and annotation values are valid UTF-8.
\<close>

type_synonym ('w, 'r) call = "'w \<Rightarrow> 'r \<times> 'w"

datatype flock_answer = Locked | WouldBlock | FlockError string

text \<open>The command line of the proxy (\<open>proxy::spawn\<close>), as its arguments and its environment.\<close>

record command =
  cmd_args :: "string list"
  cmd_env :: "(string \<times> string) list"

record 'w os =
  os_create_dir_all :: "string \<Rightarrow> ('w, string + unit) call"
  os_write_file :: "string \<Rightarrow> bytes \<Rightarrow> ('w, string + unit) call"
  os_rename :: "string \<Rightarrow> string \<Rightarrow> ('w, string + unit) call"
  os_remove_file :: "string \<Rightarrow> ('w, string + unit) call"
  os_remove_dir_all :: "string \<Rightarrow> ('w, string + unit) call"
  os_exists :: "string \<Rightarrow> ('w, bool) call"
  os_read_file :: "string \<Rightarrow> ('w, string + bytes) call"
  os_open_lock :: "string \<Rightarrow> ('w, string + int) call"   \<comment> \<open>create, read, write, no truncation\<close>
  os_flock :: "int \<Rightarrow> ('w, flock_answer) call"           \<comment> \<open>\<open>LOCK_EX | LOCK_NB\<close>\<close>
  os_close :: "int \<Rightarrow> ('w, unit) call"
  os_get_fd_flags :: "int \<Rightarrow> ('w, string + int) call"
  os_set_fd_flags :: "int \<Rightarrow> int \<Rightarrow> ('w, string + unit) call"
  os_spawn :: "command \<Rightarrow> ('w, string + int) call"
  os_kill :: "int \<Rightarrow> int \<Rightarrow> ('w, string + unit) call"
  os_env :: "string \<Rightarrow> ('w, string option) call"
  os_now :: "('w, nat) call"                             \<comment> \<open>milliseconds\<close>
  os_sleep :: "nat \<Rightarrow> ('w, unit) call"
  os_print :: "bytes \<Rightarrow> ('w, string + unit) call"        \<comment> \<open>a line to standard output\<close>
  os_eprint :: "bytes \<Rightarrow> ('w, string + unit) call"       \<comment> \<open>a line to standard error\<close>

text \<open>The same calls in a world that holds theirs as a part.\<close>

definition lift_call :: "('v \<Rightarrow> 'w) \<Rightarrow> ('w \<Rightarrow> 'v \<Rightarrow> 'v) \<Rightarrow> ('w, 'r) call \<Rightarrow> ('v, 'r) call" where
  "lift_call part put c v = (case c (part v) of (r, w) \<Rightarrow> (r, put w v))"

definition lift_os :: "('v \<Rightarrow> 'w) \<Rightarrow> ('w \<Rightarrow> 'v \<Rightarrow> 'v) \<Rightarrow> 'w os \<Rightarrow> 'v os" where
  "lift_os part put S =
    \<lparr>os_create_dir_all = (\<lambda>p. lift_call part put (os_create_dir_all S p)),
     os_write_file = (\<lambda>p b. lift_call part put (os_write_file S p b)),
     os_rename = (\<lambda>p q. lift_call part put (os_rename S p q)), os_remove_file = (\<lambda>p. lift_call part put (os_remove_file S p)),
     os_remove_dir_all = (\<lambda>p. lift_call part put (os_remove_dir_all S p)), os_exists = (\<lambda>p. lift_call part put (os_exists S p)),
     os_read_file = (\<lambda>p. lift_call part put (os_read_file S p)), os_open_lock = (\<lambda>p. lift_call part put (os_open_lock S p)),
     os_flock = (\<lambda>fd. lift_call part put (os_flock S fd)), os_close = (\<lambda>fd. lift_call part put (os_close S fd)),
     os_get_fd_flags = (\<lambda>fd. lift_call part put (os_get_fd_flags S fd)),
     os_set_fd_flags = (\<lambda>fd flags. lift_call part put (os_set_fd_flags S fd flags)),
     os_spawn = (\<lambda>c. lift_call part put (os_spawn S c)), os_kill = (\<lambda>pid sig. lift_call part put (os_kill S pid sig)),
     os_env = (\<lambda>v. lift_call part put (os_env S v)), os_now = lift_call part put (os_now S),
     os_sleep = (\<lambda>ms. lift_call part put (os_sleep S ms)),
     os_print = (\<lambda>b. lift_call part put (os_print S b)), os_eprint = (\<lambda>b. lift_call part put (os_eprint S b))\<rparr>"

lemma lift_call_world: "snd (lift_call part put c v) = put (snd (c (part v))) v"
  by (simp add: lift_call_def case_prod_beta)

datatype container_status = Creating | Created | Running | Stopped

record container_state =
  cs_id :: string
  cs_status :: container_status
  cs_pid :: "int option"
  cs_bundle :: string
  cs_annotations :: "(string \<rightharpoonup> string) option"

text \<open>The parts of \<open>config.json\<close> the runtime reads.\<close>

record spec =
  sp_annotations :: "(string \<rightharpoonup> string) option"
  sp_process_args :: "string list option option"   \<comment> \<open>\<open>process\<close>, and its \<open>args\<close>\<close>
  sp_root_path :: "string option"

record json =
  js_state_out :: "container_state \<Rightarrow> string + bytes"    \<comment> \<open>\<open>to_vec_pretty\<close>\<close>
  js_state_line :: "container_state \<Rightarrow> string + bytes"   \<comment> \<open>\<open>to_string\<close>\<close>
  js_state_in :: "bytes \<Rightarrow> string + container_state"
  js_spec_in :: "bytes \<Rightarrow> string + spec"

datatype failed_step =
    CreateStateDir | WriteState | ReadState | RemoveState | SerialiseState
  | CreateLockDir | OpenLock | FlockFailed | GetFlags | SetFlags
  | ReadSpec | ParseSpec | LogTargetInvalid | SpawnProxy | WritePidFile | SignalProxy int
  | ResolveTarget string | AlreadyInUse | ResolveLogTarget string

datatype verb_error =
    Io string
  | EmptyId | IdTooLong nat | IdBadStart string | IdBadCharacter string
  | AlreadyClaimed
  | TargetClaimed string
  | MissingTarget
  | BadLabel label_error
  | EntrypointArguments "string list"
  | NoRootPath
  | NoFirmware string
  | NotCreated container_status
  | NoPid
  | StillRunning
  | SignalOutOfRange int
  | UnknownSignal string
  | CannotResolve resolve_error
  | CanLogTarget string
  | DeployFailed deploy_error
  | PrintPanicked string
  | In_step failed_step verb_error

type_synonym ('w, 'a) io = "'w \<Rightarrow> (verb_error + 'a) \<times> 'w"

definition io_ok :: "'a \<Rightarrow> ('w, 'a) io" where
  "io_ok a w = (Inr a, w)"

definition io_fail :: "verb_error \<Rightarrow> ('w, 'a) io" where
  "io_fail e w = (Inl e, w)"

definition io_bind :: "('w, 'a) io \<Rightarrow> ('a \<Rightarrow> ('w, 'b) io) \<Rightarrow> ('w, 'b) io" where
  "io_bind m f w = (case m w of (Inl e, w') \<Rightarrow> (Inl e, w') | (Inr a, w') \<Rightarrow> f a w')"

text \<open>A call that cannot fail, one that may, and the same with a context.\<close>

definition io_call :: "('w, 'a) call \<Rightarrow> ('w, 'a) io" where
  "io_call c w = (case c w of (a, w') \<Rightarrow> (Inr a, w'))"

definition io_try :: "('w, string + 'a) call \<Rightarrow> ('w, 'a) io" where
  "io_try c w = (case c w of (Inl e, w') \<Rightarrow> (Inl (Io e), w') | (Inr a, w') \<Rightarrow> (Inr a, w'))"

text \<open>\<open>println!\<close>, which panics where the line cannot be written.  Nothing between a print and the end of the
  process catches a panic, changes it or does more, so it is an outcome like an error.\<close>

definition io_print :: "('w, string + unit) call \<Rightarrow> ('w, unit) io" where
  "io_print c w = (case c w of (Inl e, w') \<Rightarrow> (Inl (PrintPanicked e), w') | (Inr u, w') \<Rightarrow> (Inr (), w'))"

definition io_context :: "failed_step \<Rightarrow> ('w, 'a) io \<Rightarrow> ('w, 'a) io" where
  "io_context c m w = (case m w of (Inl e, w') \<Rightarrow> (Inl (In_step c e), w') | (Inr a, w') \<Rightarrow> (Inr a, w'))"

definition io_result :: "verb_error + 'a \<Rightarrow> ('w, 'a) io" where
  "io_result r w = (r, w)"

definition io_attempt :: "('w, 'a) io \<Rightarrow> ('w, verb_error + 'a) io" where
  "io_attempt m w = (case m w of (r, w') \<Rightarrow> (Inr r, w'))"

text \<open>A step of each kind taken apart.\<close>

lemma io_bind_Inr:
  "io_bind m f w = (Inr b, w') \<longleftrightarrow> (\<exists>a w1. m w = (Inr a, w1) \<and> f a w1 = (Inr b, w'))"
  by (auto simp: io_bind_def split: prod.splits sum.splits)

lemma io_bind_Inl:
  "io_bind m f w = (Inl e, w') \<longleftrightarrow> m w = (Inl e, w') \<or> (\<exists>a w1. m w = (Inr a, w1) \<and> f a w1 = (Inl e, w'))"
  by (auto simp: io_bind_def split: prod.splits sum.splits)

lemma io_ok_iff [simp]: "io_ok a w = (r, w') \<longleftrightarrow> r = Inr a \<and> w' = w"
  by (auto simp: io_ok_def)

lemma io_fail_iff [simp]: "io_fail e w = (r, w') \<longleftrightarrow> r = Inl e \<and> w' = w"
  by (auto simp: io_fail_def)

lemma io_result_iff [simp]: "io_result q w = (r, w') \<longleftrightarrow> q = r \<and> w' = w"
  by (auto simp: io_result_def)

lemma io_try_Inr: "io_try c w = (Inr a, w') \<longleftrightarrow> c w = (Inr a, w')"
  by (auto simp: io_try_def split: prod.splits sum.splits)

lemma io_try_Inl: "io_try c w = (Inl e, w') \<longleftrightarrow> (\<exists>s. e = Io s \<and> c w = (Inl s, w'))"
  by (auto simp: io_try_def split: prod.splits sum.splits)

lemma io_print_Inr: "io_print c w = (Inr u, w') \<longleftrightarrow> c w = (Inr (), w')"
  by (auto simp: io_print_def split: prod.splits sum.splits)

lemma io_print_Inl: "io_print c w = (Inl e, w') \<longleftrightarrow> (\<exists>s. e = PrintPanicked s \<and> c w = (Inl s, w'))"
  by (auto simp: io_print_def split: prod.splits sum.splits)

lemma io_call_iff: "io_call c w = (r, w') \<longleftrightarrow> (\<exists>a. r = Inr a \<and> c w = (a, w'))"
  by (auto simp: io_call_def split: prod.splits)

lemma io_context_Inr: "io_context c m w = (Inr a, w') \<longleftrightarrow> m w = (Inr a, w')"
  by (auto simp: io_context_def split: prod.splits sum.splits)

lemma io_context_Inl: "io_context c m w = (Inl e, w') \<longleftrightarrow> (\<exists>e'. e = In_step c e' \<and> m w = (Inl e', w'))"
  by (auto simp: io_context_def split: prod.splits sum.splits)

lemma io_attempt_iff: "io_attempt m w = (r, w') \<longleftrightarrow> (\<exists>q. r = Inr q \<and> m w = (q, w'))"
  by (auto simp: io_attempt_def split: prod.splits)

lemma io_case_sum:
  "(case q of Inl e \<Rightarrow> f e | Inr a \<Rightarrow> g a) w = (r, w') \<longleftrightarrow>
    (\<exists>e. q = Inl e \<and> f e w = (r, w')) \<or> (\<exists>a. q = Inr a \<and> g a w = (r, w'))"
  by (cases q) auto

lemma io_case_option:
  "(case q of None \<Rightarrow> f | Some a \<Rightarrow> g a) w = (r, w') \<longleftrightarrow>
    (q = None \<and> f w = (r, w')) \<or> (\<exists>a. q = Some a \<and> g a w = (r, w'))"
  by (cases q) auto

lemma io_if:
  "(if b then f else g) w = (r, w') \<longleftrightarrow> (b \<and> f w = (r, w')) \<or> (\<not> b \<and> g w = (r, w'))"
  by auto

lemmas io_outcomes = io_bind_Inr io_bind_Inl io_try_Inr io_try_Inl io_print_Inr io_print_Inl io_call_iff io_context_Inr io_context_Inl
  io_attempt_iff io_case_sum io_case_option io_if

lemmas io_run = io_bind_def io_ok_def io_fail_def io_call_def io_try_def io_print_def io_context_def io_result_def
  io_attempt_def

subsection \<open>Steps that keep a relation\<close>

text \<open>\<open>keeping R m\<close>: the world after \<open>m\<close>, whatever its result, is in relation \<open>R\<close> to the one before.  The
  frame conditions of the verbs are stated with it.\<close>

definition keeping :: "('w \<Rightarrow> 'w \<Rightarrow> bool) \<Rightarrow> ('w, 'a) io \<Rightarrow> bool" where
  "keeping R m \<longleftrightarrow> (\<forall>w. R w (snd (m w)))"

named_theorems keeps_intros \<open>what preserves a relation between worlds\<close>

lemma keepingD: "keeping R m \<Longrightarrow> m w = (r, w') \<Longrightarrow> R w w'"
  by (metis keeping_def snd_conv)

lemma keepingI: "(\<And>w r w'. m w = (r, w') \<Longrightarrow> R w w') \<Longrightarrow> keeping R m"
  by (auto simp: keeping_def) (metis prod.collapse)

lemma keeping_pure [keeps_intros]:
  "reflp R \<Longrightarrow> keeping R (io_ok a)" "reflp R \<Longrightarrow> keeping R (io_fail e)" "reflp R \<Longrightarrow> keeping R (io_result r)"
  by (auto intro!: keepingI dest: reflpD)

lemma keeping_bind [keeps_intros]:
  "transp R \<Longrightarrow> keeping R m \<Longrightarrow> (\<And>a. keeping R (f a)) \<Longrightarrow> keeping R (io_bind m f)"
  by (rule keepingI) (auto simp: io_bind_def split: prod.splits sum.splits
      dest!: keepingD elim: transpE)

lemma keeping_wrap [keeps_intros]:
  "keeping R m \<Longrightarrow> keeping R (io_context c m)" "keeping R m \<Longrightarrow> keeping R (io_attempt m)"
  by (rule keepingI, auto simp: io_context_def io_attempt_def split: prod.splits sum.splits dest: keepingD)+

lemma keeping_call [keeps_intros]:
  "(\<And>w. R w (snd (c w))) \<Longrightarrow> keeping R (io_call c)"
  by (rule keepingI) (metis io_call_iff snd_conv)

lemma keeping_try [keeps_intros]:
  "(\<And>w. R w (snd (c w))) \<Longrightarrow> keeping R (io_try c)"
  by (auto simp: keeping_def io_try_def split: prod.splits sum.splits) (metis snd_conv)+

lemma keeping_print [keeps_intros]:
  "(\<And>w. R w (snd (c w))) \<Longrightarrow> keeping R (io_print c)"
  by (auto simp: keeping_def io_print_def split: prod.splits sum.splits) (metis snd_conv)+

lemma keeping_cases [keeps_intros]:
  "keeping R m \<Longrightarrow> keeping R m' \<Longrightarrow> keeping R (if b then m else m')"
  "keeping R m \<Longrightarrow> (\<And>x. keeping R (f x)) \<Longrightarrow> keeping R (case x of None \<Rightarrow> m | Some x \<Rightarrow> f x)"
  "(\<And>x. keeping R (g x)) \<Longrightarrow> (\<And>x. keeping R (f x)) \<Longrightarrow> keeping R (case r of Inl x \<Rightarrow> g x | Inr x \<Rightarrow> f x)"
  by (auto split: option.splits sum.splits)

end
