(* ===== verification/State_Store.thy ===== *)
theory State_Store
  imports Runtime_Io
begin

text \<open>
  The persisted container state (\<open>crates/runtt/src/state.rs\<close>, keys from \<open>annotations.rs\<close>): ids and paths,
  writing by temporary file and rename, reading, removing.  What the store needs of the file system
  is the locale \<open>file_system\<close>.
\<close>

definition SPEC_TARGET :: string where "SPEC_TARGET = ''dev.runtt.target''"
definition SPEC_SKIP_IF_SAME :: string where "SPEC_SKIP_IF_SAME = ''dev.runtt.skip-if-same-hash''"
definition SPEC_LOG_TARGET :: string where "SPEC_LOG_TARGET = ''dev.runtt.log-target''"
definition STATE_TARGET :: string where "STATE_TARGET = ''dev.runtt.target''"
definition STATE_FIRMWARE_PATH :: string where "STATE_FIRMWARE_PATH = ''dev.runtt.firmware-path''"

subsection \<open>Ids and paths\<close>

definition ascii_alphanumeric :: "char \<Rightarrow> bool" where
  "ascii_alphanumeric c \<longleftrightarrow>
     (let n = of_char c :: nat in
      (48 \<le> n \<and> n \<le> 57) \<or> (65 \<le> n \<and> n \<le> 90) \<or> (97 \<le> n \<and> n \<le> 122))"

definition id_character :: "char \<Rightarrow> bool" where
  "id_character c \<longleftrightarrow> ascii_alphanumeric c \<or> c = CHR ''_'' \<or> c = CHR ''.'' \<or> c = CHR ''-''"

definition validate_container_id :: "string \<Rightarrow> verb_error + unit" where
  "validate_container_id cid =
     (case cid of
        [] \<Rightarrow> Inl EmptyId
      | first # chars \<Rightarrow>
          if 1024 < length cid then Inl (IdTooLong (length cid))
          else if \<not> ascii_alphanumeric first then Inl (IdBadStart cid)
          else if \<not> list_all id_character chars then Inl (IdBadCharacter cid)
          else Inr ())"

definition state_root :: "'w os \<Rightarrow> string option \<Rightarrow> ('w, string) io" where
  "state_root S root_flag =
     (case root_flag of
        Some r \<Rightarrow> io_ok r
      | None \<Rightarrow> io_bind (io_call (os_env S ''XDG_RUNTIME_DIR'')) (\<lambda>xdg.
          io_ok (case xdg of
                   Some d \<Rightarrow> if d \<noteq> [] then path_join d ''runtt'' else ''/run/runtt''
                 | None \<Rightarrow> ''/run/runtt'')))"

definition state_dir :: "string \<Rightarrow> string \<Rightarrow> string" where
  "state_dir root cid = path_join root cid"

definition state_file :: "string \<Rightarrow> string \<Rightarrow> string" where
  "state_file root cid = path_join (state_dir root cid) ''state.json''"

text \<open>\<open>final_path.with_extension("json.tmp")\<close>: the file is called \<open>state.json\<close>.\<close>

definition state_tmp :: "string \<Rightarrow> string \<Rightarrow> string" where
  "state_tmp root cid = path_join (state_dir root cid) ''state.json.tmp''"

subsection \<open>Operations\<close>

definition new_state :: "string \<Rightarrow> string \<Rightarrow> container_state" where
  "new_state cid bundle = \<lparr>cs_id = cid, cs_status = Creating, cs_pid = None, cs_bundle = bundle,
     cs_annotations = Some Map.empty\<rparr>"

definition set_annotation :: "string \<Rightarrow> string \<Rightarrow> container_state \<Rightarrow> container_state" where
  "set_annotation key value st =
     (let m = (case cs_annotations st of None \<Rightarrow> Map.empty | Some m \<Rightarrow> m)
      in st\<lparr>cs_annotations := Some (m(key \<mapsto> value))\<rparr>)"

definition state_write :: "'w os \<Rightarrow> json \<Rightarrow> string \<Rightarrow> container_state \<Rightarrow> ('w, unit) io" where
  "state_write S J root st =
     io_bind (io_result (validate_container_id (cs_id st))) (\<lambda>_.
     io_bind (io_context CreateStateDir (io_try (os_create_dir_all S (state_dir root (cs_id st))))) (\<lambda>_.
     io_bind (io_context SerialiseState (io_result (map_sum Io id (js_state_out J st)))) (\<lambda>bytes.
     io_bind (io_context WriteState (io_try (os_write_file S (state_tmp root (cs_id st)) bytes))) (\<lambda>_.
     io_bind (io_attempt (io_try (os_rename S (state_tmp root (cs_id st)) (state_file root (cs_id st))))) (\<lambda>r.
       case r of
         Inr _ \<Rightarrow> io_ok ()
       | Inl e \<Rightarrow> io_bind (io_attempt (io_try (os_remove_file S (state_tmp root (cs_id st))))) (\<lambda>_. io_fail e))))))"

definition state_read :: "'w os \<Rightarrow> json \<Rightarrow> string \<Rightarrow> string \<Rightarrow> ('w, container_state) io" where
  "state_read S J root cid =
     io_bind (io_result (validate_container_id cid)) (\<lambda>_.
     io_context ReadState
       (io_bind (io_try (os_read_file S (state_file root cid))) (\<lambda>bytes.
          io_result (map_sum Io id (js_state_in J bytes)))))"

definition state_remove :: "'w os \<Rightarrow> string \<Rightarrow> string \<Rightarrow> ('w, unit) io" where
  "state_remove S root cid =
     io_bind (io_result (validate_container_id cid)) (\<lambda>_.
     io_bind (io_call (os_exists S (state_dir root cid))) (\<lambda>there.
       if there then io_context RemoveState (io_try (os_remove_dir_all S (state_dir root cid)))
       else io_ok ()))"

subsection \<open>Valid ids\<close>

lemma id_character_plain: "id_character c \<Longrightarrow> c \<noteq> CHR ''/''"
  by (auto simp: id_character_def ascii_alphanumeric_def)

lemma validate_iff:
  "validate_container_id cid = Inr () \<longleftrightarrow>
    cid \<noteq> [] \<and> length cid \<le> 1024 \<and> ascii_alphanumeric (hd cid) \<and> list_all id_character (tl cid)"
  by (auto simp: validate_container_id_def split: list.splits)

lemma valid_id_plain:
  assumes "validate_container_id cid = Inr ()"
  shows "cid \<noteq> []" "CHR ''/'' \<notin> set cid" "cid \<noteq> ''.''" "cid \<noteq> ''..''" "list_all id_character cid"
proof -
  from assms obtain c cs where cid: "cid = c # cs" and c: "ascii_alphanumeric c" and cs: "list_all id_character cs"
    by (cases cid) (auto simp: validate_iff)
  then have all: "list_all id_character cid" by (simp add: id_character_def)
  then show "list_all id_character cid" .
  show "cid \<noteq> []" "cid \<noteq> ''.''" "cid \<noteq> ''..''" using cid c by (auto simp: ascii_alphanumeric_def)
  show "CHR ''/'' \<notin> set cid"
    using all id_character_plain by (auto simp: list_all_iff)
qed

lemma split_on_join: "split_on c (s @ c # t) = split_on c s @ split_on c t"
proof (induction s)
  case (Cons x s)
  obtain p ps where ps: "split_on c s = p # ps" by (cases "split_on c s") auto
  with Cons show ?case by simp
qed simp

lemma path_components_join:
  assumes "\<not> starts_with b ''/''"
  shows "path_components (path_join a b) = path_components a @ path_components b"
proof -
  have slash: "path_components (x @ CHR ''/'' # y) = path_components x @ path_components y" for x y
    by (simp add: path_components_def split_on_join)
  show ?thesis
  proof (cases "ends_with a ''/''")
    case True
    then obtain a' where "a = a' @ [CHR ''/'']" by (auto simp: ends_with_def suffix_def)
    with assms slash [of a' "[]"] slash [of a' b] show ?thesis
      by (simp add: path_join_def ends_with_def) (simp add: path_components_def)
  next
    case False
    with assms slash [of a b] show ?thesis by (auto simp: path_join_def path_components_def)
  qed
qed

lemma plain_component: "CHR ''/'' \<notin> set x \<Longrightarrow> x \<noteq> [] \<Longrightarrow> x \<noteq> ''.'' \<Longrightarrow> path_components x = [x]"
  by (simp add: path_components_def split_on_no_sep)

lemma plain_relative: "CHR ''/'' \<notin> set x \<Longrightarrow> \<not> starts_with x ''/''"
  by (cases x) (auto simp: starts_with_def)

lemma state_components:
  assumes "validate_container_id cid = Inr ()"
  shows "path_components (state_dir root cid) = path_components root @ [cid]"
    "path_components (state_file root cid) = path_components root @ [cid, ''state.json'']"
    "path_components (state_tmp root cid) = path_components root @ [cid, ''state.json.tmp'']"
proof -
  note cid = valid_id_plain [OF assms]
  then show dir: "path_components (state_dir root cid) = path_components root @ [cid]"
    by (simp add: state_dir_def path_components_join plain_relative plain_component)
  show "path_components (state_file root cid) = path_components root @ [cid, ''state.json'']"
    "path_components (state_tmp root cid) = path_components root @ [cid, ''state.json.tmp'']"
    by (simp_all add: state_file_def state_tmp_def path_components_join plain_relative dir plain_component)
qed

subsection \<open>The file system the store relies on\<close>

text \<open>Paths are compared by their components.  A failed write may leave anything in its own file.\<close>

locale file_system =
  fixes S :: "'w os" and content :: "'w \<Rightarrow> string list \<Rightarrow> bytes option"
  assumes write_frame: "os_write_file S p b w = (r, w') \<Longrightarrow> q \<noteq> path_components p \<Longrightarrow> content w' q = content w q"
    and write_done: "os_write_file S p b w = (Inr u, w') \<Longrightarrow> content w' (path_components p) = Some b"
    and rename_failed: "os_rename S p p' w = (Inl e, w') \<Longrightarrow> content w' = content w"
    and rename_done: "os_rename S p p' w = (Inr u, w') \<Longrightarrow>
      content w' = (content w)(path_components p := None, path_components p' := content w (path_components p))"
    and make_dirs: "content (snd (os_create_dir_all S p w)) = content w"
    and remove_frame: "q \<noteq> path_components p \<Longrightarrow> content (snd (os_remove_file S p w)) q = content w q"
    and remove_dir_frame: "\<not> prefix (path_components p) q \<Longrightarrow> content (snd (os_remove_dir_all S p w)) q = content w q"
    and remove_dir_done: "os_remove_dir_all S p w = (Inr u, w') \<Longrightarrow> prefix (path_components p) q \<Longrightarrow> content w' q = None"
    and exists_frame: "content (snd (os_exists S p w)) = content w"
    and exists_not: "os_exists S p w = (False, w') \<Longrightarrow> prefix (path_components p) q \<Longrightarrow> content w q = None"
    and read_frame: "content (snd (os_read_file S p w)) = content w"
    and read_done: "os_read_file S p w = (Inr b, w') \<Longrightarrow> content w (path_components p) = Some b"

text \<open>The store as a map from ids to states.\<close>

definition stored ::
    "json \<Rightarrow> ('w \<Rightarrow> string list \<Rightarrow> bytes option) \<Rightarrow> string \<Rightarrow> 'w \<Rightarrow> string \<Rightarrow> container_state option" where
  "stored J content root w cid =
     (if validate_container_id cid \<noteq> Inr () then None
      else case content w (path_components root @ [cid, ''state.json'']) of
             None \<Rightarrow> None
           | Some b \<Rightarrow> (case js_state_in J b of Inl _ \<Rightarrow> None | Inr st \<Rightarrow> Some st))"

definition reads_back :: "json \<Rightarrow> bool" where
  "reads_back J \<longleftrightarrow> (\<forall>st b. js_state_out J st = Inr b \<longrightarrow> js_state_in J b = Inr st)"

context file_system
begin

lemma store_eq:
  "(\<And>cid. validate_container_id cid = Inr () \<Longrightarrow>
      content w' (path_components root @ [cid, ''state.json'']) = content w (path_components root @ [cid, ''state.json''])) \<Longrightarrow>
    stored J content root w' = stored J content root w"
  by (rule ext) (simp add: stored_def)

text \<open>Everything before the rename only touches the temporary file.\<close>

lemma temporary_frame:
  "os_create_dir_all S p w = (r1, w') \<Longrightarrow> stored J content root w' = stored J content root w"
  "os_write_file S (state_tmp root cid) b w = (r2, w') \<Longrightarrow> validate_container_id cid = Inr () \<Longrightarrow>
    stored J content root w' = stored J content root w"
  "io_try (os_remove_file S (state_tmp root cid)) w = (r3, w') \<Longrightarrow> validate_container_id cid = Inr () \<Longrightarrow>
    stored J content root w' = stored J content root w"
  "os_rename S (state_tmp root cid) p w = (Inl e, w') \<Longrightarrow> stored J content root w' = stored J content root w"
  using make_dirs [of p w] remove_frame [of _ "state_tmp root cid" w]
  by (auto intro!: store_eq simp: write_frame state_components rename_failed io_try_def split: prod.splits sum.splits)

lemma commit_effect:
  assumes "validate_container_id cid = Inr ()" and "content w (path_components root @ [cid, ''state.json.tmp'']) = Some b"
    and "os_rename S (state_tmp root cid) (state_file root cid) w = (r, w')"
  shows "stored J content root w' = (if is_ok r then (stored J content root w)
      (cid := case js_state_in J b of Inl _ \<Rightarrow> None | Inr st \<Rightarrow> Some st) else stored J content root w)"
proof (cases r)
  case (Inl e)
  with assms(3) have "content w' = content w" using rename_failed by blast
  with Inl show ?thesis by (intro ext) (simp add: stored_def is_ok_def)
next
  case (Inr u)
  with assms rename_done [of _ _ w u w'] have "content w' = (content w)
      (path_components root @ [cid, ''state.json.tmp''] := None, path_components root @ [cid, ''state.json''] := Some b)"
    by (simp add: state_components)
  with assms(1) Inr show ?thesis by (auto simp: stored_def fun_eq_iff is_ok_def)
qed

lemma write_effect:
  assumes run: "state_write S J root st w = (r, w')"
  shows "case r of
      Inl _ \<Rightarrow> stored J content root w' = stored J content root w
    | Inr _ \<Rightarrow> validate_container_id (cs_id st) = Inr () \<and> (\<exists>b. js_state_out J st = Inr b \<and>
        stored J content root w' = (stored J content root w)
          (cs_id st := case js_state_in J b of Inl _ \<Rightarrow> None | Inr st \<Rightarrow> Some st))"
proof (cases r)
  case (Inl e)
  with run show ?thesis
    by (auto simp: state_write_def io_outcomes dest!: temporary_frame [where J = J and root = root])
next
  case (Inr u)
  then obtain b w1 w2 where valid: "validate_container_id (cs_id st) = Inr ()"
    and mk: "os_create_dir_all S (state_dir root (cs_id st)) w = (Inr (), w1)" and b: "js_state_out J st = Inr b"
    and wr: "os_write_file S (state_tmp root (cs_id st)) b w1 = (Inr (), w2)"
    and mv: "os_rename S (state_tmp root (cs_id st)) (state_file root (cs_id st)) w2 = (Inr (), w')"
    using run by (auto simp: state_write_def io_outcomes map_sum_def split: sum.splits)
  have "content w2 (path_components root @ [cs_id st, ''state.json.tmp'']) = Some b"
    using write_done [OF wr] valid by (simp add: state_components)
  from commit_effect [OF valid this mv] temporary_frame(1) [OF mk] temporary_frame(2) [OF wr valid] valid b Inr
  show ?thesis by (simp add: is_ok_def)
qed

lemma read_effect:
  assumes run: "state_read S J root cid w = (r, w')"
  shows "stored J content root w' = stored J content root w \<and> (\<forall>st. r = Inr st \<longrightarrow> stored J content root w cid = Some st)"
proof (cases "validate_container_id cid")
  case (Inl e)
  with run show ?thesis by (auto simp: state_read_def io_run)
next
  case (Inr u)
  then have valid: "validate_container_id cid = Inr ()" by simp
  obtain q w1 where q: "os_read_file S (state_file root cid) w = (q, w1)" by fastforce
  then have "content w1 = content w" using read_frame [of "state_file root cid" w] by simp
  then have "stored J content root w1 = stored J content root w" by (intro store_eq) simp
  moreover have "content w (path_components root @ [cid, ''state.json'']) = Some b" if "q = Inr b" for b
    using read_done q that valid by (fastforce simp: state_components)
  ultimately show ?thesis
    using run q valid
    by (cases q) (auto simp: state_read_def io_run stored_def map_sum_def split: sum.splits)
qed

lemma remove_effect:
  assumes run: "state_remove S root cid w = (r, w')"
  shows "(\<forall>other. other \<noteq> cid \<longrightarrow> stored J content root w' other = stored J content root w other) \<and>
    (r = Inr () \<longrightarrow> validate_container_id cid = Inr () \<and> stored J content root w' cid = None)"
proof (cases "validate_container_id cid")
  case (Inl e)
  with run show ?thesis by (auto simp: state_remove_def io_run)
next
  case (Inr u)
  then have valid: "validate_container_id cid = Inr ()" by simp
  have dir: "path_components (state_dir root cid) = path_components root @ [cid]"
    using valid by (rule state_components)
  obtain there w1 where ex: "os_exists S (state_dir root cid) w = (there, w1)" by fastforce
  then have w1: "content w1 = content w" using exists_frame [of "state_dir root cid" w] by simp
  show ?thesis
  proof (cases there)
    case False
    with ex exists_not [of "state_dir root cid" w w1 "path_components root @ [cid, ''state.json'']"] dir w1
    have "content w1 (path_components root @ [cid, ''state.json'']) = None" by simp
    with run valid ex False w1 show ?thesis by (auto simp: state_remove_def io_run stored_def)
  next
    case True
    obtain q w2 where rm: "os_remove_dir_all S (state_dir root cid) w1 = (q, w2)" by fastforce
    have "content w2 (path_components root @ [other, ''state.json'']) =
        content w (path_components root @ [other, ''state.json''])" if "other \<noteq> cid" for other
      using remove_dir_frame [of "state_dir root cid" "path_components root @ [other, ''state.json'']" w1]
        rm dir w1 that by simp
    moreover have "content w2 (path_components root @ [cid, ''state.json'']) = None" if "q = Inr ()"
      using remove_dir_done rm dir that by fastforce
    ultimately show ?thesis
      using run valid ex True rm
      by (cases q) (auto simp: state_remove_def io_run stored_def)
  qed
qed

end

end
