(* ===== verification/State_Writers.thy ===== *)
theory State_Writers
  imports State_Store
begin

text \<open>
  The system calls of \<open>state::write\<close> (\<open>crates/runtt/src/state.rs\<close>), one by one: the temporary file is
  created or truncated, written at the writer's own offset in as many pieces as the kernel likes,
  and renamed over \<open>state.json\<close>.  Names lead to inodes, as on disk: an open file keeps its inode when
  its name moves.  A rename may fail at any time, and so may the removal of the temporary file that
  follows.  A process may die between any two steps, which is also where a failed write leaves it.  All
  writers of one container use the same temporary name.
\<close>

record disk =
  dk_tmp :: "nat option"          \<comment> \<open>inode of \<open>state.json.tmp\<close>\<close>
  dk_final :: "nat option"        \<comment> \<open>inode of \<open>state.json\<close>\<close>
  dk_data :: "nat \<Rightarrow> bytes"
  dk_fresh :: nat

datatype writer_at =
    NotBegun
  | Writing nat nat               \<comment> \<open>inode, offset\<close>
  | Renamed
  | RenameFailed
  | GaveUp

text \<open>What a reader of \<open>state.json\<close> gets.\<close>

definition visible :: "disk \<Rightarrow> bytes option" where
  "visible d = map_option (dk_data d) (dk_final d)"

definition write_at :: "nat \<Rightarrow> bytes \<Rightarrow> bytes \<Rightarrow> bytes" where
  "write_at k chunk old = take k (old @ replicate k 0) @ chunk @ drop (k + length chunk) old"

inductive wstep ::
    "(nat \<Rightarrow> bytes) \<Rightarrow> nat \<Rightarrow> disk \<times> (nat \<Rightarrow> writer_at) \<Rightarrow> disk \<times> (nat \<Rightarrow> writer_at) \<Rightarrow> bool"
  for json :: "nat \<Rightarrow> bytes" and i :: nat where
  truncate: "at i = NotBegun \<Longrightarrow> dk_tmp d = Some n \<Longrightarrow>
    wstep json i (d, at) (d\<lparr>dk_data := (dk_data d)(n := [])\<rparr>, at(i := Writing n 0))"
| create: "at i = NotBegun \<Longrightarrow> dk_tmp d = None \<Longrightarrow> n = dk_fresh d \<Longrightarrow>
    wstep json i (d, at) (d\<lparr>dk_tmp := Some n, dk_data := (dk_data d)(n := []), dk_fresh := n + 1\<rparr>,
      at(i := Writing n 0))"
| write_piece: "at i = Writing n k \<Longrightarrow> chunk \<noteq> [] \<Longrightarrow> prefix chunk (drop k (json i)) \<Longrightarrow>
    wstep json i (d, at) (d\<lparr>dk_data := (dk_data d)(n := write_at k chunk (dk_data d n))\<rparr>,
      at(i := Writing n (k + length chunk)))"
| rename: "at i = Writing n k \<Longrightarrow> k = length (json i) \<Longrightarrow> dk_tmp d = Some t \<Longrightarrow>
    wstep json i (d, at) (d\<lparr>dk_final := Some t, dk_tmp := None\<rparr>, at(i := Renamed))"
| rename_fails: "at i = Writing n k \<Longrightarrow> k = length (json i) \<Longrightarrow>
    wstep json i (d, at) (d, at(i := RenameFailed))"
| remove: "at i = RenameFailed \<Longrightarrow> dk_tmp d = Some t \<Longrightarrow>
    wstep json i (d, at) (d\<lparr>dk_tmp := None\<rparr>, at(i := GaveUp))"
| remove_fails: "at i = RenameFailed \<Longrightarrow>
    wstep json i (d, at) (d, at(i := GaveUp))"

definition well_named :: "disk \<Rightarrow> bool" where
  "well_named d \<longleftrightarrow> (\<forall>n. dk_tmp d = Some n \<longrightarrow> dk_final d \<noteq> Some n) \<and>
     (\<forall>n. dk_tmp d = Some n \<or> dk_final d = Some n \<longrightarrow> n < dk_fresh d)"

text \<open>One writer at work.\<close>

definition one_writer :: "bytes \<Rightarrow> disk \<Rightarrow> disk \<Rightarrow> writer_at \<Rightarrow> bool" where
  "one_writer js d0 d at \<longleftrightarrow>
     (case at of
        NotBegun \<Rightarrow> d = d0
      | Writing n k \<Rightarrow> dk_tmp d = Some n \<and> dk_final d = dk_final d0 \<and> visible d = visible d0 \<and>
          dk_final d \<noteq> Some n \<and> k \<le> length js \<and> dk_data d n = take k js
      | Renamed \<Rightarrow> visible d = Some js
      | RenameFailed \<Rightarrow> visible d = visible d0
      | GaveUp \<Rightarrow> visible d = visible d0)"

lemma write_at_end: "write_at (length xs) chunk xs = xs @ chunk"
  by (simp add: write_at_def)

lemma other_inode: "f \<noteq> Some n \<Longrightarrow> map_option (data(n := x)) f = map_option data f"
  by (cases f) auto

lemma fresh_inode: "well_named d \<Longrightarrow> dk_final d \<noteq> Some (dk_fresh d)"
  by (auto simp: well_named_def)

lemma one_writer_step:
  assumes "wstep json i (d, at) s'" and "well_named d0" and "one_writer (json i) d0 d (at i)"
  shows "one_writer (json i) d0 (fst s') (snd s' i)"
  using assms(1)
proof (cases rule: wstep.cases)
  case (write_piece n k chunk)
  then have inv: "dk_data d n = take k (json i)" "k \<le> length (json i)" "dk_final d0 \<noteq> Some n"
      "dk_tmp d = Some n" "dk_final d = dk_final d0" "visible d = visible d0"
    using assms(3) by (auto simp: one_writer_def)
  from write_piece(4) obtain rest where rest: "drop k (json i) = chunk @ rest" by (auto simp: prefix_def)
  then have "take (k + length chunk) (json i) = take k (json i) @ chunk" by (simp add: take_add)
  moreover have "k + length chunk \<le> length (json i)"
    using arg_cong [OF rest, of length] inv(2) by simp
  moreover have "write_at k chunk (take k (json i)) = take k (json i) @ chunk"
    using write_at_end [of "take k (json i)" chunk] inv(2) by simp
  ultimately show ?thesis
    using write_piece inv by (auto simp: one_writer_def visible_def other_inode)
qed (use assms(2,3) fresh_inode in \<open>auto simp: one_writer_def visible_def well_named_def other_inode\<close>)

lemma one_writer_run:
  "(wstep json i)\<^sup>*\<^sup>* (d0, at0) s \<Longrightarrow> at0 i = NotBegun \<Longrightarrow> well_named d0 \<Longrightarrow>
    one_writer (json i) d0 (fst s) (snd s i)"
proof (induction rule: rtranclp_induct)
  case base
  then show ?case by (simp add: one_writer_def)
next
  case (step s s')
  then show ?case using one_writer_step [of json i "fst s" "snd s" s' d0] by simp
qed

subsection \<open>Properties\<close>

text \<open>C18: writing the state is atomic for one writer.  Wherever the process dies, whatever pieces the
  kernel writes and whatever stray temporary file lay there, a reader of \<open>state.json\<close> finds either
  what was there before or the complete new state; the new one once the rename is done, and the old one
  when the rename has failed.\<close>
theorem state_write_atomic:
  assumes "(wstep json i)\<^sup>*\<^sup>* (d0, at0) (d, at)" and "at0 i = NotBegun" and "well_named d0"
  shows "(visible d = visible d0 \<or> visible d = Some (json i)) \<and>
    (at i = RenameFailed \<or> at i = GaveUp \<longrightarrow> visible d = visible d0) \<and>
    (at i = Renamed \<longrightarrow> visible d = Some (json i))"
  using one_writer_run [OF assms]
  by (cases "at i") (auto simp: one_writer_def)

text \<open>Two writers of the same container can tear the file.  The temporary name is shared, so from
  every disk there is an interleaving of two writes after which \<open>state.json\<close> is empty: one writer
  renames the file the other has just truncated.\<close>
theorem concurrent_writes_tear:
  assumes "i \<noteq> j" and "at0 i = NotBegun" and "at0 j = NotBegun" and "json i \<noteq> []"
  shows "\<exists>d at. (\<lambda>s s'. \<exists>k. wstep json k s s')\<^sup>*\<^sup>* (d0, at0) (d, at) \<and> visible d = Some []"
proof -
  define step where "step = (\<lambda>s s'. \<exists>k. wstep json k s s')"
  note chain = converse_rtranclp_into_rtranclp [where r = step]
  obtain n d1 where open_i: "step (d0, at0) (d1, at0(i := Writing n 0))" and n: "dk_tmp d1 = Some n"
  proof (cases "dk_tmp d0")
    case None
    have "wstep json i (d0, at0) (d0\<lparr>dk_tmp := Some (dk_fresh d0), dk_data := (dk_data d0)(dk_fresh d0 := []),
        dk_fresh := dk_fresh d0 + 1\<rparr>, at0(i := Writing (dk_fresh d0) 0))"
      using None assms(2) by (intro wstep.create) simp_all
    then show ?thesis by (intro that [of _ "dk_fresh d0"]) (auto simp: step_def)
  next
    case (Some n)
    have "wstep json i (d0, at0) (d0\<lparr>dk_data := (dk_data d0)(n := [])\<rparr>, at0(i := Writing n 0))"
      using Some assms(2) by (intro wstep.truncate) simp_all
    with Some show ?thesis by (intro that [of "d0\<lparr>dk_data := (dk_data d0)(n := [])\<rparr>" n]) (auto simp: step_def)
  qed
  let ?d2 = "d1\<lparr>dk_data := (dk_data d1)(n := write_at 0 (json i) (dk_data d1 n))\<rparr>"
  let ?at2 = "at0(i := Writing n (length (json i)))"
  have write_i: "step (d1, at0(i := Writing n 0)) (?d2, ?at2)"
    using wstep.write_piece [of "at0(i := Writing n 0)" i n 0 "json i" json d1] assms(4) by (auto simp: step_def)
  let ?d3 = "?d2\<lparr>dk_data := (dk_data ?d2)(n := [])\<rparr>" and ?at3 = "?at2(j := Writing n 0)"
  have open_j: "step (?d2, ?at2) (?d3, ?at3)"
    using wstep.truncate [of ?at2 j ?d2 n json] assms n by (auto simp: step_def)
  have rename_i: "step (?d3, ?at3) (?d3\<lparr>dk_final := Some n, dk_tmp := None\<rparr>, ?at3(i := Renamed))"
    using wstep.rename [of ?at3 i n "length (json i)" json ?d3 n] assms n by (auto simp: step_def)
  have "step\<^sup>*\<^sup>* (d0, at0) (?d3\<lparr>dk_final := Some n, dk_tmp := None\<rparr>, ?at3(i := Renamed))"
    using chain [OF open_i chain [OF write_i chain [OF open_j chain [OF rename_i rtranclp.rtrancl_refl]]]] .
  then show ?thesis unfolding step_def by (intro exI conjI) (assumption, simp add: visible_def)
qed

subsection \<open>Concrete writers\<close>

definition old_disk :: disk where
  "old_disk = \<lparr>dk_tmp = None, dk_final = Some 0, dk_data = (\<lambda>n. [1]), dk_fresh = 1\<rparr>"

lemma state_write_atomic_witness:
  "visible (old_disk\<lparr>dk_tmp := Some 1, dk_data := (dk_data old_disk)(1 := []), dk_fresh := 2\<rparr>) = Some [1]"
proof -
  have "wstep (\<lambda>i. [7, 8]) 0 (old_disk, \<lambda>i. NotBegun)
      (old_disk\<lparr>dk_tmp := Some 1, dk_data := (dk_data old_disk)(1 := []), dk_fresh := 2\<rparr>, (\<lambda>i. NotBegun)(0 := Writing 1 0))"
    using wstep.create [of "\<lambda>i. NotBegun" 0 old_disk 1 "\<lambda>i. [7, 8]"] by (simp add: old_disk_def numeral_2_eq_2)
  then have "(wstep (\<lambda>i. [7, 8]) 0)\<^sup>*\<^sup>* (old_disk, \<lambda>i. NotBegun)
      (old_disk\<lparr>dk_tmp := Some 1, dk_data := (dk_data old_disk)(1 := []), dk_fresh := 2\<rparr>, (\<lambda>i. NotBegun)(0 := Writing 1 0))"
    by (rule r_into_rtranclp)
  from state_write_atomic [OF this] show ?thesis
    by (simp add: old_disk_def well_named_def visible_def)
qed

lemma concurrent_writes_tear_witness:
  "\<exists>d at. (\<lambda>s s'. \<exists>k. wstep (\<lambda>i. [7, 8]) k s s')\<^sup>*\<^sup>* (old_disk, \<lambda>i. NotBegun) (d, at) \<and> visible d = Some []"
  by (rule concurrent_writes_tear [of 0 1]) simp_all

end
