(* ===== verification/Lock.thy ===== *)
theory Lock
  imports State_Store
begin

unbundle bit_operations_syntax

text \<open>
  Exclusive occupancy (\<open>crates/runtt/src/lock.rs\<close>): a lock file per label and per resolved board, locked
  with \<open>flock\<close>.  A lock belongs to the open file description; it is gone when the last descriptor is
  closed, at the latest when its process dies.  What the kernel promises is the locale
  \<open>lock_service\<close>; the processes that claim boards are the step relation \<open>occupancy\<close>.
\<close>

subsection \<open>Names\<close>

text \<open>\<open>chars\<close> of a UTF-8 string: a character outside ASCII is several bytes, of which all but the first are
  continuation bytes, and becomes a single underscore.\<close>

definition continuation_byte :: "char \<Rightarrow> bool" where
  "continuation_byte c \<longleftrightarrow> 128 \<le> (of_char c :: nat) \<and> (of_char c :: nat) < 192"

definition sanitise :: "string \<Rightarrow> string" where
  "sanitise s = map (\<lambda>c. if ascii_alphanumeric c \<or> c = CHR ''-'' \<or> c = CHR ''.'' then c else CHR ''_'')
     (filter (\<lambda>c. \<not> continuation_byte c) s)"

definition lock_name :: "string \<Rightarrow> string" where
  "lock_name target = ''occupancy-'' @ sanitise target @ ''.lock''"

definition device_lock_name :: "string \<Rightarrow> string" where
  "device_lock_name resolved = ''device-'' @ sanitise resolved"

subsection \<open>Operations\<close>

definition FD_CLOEXEC :: int where "FD_CLOEXEC = 1"

definition clear_cloexec :: "'w os \<Rightarrow> int \<Rightarrow> ('w, unit) io" where
  "clear_cloexec S fd =
     io_bind (io_context GetFlags (io_try (os_get_fd_flags S fd))) (\<lambda>flags.
       io_context SetFlags (io_try (os_set_fd_flags S fd (flags AND NOT FD_CLOEXEC))))"

text \<open>The file is closed when the function returns early; after \<open>into_raw_fd\<close> it stays open.\<close>

definition acquire_named :: "'w os \<Rightarrow> string \<Rightarrow> string \<Rightarrow> ('w, int) io" where
  "acquire_named S root name =
     io_bind (io_context CreateLockDir (io_try (os_create_dir_all S root))) (\<lambda>_.
     io_bind (io_context OpenLock (io_try (os_open_lock S (path_join root name)))) (\<lambda>fd.
     io_bind (io_call (os_flock S fd)) (\<lambda>answer.
       case answer of
         WouldBlock \<Rightarrow> io_bind (io_call (os_close S fd)) (\<lambda>_. io_fail AlreadyClaimed)
       | FlockError e \<Rightarrow> io_bind (io_call (os_close S fd)) (\<lambda>_. io_fail (In_step FlockFailed (Io e)))
       | Locked \<Rightarrow> io_bind (clear_cloexec S fd) (\<lambda>_. io_ok fd))))"

definition acquire_resolved :: "'w os \<Rightarrow> string \<Rightarrow> string \<Rightarrow> ('w, int) io" where
  "acquire_resolved S root resolved = acquire_named S root (device_lock_name resolved)"

text \<open>The refusal is recognised by its message; no path is taken to contain those words.\<close>

definition acquire :: "'w os \<Rightarrow> string \<Rightarrow> string \<Rightarrow> ('w, int) io" where
  "acquire S root target w =
     (case acquire_named S root (lock_name target) w of
        (Inl e, w') \<Rightarrow> (Inl (if e = AlreadyClaimed then TargetClaimed target else e), w')
      | (Inr fd, w') \<Rightarrow> (Inr fd, w'))"

subsection \<open>Lock files and containers share a directory\<close>

lemma sanitise_characters: "list_all id_character (sanitise s)"
  by (induction s) (auto simp: sanitise_def id_character_def)

lemma length_sanitise: "length (sanitise s) \<le> length s"
  by (simp add: sanitise_def)

text \<open>One underscore for an o with an umlaut, which is two bytes.\<close>

lemma sanitise_umlaut: "sanitise [CHR ''b'', CHR 0xC3, CHR 0xB6, CHR ''/''] = ''b__''"
  by (simp add: sanitise_def continuation_byte_def ascii_alphanumeric_def)

lemma device_lock_name_valid: "length key \<le> 1017 \<Longrightarrow> validate_container_id (device_lock_name key) = Inr ()"
  using sanitise_characters [of key] length_sanitise [of key]
  by (simp add: validate_iff device_lock_name_def ascii_alphanumeric_def id_character_def)

subsection \<open>What the kernel promises\<close>

text \<open>\<open>opened w fd\<close> is the file an open description belongs to, \<open>held w p\<close> the description that holds the
  lock of a file.  \<open>fcntl\<close> fails only on a descriptor that is not open.\<close>

locale lock_service =
  fixes S :: "'w os" and held :: "'w \<Rightarrow> string list \<Rightarrow> int option" and opened :: "'w \<Rightarrow> int \<Rightarrow> string list option"
  assumes dirs_frame: "os_create_dir_all S d w = (r1, w') \<Longrightarrow> held w' = held w \<and> opened w' = opened w"
    and open_fresh: "os_open_lock S p w = (Inr fd, w') \<Longrightarrow>
      opened w fd = None \<and> opened w' = (opened w)(fd \<mapsto> path_components p) \<and> held w' = held w"
    and open_failed: "os_open_lock S p w = (Inl e, w') \<Longrightarrow> held w' = held w \<and> opened w' = opened w"
    and flock_opened: "os_flock S fd w = (a, w') \<Longrightarrow> opened w' = opened w"
    and flock_locked: "os_flock S fd w = (Locked, w') \<Longrightarrow> opened w fd = Some q \<Longrightarrow>
      (held w q = None \<or> held w q = Some fd) \<and> held w' = (held w)(q \<mapsto> fd)"
    and flock_refused: "os_flock S fd w = (WouldBlock, w') \<Longrightarrow> opened w fd = Some q \<Longrightarrow>
      held w q \<noteq> None \<and> held w' = held w"
    and flock_failed: "os_flock S fd w = (FlockError e, w') \<Longrightarrow> held w' = held w"
    and close_releases: "os_close S fd w = (u, w') \<Longrightarrow> opened w' = (opened w)(fd := None) \<and>
      held w' = (\<lambda>p. if held w p = Some fd then None else held w p)"
    and get_flags: "os_get_fd_flags S fd w = (r2, w') \<Longrightarrow> opened w fd \<noteq> None \<Longrightarrow>
      is_ok r2 \<and> held w' = held w \<and> opened w' = opened w"
    and set_flags: "os_set_fd_flags S fd flags w = (r3, w') \<Longrightarrow> opened w fd \<noteq> None \<Longrightarrow>
      is_ok r3 \<and> held w' = held w \<and> opened w' = opened w"

definition locks_open :: "('w \<Rightarrow> string list \<Rightarrow> int option) \<Rightarrow> ('w \<Rightarrow> int \<Rightarrow> string list option) \<Rightarrow> 'w \<Rightarrow> bool" where
  "locks_open held opened w \<longleftrightarrow> (\<forall>p fd. held w p = Some fd \<longrightarrow> opened w fd = Some p)"

text \<open>The processes that have claimed a board, each with its key and its descriptor.  A process dies
  with its descriptor closed by the kernel.\<close>

inductive occupancy ::
    "'w os \<Rightarrow> string \<Rightarrow> 'w \<Rightarrow> 'w \<times> (nat \<Rightarrow> (string \<times> int) option) \<Rightarrow> bool"
  for S :: "'w os" and root :: string and start :: 'w where
  boot: "occupancy S root start (start, Map.empty)"
| claim: "occupancy S root start (w, owns) \<Longrightarrow> owns p = None \<Longrightarrow>
    acquire_resolved S root key w = (Inr fd, w') \<Longrightarrow> occupancy S root start (w', owns(p \<mapsto> (key, fd)))"
| refuse: "occupancy S root start (w, owns) \<Longrightarrow> owns p = None \<Longrightarrow>
    acquire_resolved S root key w = (Inl e, w') \<Longrightarrow> occupancy S root start (w', owns)"
| die: "occupancy S root start (w, owns) \<Longrightarrow> owns p = Some (key, fd) \<Longrightarrow>
    os_close S fd w = (u, w') \<Longrightarrow> occupancy S root start (w', owns(p := None))"

definition lock_path :: "string \<Rightarrow> string \<Rightarrow> string list" where
  "lock_path root key = path_components (path_join root (device_lock_name key))"

text \<open>The claims are exactly the locks.\<close>

definition claims_are_locks ::
    "('w \<Rightarrow> string list \<Rightarrow> int option) \<Rightarrow> string \<Rightarrow> 'w \<times> (nat \<Rightarrow> (string \<times> int) option) \<Rightarrow> bool" where
  "claims_are_locks held root s \<longleftrightarrow>
     (\<forall>p key fd. snd s p = Some (key, fd) \<longrightarrow> held (fst s) (lock_path root key) = Some fd) \<and>
     (\<forall>q fd. held (fst s) q = Some fd \<longrightarrow> (\<exists>p key. snd s p = Some (key, fd) \<and> lock_path root key = q)) \<and>
     (\<forall>p p' key key' fd. snd s p = Some (key, fd) \<longrightarrow> snd s p' = Some (key', fd) \<longrightarrow> p = p')"

lemma claims_dest:
  assumes "claims_are_locks held root (w, owns)"
  shows "owns p1 = Some (k, f) \<Longrightarrow> held w (lock_path root k) = Some f"
    and "held w q = Some f \<Longrightarrow> \<exists>p1 k. owns p1 = Some (k, f) \<and> lock_path root k = q"
    and "owns p1 = Some (k, f) \<Longrightarrow> owns p2 = Some (k2, f) \<Longrightarrow> p1 = p2"
  using assms by (auto simp: claims_are_locks_def)

lemma claims_extend:
  assumes "claims_are_locks held root (w, owns)" and "owns p = None"
    and "held w (lock_path root key) = None" and "\<forall>q. held w q \<noteq> Some fd"
    and "held w' = (held w)(lock_path root key \<mapsto> fd)"
  shows "claims_are_locks held root (w', owns(p \<mapsto> (key, fd)))"
proof -
  note locks = claims_dest(1) [OF assms(1)] and owners = claims_dest(2) [OF assms(1)]
    and single = claims_dest(3) [OF assms(1)]
  have other: "f \<noteq> fd \<and> lock_path root k \<noteq> lock_path root key" if "owns p1 = Some (k, f)" for p1 k f
    using locks [OF that] assms(3,4) by auto
  have "\<exists>p1 k. (owns(p \<mapsto> (key, fd))) p1 = Some (k, f) \<and> lock_path root k = q" if "held w' q = Some f" for q f
  proof (cases "q = lock_path root key")
    case True
    with that assms(5) show ?thesis by (intro exI [of _ p]) simp
  next
    case False
    with that assms(5) have "held w q = Some f" by simp
    from owners [OF this] obtain p1 k where "owns p1 = Some (k, f)" "lock_path root k = q" by blast
    with assms(2) show ?thesis by (intro exI [of _ p1] exI [of _ k]) auto
  qed
  then show ?thesis
    unfolding claims_are_locks_def
    using locks other single assms(5) by (auto simp: fun_upd_def dest: other)
qed

lemma claims_retract:
  assumes "claims_are_locks held root (w, owns)" and "owns p = Some (key, fd)"
    and "held w' = (\<lambda>q. if held w q = Some fd then None else held w q)"
  shows "claims_are_locks held root (w', owns(p := None))"
proof -
  note locks = claims_dest(1) [OF assms(1)] and owners = claims_dest(2) [OF assms(1)]
    and single = claims_dest(3) [OF assms(1)]
  have "\<exists>p1 k. (owns(p := None)) p1 = Some (k, f) \<and> lock_path root k = q" if q: "held w' q = Some f" for q f
  proof -
    from q assms(3) have "held w q = Some f" "f \<noteq> fd" by (auto split: if_splits)
    with owners obtain p1 k where "owns p1 = Some (k, f)" "lock_path root k = q" by blast
    with \<open>f \<noteq> fd\<close> assms(2) show ?thesis by (intro exI [of _ p1] exI [of _ k]) auto
  qed
  then show ?thesis
    unfolding claims_are_locks_def
    using locks single assms(2,3) by (auto simp: fun_upd_def)
qed

context lock_service
begin

lemma clear_cloexec_done:
  assumes "clear_cloexec S fd w = (r, w')" and "opened w fd \<noteq> None"
  shows "r = Inr () \<and> held w' = held w \<and> opened w' = opened w"
proof -
  obtain r1 w1 where g: "os_get_fd_flags S fd w = (r1, w1)" by fastforce
  with get_flags [OF this assms(2)] obtain flags where "r1 = Inr flags" "held w1 = held w" "opened w1 = opened w"
    by (auto simp: is_ok_def split: sum.splits)
  moreover obtain r2 w2 where "os_set_fd_flags S fd (flags AND NOT FD_CLOEXEC) w1 = (r2, w2)" by fastforce
  ultimately show ?thesis
    using set_flags [of fd "flags AND NOT FD_CLOEXEC" w1 r2 w2] assms g
    by (auto simp: clear_cloexec_def io_run is_ok_def split: sum.splits)
qed

lemma flock_step:
  assumes "(case answer of
      WouldBlock \<Rightarrow> io_bind (io_call (os_close S fd)) (\<lambda>_. io_fail AlreadyClaimed)
    | FlockError e \<Rightarrow> io_bind (io_call (os_close S fd)) (\<lambda>_. io_fail (In_step FlockFailed (Io e)))
    | Locked \<Rightarrow> io_bind (clear_cloexec S fd) (\<lambda>_. io_ok fd)) w1 = (r, w')"
    and flock: "os_flock S fd w = (answer, w1)" and fd: "opened w fd = Some q" and free: "held w q \<noteq> Some fd"
    and ok: "locks_open held opened (w::'w)" and unheld: "\<And>p. held w p \<noteq> Some fd"
  shows "(case r of Inl e \<Rightarrow> held w' = held w \<and> (e = AlreadyClaimed \<longrightarrow> held w q \<noteq> None)
    | Inr f \<Rightarrow> f = fd \<and> held w q = None \<and> held w' = (held w)(q \<mapsto> fd)) \<and> locks_open held opened w'"
proof -
  have opened: "opened w1 = opened w" using flock by (rule flock_opened)
  have closed: "held w2 = held w \<and> locks_open held opened w2" if "os_close S fd w1 = (u, w2)" "held w1 = held w" for u w2
    using close_releases [OF that(1)] that(2) unheld ok opened by (auto simp: locks_open_def fun_eq_iff)
  show ?thesis
  proof (cases answer)
    case Locked
    with flock flock_locked fd free have "held w q = None" "held w1 = (held w)(q \<mapsto> fd)" by blast+
    with assms(1) Locked clear_cloexec_done [of fd w1] opened fd ok show ?thesis
      by (cases r) (auto simp: io_outcomes locks_open_def split: if_splits)
  next
    case WouldBlock
    with flock flock_refused fd have "held w q \<noteq> None" "held w1 = held w" by blast+
    with assms(1) WouldBlock closed show ?thesis by (cases r) (auto simp: io_outcomes)
  next
    case (FlockError e)
    with flock flock_failed have "held w1 = held w" by blast
    with assms(1) FlockError closed show ?thesis by (cases r) (auto simp: io_outcomes)
  qed
qed

lemma acquire_named_effect:
  assumes run: "acquire_named S root name w = (r, w')" and ok: "locks_open held opened w"
  shows "(case r of
      Inl e \<Rightarrow> held w' = held w \<and> (e = AlreadyClaimed \<longrightarrow> held w (path_components (path_join root name)) \<noteq> None)
    | Inr fd \<Rightarrow> (\<forall>p. held w p \<noteq> Some fd) \<and> held w (path_components (path_join root name)) = None \<and>
        held w' = (held w)(path_components (path_join root name) \<mapsto> fd)) \<and> locks_open held opened w'"
proof -
  obtain r1 w1 where mk: "os_create_dir_all S root w = (r1, w1)" by fastforce
  note w1 = dirs_frame [OF mk]
  show ?thesis
  proof (cases r1)
    case (Inl e)
    with run mk w1 ok show ?thesis by (auto simp: acquire_named_def io_run locks_open_def)
  next
    case (Inr u)
    note r1 = this
    obtain r2 w2 where open_file: "os_open_lock S (path_join root name) w1 = (r2, w2)" by fastforce
    show ?thesis
    proof (cases r2)
      case (Inl e)
      with run mk r1 open_file open_failed [of "path_join root name" w1 e w2] w1 ok show ?thesis
        by (auto simp: acquire_named_def io_run locks_open_def)
    next
      case (Inr fd)
      with open_file open_fresh [of "path_join root name" w1 fd w2] w1
      have w2: "opened w fd = None" "opened w2 = (opened w)(fd \<mapsto> path_components (path_join root name))"
        "held w2 = held w" by simp_all
      then have unheld: "held w2 p \<noteq> Some fd" for p using ok by (auto simp: locks_open_def)
      have "locks_open held opened w2" using ok w2 by (auto simp: locks_open_def)
      moreover obtain answer w3 where flock: "os_flock S fd w2 = (answer, w3)" by fastforce
      moreover have "(case answer of
          WouldBlock \<Rightarrow> io_bind (io_call (os_close S fd)) (\<lambda>_. io_fail AlreadyClaimed)
        | FlockError e \<Rightarrow> io_bind (io_call (os_close S fd)) (\<lambda>_. io_fail (In_step FlockFailed (Io e)))
        | Locked \<Rightarrow> io_bind (clear_cloexec S fd) (\<lambda>_. io_ok fd)) w3 = (r, w')"
        using run mk r1 open_file Inr flock by (simp add: acquire_named_def io_run)
      ultimately show ?thesis
        using flock_step [where answer = answer and fd = fd and ?w1.0 = w3 and r = r and w' = w' and w = w2
            and q = "path_components (path_join root name)"] w2 unheld
        by (auto split: sum.splits)
    qed
  qed
qed

lemma occupancy_invariant:
  "occupancy S root start s \<Longrightarrow> (\<And>p. held start p = None) \<Longrightarrow>
    locks_open held opened (fst s) \<and> claims_are_locks held root s"
proof (induction rule: occupancy.induct)
  case boot
  then show ?case by (simp add: locks_open_def claims_are_locks_def)
next
  case (claim w owns p key fd w')
  then show ?case
    using acquire_named_effect [of root "device_lock_name key" w "Inr fd" w']
      claims_extend [of held root w owns p key fd w']
    by (simp add: acquire_resolved_def lock_path_def)
next
  case (refuse w owns p key e w')
  then show ?case
    using acquire_named_effect [of root "device_lock_name key" w "Inl e" w']
    by (auto simp: acquire_resolved_def claims_are_locks_def lock_path_def)
next
  case (die w owns p key fd u w')
  then show ?case
    using close_releases [of fd w u w'] claims_retract [of held root w owns p key fd w']
    by (auto simp: locks_open_def)
qed

lemma exclusive:
  assumes "occupancy S root start (w, owns)" and "\<And>p. held start p = None"
    and "owns p = Some (key, fd)" and "owns p' = Some (key', fd')" and "p \<noteq> p'"
  shows "lock_path root key \<noteq> lock_path root key'"
proof
  assume same: "lock_path root key = lock_path root key'"
  have claims: "claims_are_locks held root (w, owns)"
    using occupancy_invariant [OF assms(1,2)] by simp
  from claims_dest(1) [OF claims assms(3)] claims_dest(1) [OF claims assms(4)] same have "fd = fd'" by simp
  with claims_dest(3) [OF claims, of p key fd p' key'] assms(3-5) show False by simp
qed

lemma refused_is_occupied:
  assumes "occupancy S root start (w, owns)" and "\<And>p. held start p = None"
    and "acquire_resolved S root key w = (Inl AlreadyClaimed, w')"
  shows "\<exists>p key' fd. owns p = Some (key', fd) \<and> lock_path root key' = lock_path root key"
proof -
  have inv: "locks_open held opened w" "claims_are_locks held root (w, owns)"
    using occupancy_invariant [OF assms(1,2)] by simp_all
  with acquire_named_effect [of root "device_lock_name key" w "Inl AlreadyClaimed" w'] assms(3)
  obtain fd where "held w (lock_path root key) = Some fd" by (auto simp: acquire_resolved_def lock_path_def)
  with claims_dest(2) [OF inv(2)] show ?thesis by blast
qed

end

lemma lock_path_eq: "lock_path root key = path_components root @ [device_lock_name key]"
proof -
  have "CHR ''/'' \<notin> set (device_lock_name key)"
    using sanitise_characters [of key] id_character_plain by (auto simp: device_lock_name_def list_all_iff)
  then show ?thesis
    by (simp add: lock_path_def path_components_join plain_relative plain_component)
      (simp add: device_lock_name_def plain_component)
qed

subsection \<open>Properties\<close>

text \<open>C10: one board, one proxy.  In whatever order proxies claim boards, are refused and die, two of them
  never hold the same board; and a claim is refused as taken only while another proxy holds a board
  with the same lock file.\<close>
theorem one_board_one_proxy:
  assumes "lock_service S held opened" and "\<And>p. held start p = None" and "occupancy S root start (w, owns)"
  shows "(\<forall>p p' key key' fd fd'. owns p = Some (key, fd) \<longrightarrow> owns p' = Some (key', fd') \<longrightarrow> p \<noteq> p' \<longrightarrow> key \<noteq> key') \<and>
    (\<forall>key w'. acquire_resolved S root key w = (Inl AlreadyClaimed, w') \<longrightarrow>
      (\<exists>p key' fd. owns p = Some (key', fd) \<and> sanitise key' = sanitise key))"
  using lock_service.exclusive [OF assms(1,3,2)] lock_service.refused_is_occupied [OF assms(1,3,2)]
  by (fastforce simp: lock_path_eq device_lock_name_def)

text \<open>Lock files and containers share names.  The lock file of a board is a valid container id, and
  the directory of the container of that name is the same path: whichever is made first, the other
  cannot be.\<close>
theorem lock_file_is_container_dir:
  assumes "length key \<le> 1017"
  shows "validate_container_id (device_lock_name key) = Inr () \<and>
    path_components (state_dir root (device_lock_name key)) = lock_path root key"
  using device_lock_name_valid [OF assms] by (simp add: state_components lock_path_eq)

lemma lock_file_is_container_dir_witness:
  "validate_container_id (device_lock_name ''/dev/ttyACM0'') = Inr () \<and>
    path_components (state_dir ''/run/runtt'' (device_lock_name ''/dev/ttyACM0'')) = lock_path ''/run/runtt'' ''/dev/ttyACM0''"
  by (rule lock_file_is_container_dir) simp

end
