(* ===== verification/Proxy.thy ===== *)
theory Proxy
  imports Lock Resident
begin

text \<open>
  The resident proxy (\<open>crates/runtt/src/proxy.rs\<close>): the command line it is spawned with, the signals sent
  to it, waiting for \<open>start\<close>, and deploying.  Waiting is a step relation, because what matters is where
  between two instructions a signal arrives.
\<close>

definition PROXY_SUBCOMMAND :: string where "PROXY_SUBCOMMAND = ''proxy''"
definition LOCK_FD_ENV :: string where "LOCK_FD_ENV = ''RUNTT_LOCK_FD''"

definition SIGHUP :: int where "SIGHUP = 1"
definition SIGINT :: int where "SIGINT = 2"
definition SIGQUIT :: int where "SIGQUIT = 3"
definition SIGABRT :: int where "SIGABRT = 6"
definition SIGKILL :: int where "SIGKILL = 9"
definition SIGUSR1 :: int where "SIGUSR1 = 10"
definition SIGUSR2 :: int where "SIGUSR2 = 12"
definition SIGTERM :: int where "SIGTERM = 15"
definition SIGCONT :: int where "SIGCONT = 18"
definition SIGSTOP :: int where "SIGSTOP = 19"
definition SIGTSTP :: int where "SIGTSTP = 20"
definition SIGWINCH :: int where "SIGWINCH = 28"

lemmas signal_numbers = SIGHUP_def SIGINT_def SIGQUIT_def SIGABRT_def SIGKILL_def SIGUSR1_def SIGUSR2_def
  SIGTERM_def SIGCONT_def SIGSTOP_def SIGTSTP_def SIGWINCH_def

subsection \<open>Spawning and signalling\<close>

definition int_string :: "int \<Rightarrow> string" where
  "int_string i = (if i < 0 then ''-'' @ dec_string (nat (- i)) else dec_string (nat i))"

definition inherited :: "string \<Rightarrow> string option \<Rightarrow> (string \<times> string) list" where
  "inherited name value = (case value of None \<Rightarrow> [] | Some v \<Rightarrow> [(name, v)])"

definition spawn_args :: "string \<Rightarrow> string \<Rightarrow> string \<Rightarrow> string \<Rightarrow> bool \<Rightarrow> string option \<Rightarrow> string list" where
  "spawn_args root cid target firmware skip_if_same log_target =
     [''--root'', root, PROXY_SUBCOMMAND, ''--container-id'', cid, ''--target'', target, ''--firmware'', firmware] @
     (if \<not> skip_if_same then [''--force-reflash''] else []) @
     (case log_target of Some lt \<Rightarrow> [''--log-target'', lt] | None \<Rightarrow> [])"

definition spawn ::
    "'w os \<Rightarrow> string \<Rightarrow> string \<Rightarrow> string \<Rightarrow> string \<Rightarrow> bool \<Rightarrow> string option \<Rightarrow> int \<Rightarrow> ('w, int) io" where
  "spawn S root cid target firmware skip_if_same log_target lock_fd =
     io_bind (io_call (os_env S ''RUNTT_TRACE'')) (\<lambda>trace.
     io_bind (io_call (os_env S ''RUST_LOG'')) (\<lambda>log.
       io_try (os_spawn S
         \<lparr>cmd_args = spawn_args root cid target firmware skip_if_same log_target,
          cmd_env = [(''PATH'', ''/usr/sbin:/usr/bin:/sbin:/bin''), (LOCK_FD_ENV, int_string lock_fd)] @
              inherited ''RUNTT_TRACE'' trace @ inherited ''RUST_LOG'' log\<rparr>)))"

definition signal_proxy :: "'w os \<Rightarrow> int \<Rightarrow> int \<Rightarrow> ('w, unit) io" where
  "signal_proxy S pid sig = io_context (SignalProxy pid) (io_try (os_kill S pid sig))"

definition is_alive :: "'w os \<Rightarrow> int \<Rightarrow> ('w, bool) io" where
  "is_alive S pid =
     (if 0 < pid then io_bind (io_call (os_kill S pid 0)) (\<lambda>r. io_ok (is_ok r)) else io_ok False)"

text \<open>\<open>None\<close> where the loop does not end.\<close>

partial_function (option) await_loop :: "'w os \<Rightarrow> int \<Rightarrow> nat \<Rightarrow> 'w \<Rightarrow> (bool \<times> 'w) option" where
  "await_loop S pid deadline w =
     (case os_now S w of
        (now, w1) \<Rightarrow>
          if now < deadline then
            (case is_alive S pid w1 of
               (alive, w2) \<Rightarrow>
                 if alive = Inr False then Some (True, w2)
                 else await_loop S pid deadline (snd (os_sleep S 20 w2)))
          else (case is_alive S pid w1 of (alive, w2) \<Rightarrow> Some (alive = Inr False, w2)))"

definition await_exit :: "'w os \<Rightarrow> int \<Rightarrow> nat \<Rightarrow> 'w \<Rightarrow> (bool \<times> 'w) option" where
  "await_exit S pid timeout w =
     (case os_now S w of (now, w1) \<Rightarrow> await_loop S pid (now + timeout) w1)"

subsection \<open>Waiting for start\<close>

text \<open>The points of the loop: before \<open>install_handlers\<close>, before the \<open>swap\<close>, between the \<open>swap\<close> that gave 0 and
  \<open>pause\<close>, inside \<open>pause\<close>, and out of the loop.\<close>

datatype wait_point = NoHandlers | AtSwap | AtPause | InPause | Started | ExitedClean | KilledByDefault

record waiting =
  signal_received :: int        \<comment> \<open>\<open>SIGNAL_RECEIVED\<close>\<close>
  wait_at :: wait_point

definition handled_signals :: "int set" where
  "handled_signals = {SIGUSR1, SIGTERM, SIGINT}"

text \<open>A signal runs the handler, and \<open>pause\<close> returns when a handler has run; while there is none, each of
  the three kills the process.\<close>

definition handle_signal :: "int \<Rightarrow> waiting \<Rightarrow> waiting" where
  "handle_signal sig p =
     (if wait_at p = NoHandlers then p\<lparr>wait_at := KilledByDefault\<rparr>
      else if wait_at p = KilledByDefault then p
      else p\<lparr>signal_received := sig, wait_at := (if wait_at p = InPause then AtSwap else wait_at p)\<rparr>)"

definition wait_step :: "waiting \<Rightarrow> waiting option" where
  "wait_step p =
     (case wait_at p of
        NoHandlers \<Rightarrow> Some (p\<lparr>wait_at := AtSwap\<rparr>)
      | AtSwap \<Rightarrow>
          Some (p\<lparr>signal_received := 0,
                 wait_at := (if signal_received p = 0 then AtPause
                             else if signal_received p = SIGUSR1 then Started
                             else if signal_received p = SIGTERM \<or> signal_received p = SIGINT then ExitedClean
                             else AtSwap)\<rparr>)
      | AtPause \<Rightarrow> Some (p\<lparr>wait_at := InPause\<rparr>)
      | _ \<Rightarrow> None)"

inductive waits :: "int list \<Rightarrow> waiting \<Rightarrow> bool" where   \<comment> \<open>with the signals delivered so far\<close>
  begin_wait: "waits [] \<lparr>signal_received = 0, wait_at = NoHandlers\<rparr>"
| proceed: "waits sigs p \<Longrightarrow> wait_step p = Some p' \<Longrightarrow> waits sigs p'"
| deliver: "waits sigs p \<Longrightarrow> sig \<in> handled_signals \<Longrightarrow> waits (sigs @ [sig]) (handle_signal sig p)"

text \<open>Nothing is taken for a signal that was not delivered.\<close>

definition wait_inv :: "int list \<Rightarrow> waiting \<Rightarrow> bool" where
  "wait_inv sigs p \<longleftrightarrow>
     (signal_received p \<noteq> 0 \<longrightarrow> signal_received p \<in> set sigs) \<and>
     (wait_at p = Started \<longrightarrow> SIGUSR1 \<in> set sigs) \<and>
     (wait_at p = ExitedClean \<longrightarrow> SIGTERM \<in> set sigs \<or> SIGINT \<in> set sigs)"

lemma waits_inv: "waits sigs p \<Longrightarrow> wait_inv sigs p"
proof (induction rule: waits.induct)
  case (proceed sigs p p')
  then show ?case
    by (auto simp: wait_inv_def wait_step_def split: wait_point.splits if_splits)
qed (auto simp: wait_inv_def handle_signal_def handled_signals_def)

subsection \<open>Deploying\<close>

definition resolve_label :: "sysfs \<Rightarrow> failed_step \<Rightarrow> string \<Rightarrow> verb_error + resolved" where
  "resolve_label fs step label =
     (case target_parse label of
        Inl e \<Rightarrow> Inl (BadLabel e)
      | Inr t \<Rightarrow> (case resolve fs t of Inl e \<Rightarrow> Inl (In_step step (CannotResolve e)) | Inr r \<Rightarrow> Inr r))"

definition with_log_target :: "sysfs \<Rightarrow> string option \<Rightarrow> resolved \<Rightarrow> verb_error + resolved" where
  "with_log_target fs log_target resolved =
     (case log_target of
        None \<Rightarrow> Inr resolved
      | Some lt \<Rightarrow>
          (case resolve_label fs (ResolveLogTarget lt) lt of
             Inl e \<Rightarrow> Inl e
           | Inr (SerialPort mgmt _) \<Rightarrow> Inr (set_log mgmt resolved)
           | Inr (CanNode _ _ _) \<Rightarrow> Inl (CanLogTarget lt)))"

definition on_os :: "('w, 'a) io \<Rightarrow> 'w rt \<Rightarrow> (verb_error + 'a) \<times> 'w rt" where
  "on_os m s = (case m (rt_world s) of (r, w) \<Rightarrow> (r, s\<lparr>rt_world := w\<rparr>))"

definition proxy_deploy ::
    "'w os \<Rightarrow> 'w host \<Rightarrow> sysfs \<Rightarrow> (bytes \<Rightarrow> bytes) \<Rightarrow> usize_cfg \<Rightarrow> string \<Rightarrow> string \<Rightarrow> string \<Rightarrow> bool
      \<Rightarrow> string option \<Rightarrow> 'w rt \<Rightarrow> ((verb_error + int) \<times> 'w rt) option" where
  "proxy_deploy S H fs sha cfg root target firmware skip_if_same log_target s =
     (case resolve_label fs (ResolveTarget target) target of
        Inl e \<Rightarrow> Some (Inl e, s)
      | Inr resolved \<Rightarrow>
          (case on_os (io_context AlreadyInUse (acquire_resolved S root (lock_key fs resolved))) s of
             (Inl e, s1) \<Rightarrow> Some (Inl e, s1)
           | (Inr fd, s1) \<Rightarrow>
               (case with_log_target fs log_target resolved of
                  Inl e \<Rightarrow> Some (Inl e, s1)
                | Inr resolved' \<Rightarrow>
                    let s2 = (if log_source resolved' = None then snd (say SingleChannel s1) else s1) in
                    (case deploy_run H sha cfg \<lparr>dp_firmware = firmware, dp_resolved = resolved',
                            dp_skip_if_same = skip_if_same\<rparr> s2 of
                       (Inl e, s3) \<Rightarrow> Some (Inl (DeployFailed e), s3)
                     | (Inr c, s3) \<Rightarrow>
                         (case stay_resident H c s3 of
                            None \<Rightarrow> None
                          | Some (Inl e, s4) \<Rightarrow> Some (Inl (DeployFailed e), s4)
                          | Some (Inr _, s4) \<Rightarrow> Some (Inr 0, s4))))))"

text \<open>\<open>main\<close>: an error is exit code 1.\<close>

definition exit_code :: "verb_error + int \<Rightarrow> int" where
  "exit_code r = (case r of Inl _ \<Rightarrow> 1 | Inr code \<Rightarrow> code)"

lemma stay_resident_stopped:
  assumes "stay_resident H c s = Some (Inr u, s')"
  shows "\<exists>tr. rt_trace s' = tr @ [EvStopAsked True, EvClosed (cl_inner c)]"
proof -
  from assms obtain s1 where loop: "resident_loop H c 0 s = Some (Inr u, s1)"
    and s': "s' = snd (close_handle H (cl_inner c) s1)"
    by (auto simp: stay_resident_def)
  have "rt_trace s' = rt_trace s1 @ [EvClosed (cl_inner c)]"
    by (simp add: s' close_handle_def perform_def split: prod.split)
  with resident_loop_end [OF loop] show ?thesis by (auto simp: resident_end_def)
qed

lemma on_os_trace: "on_os m s = (r, s') \<Longrightarrow> rt_trace s' = rt_trace s"
  by (auto simp: on_os_def split: prod.splits)

text \<open>Either the claim failed, or everything after it ran.\<close>

lemma proxy_deploy_cases:
  assumes "proxy_deploy S H fs sha cfg root target firmware skip log_target s = Some (r, s')"
  obtains (unclaimed) e where "r = Inl e" "rt_trace s' = rt_trace s"
  | (claimed) resolved fd w where "resolve_label fs (ResolveTarget target) target = Inr resolved"
      "acquire_resolved S root (lock_key fs resolved) (rt_world s) = (Inr fd, w)"
      "\<forall>code. r = Inr code \<longrightarrow> code = 0 \<and> (\<exists>c s3. stay_resident H c s3 = Some (Inr (), s'))"
proof (cases "resolve_label fs (ResolveTarget target) target")
  case (Inl e)
  with assms unclaimed [of e] show ?thesis by (auto simp: proxy_deploy_def)
next
  case (Inr resolved)
  note res = this
  obtain q s1 where claim: "on_os (io_context AlreadyInUse (acquire_resolved S root (lock_key fs resolved))) s = (q, s1)"
    by fastforce
  show ?thesis
  proof (cases q)
    case (Inl e)
    with assms res claim unclaimed [of e] on_os_trace [OF claim] show ?thesis by (auto simp: proxy_deploy_def)
  next
    case (Inr fd)
    with claim obtain w where "acquire_resolved S root (lock_key fs resolved) (rt_world s) = (Inr fd, w)"
      by (auto simp: on_os_def io_context_Inr split: prod.splits)
    moreover have "\<forall>code. r = Inr code \<longrightarrow> code = 0 \<and> (\<exists>c s3. stay_resident H c s3 = Some (Inr (), s'))"
      using assms res claim Inr
      by (auto simp: proxy_deploy_def Let_def split: sum.splits prod.splits option.splits)
    ultimately show ?thesis using res claimed by blast
  qed
qed

subsection \<open>Properties\<close>

text \<open>The proxy starts deploying only when \<open>start\<close> has signalled it, and exits cleanly before that only
  when it was told to; and a start signal that finds it inside \<open>pause\<close> makes it begin at its next
  step.\<close>
theorem start_gate:
  assumes "waits sigs p"
  shows "(wait_at p = Started \<longrightarrow> SIGUSR1 \<in> set sigs) \<and>
    (wait_at p = ExitedClean \<longrightarrow> SIGTERM \<in> set sigs \<or> SIGINT \<in> set sigs) \<and>
    (wait_at p = InPause \<longrightarrow> (\<exists>p'. wait_step (handle_signal SIGUSR1 p) = Some p' \<and> wait_at p' = Started))"
  using waits_inv [OF assms] by (auto simp: wait_inv_def handle_signal_def wait_step_def signal_numbers)

text \<open>A start can be lost.  The flag is read and \<open>pause\<close> entered in two steps: a start signal that
  arrives between them leaves the proxy blocked with the signal noted but not seen, unable to take
  another step by itself.  And one that arrives before the handlers are installed, which nothing
  \<open>create\<close> waits for, kills it.\<close>
theorem start_signal_lost:
  "(\<exists>p. waits [SIGUSR1] p \<and> wait_at p = InPause \<and> signal_received p = SIGUSR1 \<and> wait_step p = None) \<and>
   (\<exists>p. waits [SIGUSR1] p \<and> wait_at p = KilledByDefault)"
proof
  have usr1: "SIGUSR1 \<in> handled_signals" by (simp add: handled_signals_def)
  have "waits [] \<lparr>signal_received = 0, wait_at = AtSwap\<rparr>"
    by (rule proceed [OF begin_wait]) (simp add: wait_step_def)
  then have "waits [] \<lparr>signal_received = 0, wait_at = AtPause\<rparr>"
    by (rule proceed) (simp add: wait_step_def)
  from deliver [OF this usr1] have "waits [SIGUSR1] \<lparr>signal_received = SIGUSR1, wait_at = AtPause\<rparr>"
    by (simp add: handle_signal_def)
  then have "waits [SIGUSR1] \<lparr>signal_received = SIGUSR1, wait_at = InPause\<rparr>"
    by (rule proceed) (simp add: wait_step_def)
  then show "\<exists>p. waits [SIGUSR1] p \<and> wait_at p = InPause \<and> signal_received p = SIGUSR1 \<and> wait_step p = None"
    by (intro exI conjI) (assumption, simp_all add: wait_step_def)
  from deliver [OF begin_wait usr1] have "waits [SIGUSR1] \<lparr>signal_received = 0, wait_at = KilledByDefault\<rparr>"
    by (simp add: handle_signal_def)
  then show "\<exists>p. waits [SIGUSR1] p \<and> wait_at p = KilledByDefault"
    by (intro exI conjI) (assumption, simp)
qed

lemma start_gate_witness: "wait_at \<lparr>signal_received = 0, wait_at = NoHandlers\<rparr> \<noteq> Started"
  using start_gate [OF begin_wait] by auto

text \<open>The proxy claims before it touches, and exit code 0 means it was asked to stop.  Whatever the
  board and the operating system do: unless the label resolved and the claim on that very board was
  granted, nothing was sent, opened or written; and a proxy that deployed ends with exit code 0 only
  after a stop request, closing its connection.\<close>
theorem proxy_claims_first:
  assumes "proxy_deploy S H fs sha cfg root target firmware skip log_target s = Some (r, s')"
  shows "(rt_trace s' = rt_trace s \<and> exit_code r = 1 \<or>
      (\<exists>resolved fd w. resolve_label fs (ResolveTarget target) target = Inr resolved \<and>
        acquire_resolved S root (lock_key fs resolved) (rt_world s) = (Inr fd, w))) \<and>
    (exit_code r = 0 \<longrightarrow> (\<exists>tr n. rt_trace s' = tr @ [EvStopAsked True, EvClosed n]))"
  using assms
proof (cases rule: proxy_deploy_cases)
  case (unclaimed e)
  then show ?thesis by (simp add: exit_code_def)
next
  case (claimed resolved fd w)
  moreover have "\<exists>tr n. rt_trace s' = tr @ [EvStopAsked True, EvClosed n]" if "exit_code r = 0"
    using that claimed(3) stay_resident_stopped by (cases r) (fastforce simp: exit_code_def)+
  ultimately show ?thesis by blast
qed

end
