(* ===== verification/Verbs.thy ===== *)
theory Verbs
  imports Proxy
begin

text \<open>
  The five verbs (\<open>crates/runtt/src/verbs.rs\<close>): create, start, state, kill, delete.  Each runs in a
  process of its own; what they share is the state store and the proxy.  Diagnostics
  (\<open>trace::record\<close>, \<open>tracing\<close>) are left out.
\<close>

subsection \<open>Create\<close>

definition annotation :: "spec \<Rightarrow> string \<Rightarrow> string option" where
  "annotation sp key = (case sp_annotations sp of None \<Rightarrow> None | Some a \<Rightarrow> a key)"

definition spec_target :: "spec \<Rightarrow> verb_error + string" where
  "spec_target sp = ok_or MissingTarget (annotation sp SPEC_TARGET)"

definition spec_log_target :: "spec \<Rightarrow> verb_error + string option" where
  "spec_log_target sp =
     (case annotation sp SPEC_LOG_TARGET of
        None \<Rightarrow> Inr None
      | Some lt \<Rightarrow> (case target_parse lt of
           Inl e \<Rightarrow> Inl (In_step LogTargetInvalid (BadLabel e)) | Inr _ \<Rightarrow> Inr (Some lt)))"

definition ascii_lowercase :: "string \<Rightarrow> string" where
  "ascii_lowercase s = map (\<lambda>c. let n = of_char c :: nat in
     if 65 \<le> n \<and> n \<le> 90 then char_of (n + 32) else c) s"

definition ascii_uppercase :: "string \<Rightarrow> string" where
  "ascii_uppercase s = map (\<lambda>c. let n = of_char c :: nat in
     if 97 \<le> n \<and> n \<le> 122 then char_of (n - 32) else c) s"

definition spec_skip_if_same :: "spec \<Rightarrow> bool" where
  "spec_skip_if_same sp =
     (case annotation sp SPEC_SKIP_IF_SAME of
        None \<Rightarrow> True
      | Some v \<Rightarrow> ascii_lowercase (trim v) \<notin> {''false'', ''0'', ''no''})"

definition locate_firmware :: "'w os \<Rightarrow> spec \<Rightarrow> string \<Rightarrow> ('w, string) io" where
  "locate_firmware S sp bundle =
     (let args = (case sp_process_args sp of Some (Some a) \<Rightarrow> a | _ \<Rightarrow> []) in
      if length args \<noteq> 1 then io_fail (EntrypointArguments args)
      else
        (case sp_root_path sp of
           None \<Rightarrow> io_fail NoRootPath
         | Some root \<Rightarrow>
             let rootfs = (if starts_with root ''/'' then root else path_join bundle root);
                 path = path_join rootfs (hd args)
             in io_bind (io_call (os_exists S path)) (\<lambda>there.
                  if there then io_ok path else io_fail (NoFirmware path))))"

text \<open>\<open>SpawnGuard\<close>: a scope that kills the proxy when it is left by an error.\<close>

definition guarded :: "'w os \<Rightarrow> int \<Rightarrow> ('w, 'a) io \<Rightarrow> ('w, 'a) io" where
  "guarded S pid m w =
     (case m w of
        (Inl e, w') \<Rightarrow> (Inl e, snd (signal_proxy S pid SIGKILL w'))
      | (Inr a, w') \<Rightarrow> (Inr a, w'))"

definition created_state :: "string \<Rightarrow> string \<Rightarrow> int \<Rightarrow> string \<Rightarrow> string \<Rightarrow> container_state" where
  "created_state cid bundle pid target firmware =
     set_annotation STATE_FIRMWARE_PATH firmware
       (set_annotation STATE_TARGET target
         ((new_state cid bundle)\<lparr>cs_status := Created, cs_pid := Some pid\<rparr>))"

definition ascii_bytes :: "string \<Rightarrow> bytes" where
  "ascii_bytes s = map (\<lambda>c. of_nat (of_char c)) s"

definition record_created ::
    "'w os \<Rightarrow> json \<Rightarrow> string \<Rightarrow> string \<Rightarrow> string \<Rightarrow> string option \<Rightarrow> string \<Rightarrow> string \<Rightarrow> int \<Rightarrow> ('w, unit) io" where
  "record_created S J root cid bundle pid_file target firmware pid =
     io_bind (state_write S J root (created_state cid bundle pid target firmware)) (\<lambda>_.
       case pid_file of
         None \<Rightarrow> io_ok ()
       | Some p \<Rightarrow> io_context WritePidFile (io_try (os_write_file S p (ascii_bytes (int_string pid)))))"

definition read_spec :: "'w os \<Rightarrow> json \<Rightarrow> string \<Rightarrow> ('w, spec) io" where
  "read_spec S J bundle =
     io_bind (io_context ReadSpec (io_try (os_read_file S (path_join bundle ''config.json'')))) (\<lambda>raw.
       io_context ParseSpec (io_result (map_sum Io id (js_spec_in J raw))))"

text \<open>What the spec asks for: target, firmware, log target, all checked before anything is claimed.\<close>

definition read_request ::
    "'w os \<Rightarrow> json \<Rightarrow> string \<Rightarrow> ('w, string \<times> string \<times> string option \<times> bool) io" where
  "read_request S J bundle =
     io_bind (read_spec S J bundle) (\<lambda>sp.
     io_bind (io_result (spec_target sp)) (\<lambda>target.
     io_bind (io_result (map_sum BadLabel id (target_parse target))) (\<lambda>_.
     io_bind (locate_firmware S sp bundle) (\<lambda>firmware.
     io_bind (io_result (spec_log_target sp)) (\<lambda>log_target.
       io_ok (target, firmware, log_target, spec_skip_if_same sp))))))"

definition create ::
    "'w os \<Rightarrow> json \<Rightarrow> string \<Rightarrow> string \<Rightarrow> string \<Rightarrow> string option \<Rightarrow> ('w, unit) io" where
  "create S J root cid bundle pid_file =
     io_bind (io_result (validate_container_id cid)) (\<lambda>_.
     io_bind (read_request S J bundle) (\<lambda>(target, firmware, log_target, skip_if_same).
     io_bind (acquire S root target) (\<lambda>lock_fd.
     io_bind (io_context SpawnProxy (spawn S root cid target firmware skip_if_same log_target lock_fd)) (\<lambda>pid.
       guarded S pid (record_created S J root cid bundle pid_file target firmware pid)))))"

text \<open>An absolute entrypoint leaves the root file system: \<open>Path::join\<close> drops what it is joined to, and the
  firmware is looked for, and later read, on the host.\<close>

lemma absolute_entrypoint:
  assumes "sp_process_args sp = Some (Some [arg])" and "sp_root_path sp = Some rootfs" and "starts_with arg ''/''"
    and "os_exists S arg w = (True, w')"
  shows "locate_firmware S sp b w = (Inr arg, w')"
  using assms by (simp add: locate_firmware_def path_join_def io_run)

subsection \<open>Start, state, kill, delete\<close>

definition start :: "'w os \<Rightarrow> json \<Rightarrow> string \<Rightarrow> string \<Rightarrow> ('w, unit) io" where
  "start S J root cid =
     io_bind (state_read S J root cid) (\<lambda>st.
       if cs_status st \<noteq> Created then io_fail (NotCreated (cs_status st))
       else
         (case cs_pid st of
            None \<Rightarrow> io_fail NoPid
          | Some pid \<Rightarrow>
              io_bind (io_context (SignalProxy pid) (signal_proxy S pid SIGUSR1)) (\<lambda>_.
                state_write S J root (st\<lparr>cs_status := Running\<rparr>))))"

definition state_verb :: "'w os \<Rightarrow> json \<Rightarrow> string \<Rightarrow> string \<Rightarrow> ('w, unit) io" where
  "state_verb S J root cid =
     io_bind (state_read S J root cid) (\<lambda>st.
     io_bind (case cs_pid st of
                Some pid \<Rightarrow> if cs_status st = Running then is_alive S pid else io_ok True
              | None \<Rightarrow> io_ok True) (\<lambda>alive.
     io_bind (io_context SerialiseState (io_result (map_sum Io id
         (js_state_line J (if alive then st else st\<lparr>cs_status := Stopped\<rparr>))))) (\<lambda>json.
       io_print (os_print S json))))"

definition signal_names :: "(string \<times> int) list" where
  "signal_names = [(''HUP'', SIGHUP), (''INT'', SIGINT), (''QUIT'', SIGQUIT), (''ABRT'', SIGABRT),
     (''KILL'', SIGKILL), (''USR1'', SIGUSR1), (''USR2'', SIGUSR2), (''TERM'', SIGTERM),
     (''CONT'', SIGCONT), (''STOP'', SIGSTOP), (''TSTP'', SIGTSTP), (''WINCH'', SIGWINCH)]"

definition parse_signal :: "string \<Rightarrow> verb_error + int" where
  "parse_signal input =
     (let raw = trim input in
      case parse_i32 raw of
        Some n \<Rightarrow> if 1 \<le> n \<and> n \<le> 64 then Inr n else Inl (SignalOutOfRange n)
      | None \<Rightarrow>
          let name = ascii_uppercase raw;
              name = (case strip_prefix ''SIG'' name of Some n \<Rightarrow> n | None \<Rightarrow> name)
          in ok_or (UnknownSignal name) (map_of signal_names name))"

definition kill :: "'w os \<Rightarrow> json \<Rightarrow> string \<Rightarrow> string \<Rightarrow> string \<Rightarrow> ('w, unit) io" where
  "kill S J root cid sig_name =
     io_bind (state_read S J root cid) (\<lambda>st.
     io_bind (io_result (parse_signal sig_name)) (\<lambda>sig.
     io_bind (case cs_pid st of
                None \<Rightarrow> io_ok ()
              | Some pid \<Rightarrow> io_bind (is_alive S pid) (\<lambda>alive.
                  if alive then io_context (SignalProxy pid) (signal_proxy S pid sig) else io_ok ())) (\<lambda>_.
       if sig = SIGKILL \<or> sig = SIGTERM \<or> sig = SIGINT
       then state_write S J root (st\<lparr>cs_status := Stopped\<rparr>) else io_ok ())))"

text \<open>\<open>None\<close> where waiting for the proxy does not end.\<close>

definition remove_container :: "'w os \<Rightarrow> string \<Rightarrow> string \<Rightarrow> int option \<Rightarrow> bool \<Rightarrow> 'w
    \<Rightarrow> ((verb_error + unit) \<times> 'w) option" where
  "remove_container S root cid pid alive w =
     (case pid of
        Some p \<Rightarrow>
          if alive then
            map_option (\<lambda>(_, w'). state_remove S root cid w')
              (await_exit S p 5000 (snd (signal_proxy S p SIGKILL w)))
          else Some (state_remove S root cid w)
      | None \<Rightarrow> Some (state_remove S root cid w))"

definition delete :: "'w os \<Rightarrow> json \<Rightarrow> string \<Rightarrow> string \<Rightarrow> bool \<Rightarrow> 'w \<Rightarrow> ((verb_error + unit) \<times> 'w) option" where
  "delete S J root cid force w =
     (case state_read S J root cid w of
        (Inl e, w1) \<Rightarrow> Some (if force then Inr () else Inl e, w1)
      | (Inr st, w1) \<Rightarrow>
          (case (case cs_pid st of None \<Rightarrow> io_ok False | Some p \<Rightarrow> is_alive S p) w1 of
             (r, w2) \<Rightarrow>
               let alive = (r = Inr True) in
               if cs_status st = Running \<and> alive \<and> \<not> force then Some (Inl StillRunning, w2)
               else remove_container S root cid (cs_pid st) alive w2))"

subsection \<open>The command line\<close>

text \<open>The five commands of \<open>main.rs\<close>, once \<open>clap\<close> has parsed them; the sixth, which only \<open>spawn\<close> uses, is
  \<open>proxy_command_run\<close> of the theory \<open>Proxy_Process\<close>.\<close>

datatype standard_cmd =
    CreateCmd string string "string option"
  | StartCmd string
  | StateCmd string
  | KillCmd string string bool
  | DeleteCmd string bool

fun run_verb :: "'w os \<Rightarrow> json \<Rightarrow> string \<Rightarrow> standard_cmd \<Rightarrow> 'w \<Rightarrow> ((verb_error + unit) \<times> 'w) option" where
  "run_verb S J root (CreateCmd cid b pid_file) w = Some (create S J root cid b pid_file w)"
| "run_verb S J root (StartCmd cid) w = Some (start S J root cid w)"
| "run_verb S J root (StateCmd cid) w = Some (state_verb S J root cid w)"
| "run_verb S J root (KillCmd cid sig all) w = Some (kill S J root cid sig w)"
| "run_verb S J root (DeleteCmd cid force) w = delete S J root cid force w"

definition real_main :: "'w os \<Rightarrow> json \<Rightarrow> string option \<Rightarrow> standard_cmd \<Rightarrow> 'w \<Rightarrow> ((verb_error + unit) \<times> 'w) option" where
  "real_main S J root_flag cmd w =
     (case state_root S root_flag w of
        (Inl e, w1) \<Rightarrow> Some (Inl e, w1)
      | (Inr root, w1) \<Rightarrow> run_verb S J root cmd w1)"

text \<open>How \<open>main\<close> ends, tracing off: an error is reported on standard error, as \<open>show e\<close> (\<open>{e:#}\<close>), and is exit code
  1.  \<open>eprintln!\<close> panics as \<open>println!\<close> does, and a panic of the main thread is exit code 101.\<close>

definition exit_report ::
    "'w os \<Rightarrow> (verb_error \<Rightarrow> string) \<Rightarrow> verb_error + unit \<Rightarrow> 'w \<Rightarrow> int \<times> 'w" where
  "exit_report S show r w =
     (case r of
        Inr _ \<Rightarrow> (0, w)
      | Inl (PrintPanicked _) \<Rightarrow> (101, w)
      | Inl e \<Rightarrow> (case os_eprint S (ascii_bytes (''runtt: '' @ show e)) w of
                   (Inl _, w') \<Rightarrow> (101, w')
                 | (Inr _, w') \<Rightarrow> (1, w')))"

definition main_exit ::
    "'w os \<Rightarrow> json \<Rightarrow> (verb_error \<Rightarrow> string) \<Rightarrow> string option \<Rightarrow> standard_cmd \<Rightarrow> 'w \<Rightarrow> (int \<times> 'w) option" where
  "main_exit S J show root_flag cmd w =
     map_option (\<lambda>(r, w'). exit_report S show r w') (real_main S J root_flag cmd w)"

subsection \<open>Signals\<close>

lemma signal_list: "set signal_names = {(''HUP'', 1), (''INT'', 2), (''QUIT'', 3), (''ABRT'', 6), (''KILL'', 9),
    (''USR1'', 10), (''USR2'', 12), (''TERM'', 15), (''CONT'', 18), (''STOP'', 19), (''TSTP'', 20), (''WINCH'', 28)}"
  by (simp add: signal_names_def signal_numbers)

lemma signal_lookup: "map_of signal_names name = Some n \<longleftrightarrow> (name, n) \<in> set signal_names"
proof -
  have "distinct (map fst signal_names)" by (simp add: signal_names_def)
  then show ?thesis by (simp add: map_of_eq_Some_iff)
qed

lemma strip_prefix_None: "strip_prefix p s = None \<longleftrightarrow> \<not> prefix p s"
  using strip_prefix_Some [of p s] by (cases "strip_prefix p s") (auto simp: prefix_def)

lemma strip_sig: "(case strip_prefix ''SIG'' s of Some n \<Rightarrow> n | None \<Rightarrow> s) = name \<longleftrightarrow>
    s = ''SIG'' @ name \<or> s = name \<and> \<not> prefix ''SIG'' s"
proof (cases "strip_prefix ''SIG'' s")
  case None
  then have "\<not> prefix ''SIG'' s" using strip_prefix_None by blast
  then have "s \<noteq> ''SIG'' @ name" by (metis prefixI)
  with \<open>\<not> prefix ''SIG'' s\<close> show ?thesis unfolding None option.case by blast
next
  case (Some r)
  then have "s = ''SIG'' @ r" by (simp only: strip_prefix_Some)
  then show ?thesis by (simp del: append_Cons append_Nil)
qed

lemma signal_names_plain: "(name, n) \<in> set signal_names \<Longrightarrow> \<not> prefix ''SIG'' name"
  by (auto simp: signal_list)

text \<open>The signals \<open>kill\<close> accepts: the decimal numbers from 1 to 64, and the twelve names, in any case, with
  or without \<open>SIG\<close>, spaces around them; nothing else, and in particular never signal 0.\<close>
theorem parse_signal_grammar:
  "parse_signal input = Inr n \<longleftrightarrow>
    (case parse_i32 (trim input) of
       Some m \<Rightarrow> m = n \<and> 1 \<le> n \<and> n \<le> 64
     | None \<Rightarrow> \<exists>name. (name, n) \<in> set signal_names \<and>
         (ascii_uppercase (trim input) = name \<or> ascii_uppercase (trim input) = ''SIG'' @ name))"
proof (cases "parse_i32 (trim input)")
  case (Some m)
  then show ?thesis by (auto simp: parse_signal_def)
next
  case None
  let ?name = "ascii_uppercase (trim input)"
  let ?stripped = "case strip_prefix ''SIG'' ?name of Some n \<Rightarrow> n | None \<Rightarrow> ?name"
  from None have "parse_signal input = Inr n \<longleftrightarrow> (?stripped, n) \<in> set signal_names"
    by (simp add: parse_signal_def Let_def signal_lookup)
  also have "\<dots> \<longleftrightarrow> (\<exists>name. (name, n) \<in> set signal_names \<and> (?name = name \<or> ?name = ''SIG'' @ name))"
    using strip_sig [of ?name] signal_names_plain [of _ n] by metis
  finally show ?thesis using None by simp
qed

end
