(* ===== verification/Lifecycle.thy ===== *)
theory Lifecycle
  imports Verbs
begin

text \<open>
  What the verbs of \<open>Verbs\<close> (\<open>crates/runtt/src/verbs.rs\<close>) promise, on every operating system that keeps
  the laws of a locale and whichever of its calls fail: \<open>container_host\<close> for the files (the verbs refine
  an abstract life cycle and keep every recorded state well formed), \<open>process_host\<close> for the processes
  (which process is spawned, probed and killed when), \<open>ticking\<close> for the clock (waiting for a killed proxy
  ends).
\<close>

subsection \<open>Which calls a verb makes\<close>

definition reading_keeps :: "'w os \<Rightarrow> ('w \<Rightarrow> 'w \<Rightarrow> bool) \<Rightarrow> bool" where
  "reading_keeps S R \<longleftrightarrow> reflp R \<and> transp R \<and> (\<forall>p w. R w (snd (os_read_file S p w))) \<and>
     (\<forall>p w. R w (snd (os_exists S p w)))"

definition locking_keeps :: "'w os \<Rightarrow> string \<Rightarrow> string \<Rightarrow> ('w \<Rightarrow> 'w \<Rightarrow> bool) \<Rightarrow> bool" where
  "locking_keeps S root name R \<longleftrightarrow> reflp R \<and> transp R \<and> (\<forall>w. R w (snd (os_create_dir_all S root w))) \<and>
     (\<forall>w. R w (snd (os_open_lock S (path_join root name) w))) \<and> (\<forall>fd w. R w (snd (os_flock S fd w))) \<and>
     (\<forall>fd w. R w (snd (os_close S fd w))) \<and> (\<forall>fd w. R w (snd (os_get_fd_flags S fd w))) \<and>
     (\<forall>fd flags w. R w (snd (os_set_fd_flags S fd flags w)))"

lemma state_read_keeps: "reading_keeps S R \<Longrightarrow> keeping R (state_read S J root cid)"
  unfolding state_read_def reading_keeps_def by (intro keeps_intros) auto

lemma read_request_keeps: "reading_keeps S R \<Longrightarrow> keeping R (read_request S J bundle)"
  unfolding read_request_def read_spec_def locate_firmware_def Let_def reading_keeps_def
  by (intro keeps_intros) auto

lemma acquire_named_keeps: "locking_keeps S root name R \<Longrightarrow> keeping R (acquire_named S root name)"
  unfolding acquire_named_def clear_cloexec_def locking_keeps_def
  by (intro keeps_intros) (auto split: flock_answer.split intro!: keeps_intros)

lemma acquire_keeps: "locking_keeps S root (lock_name target) R \<Longrightarrow> keeping R (acquire S root target)"
  by (intro keepingI) (auto simp: acquire_def split: prod.splits sum.splits dest: keepingD acquire_named_keeps)

lemma state_verb_keeps:
  assumes "reading_keeps S R" and "\<And>p w. R w (snd (os_kill S p 0 w))" and "\<And>b w. R w (snd (os_print S b w))"
  shows "keeping R (state_verb S J root cid)"
proof -
  have "reflp R" "transp R" using assms(1) by (auto simp: reading_keeps_def)
  moreover have "keeping R (is_alive S p)" for p
    unfolding is_alive_def by (intro keeps_intros assms(2) \<open>reflp R\<close> \<open>transp R\<close>)
  ultimately show ?thesis
    unfolding state_verb_def by (intro keeps_intros state_read_keeps assms)
qed

text \<open>Everything on the way to the end of the wait leaves the world as \<open>R\<close> has it.\<close>

definition waiting_keeps :: "'w os \<Rightarrow> int \<Rightarrow> ('w \<Rightarrow> 'w \<Rightarrow> bool) \<Rightarrow> bool" where
  "waiting_keeps S pid R \<longleftrightarrow> reflp R \<and> transp R \<and> (\<forall>w. R w (snd (os_now S w))) \<and>
     (\<forall>w. R w (snd (os_sleep S 20 w))) \<and> (\<forall>w. R w (snd (os_kill S pid 0 w)))"

lemma is_alive_keeps: "reflp R \<Longrightarrow> transp R \<Longrightarrow> (\<And>w. R w (snd (os_kill S pid 0 w))) \<Longrightarrow> keeping R (is_alive S pid)"
  unfolding is_alive_def by (intro keeps_intros)

lemma await_loop_keeps:
  assumes "await_loop S pid deadline w = Some y"
  shows "waiting_keeps S pid R \<longrightarrow> R w (snd y)"
proof (rule await_loop.raw_induct [of "\<lambda>S pid deadline w y. waiting_keeps S pid R \<longrightarrow> R w (snd y)", OF _ assms], intro impI)
  fix loop and S :: "'a os" and pid deadline w y
  assume IH: "\<And>S pid deadline w y. loop S pid deadline w = Some y \<Longrightarrow> waiting_keeps S pid R \<longrightarrow> R w (snd y)"
    and body: "(case os_now S w of (now, w1) \<Rightarrow>
        if now < deadline then
          (case is_alive S pid w1 of (alive, w2) \<Rightarrow>
             if alive = Inr False then Some (True, w2) else loop S pid deadline (snd (os_sleep S 20 w2)))
        else (case is_alive S pid w1 of (alive, w2) \<Rightarrow> Some (alive = Inr False, w2))) = Some y"
    and R: "waiting_keeps S pid R"
  then have order: "reflp R" "transp R" and sleep: "\<And>w. R w (snd (os_sleep S 20 w))"
    by (auto simp: waiting_keeps_def)
  obtain now w1 where now: "os_now S w = (now, w1)" by fastforce
  obtain alive w2 where alive: "is_alive S pid w1 = (alive, w2)" by fastforce
  have "R w w1" using R now by (auto simp: waiting_keeps_def) (metis snd_conv)
  moreover have "R w1 w2"
    using R keepingD [OF is_alive_keeps alive, of R] by (auto simp: waiting_keeps_def)
  ultimately have "R w w2" using order(2) by (blast dest: transpD)
  moreover have "y = (True, w2) \<or> y = (alive = Inr False, w2) \<or> loop S pid deadline (snd (os_sleep S 20 w2)) = Some y"
    using body now alive by (auto split: if_splits)
  ultimately show "R w (snd y)"
    using IH [of S pid deadline "snd (os_sleep S 20 w2)" y] R sleep [of w2] order(2) by (auto dest: transpD)
qed

lemma await_exit_keeps:
  assumes "await_exit S pid timeout w = Some (b, w')" and "waiting_keeps S pid R"
  shows "R w w'"
proof -
  obtain now w1 where now: "os_now S w = (now, w1)" by fastforce
  with assms await_loop_keeps [of S pid "now + timeout" w1 "(b, w')" R] show ?thesis
    by (auto simp: await_exit_def waiting_keeps_def dest: transpD) (metis snd_conv transpD)
qed


lemma create_run:
  assumes run: "create S J root cid bundle pid_file w = (r, w')" and R: "reading_keeps S R"
    and locking: "\<And>target. locking_keeps S root (lock_name target) R"
  obtains (refused) "R w w'" "r \<noteq> Inr ()"
  | (unspawned) target firmware skip log_target fd w1 e where "R w w1"
      "spawn S root cid target firmware skip log_target fd w1 = (Inl e, w')" "r \<noteq> Inr ()"
  | (spawned) target firmware skip log_target fd w1 pid w2 where "R w w1"
      "spawn S root cid target firmware skip log_target fd w1 = (Inr pid, w2)"
      "guarded S pid (record_created S J root cid bundle pid_file target firmware pid) w2 = (r, w')"
proof (cases "validate_container_id cid")
  case (Inl e)
  with run have "r = Inl e" "w' = w" by (auto simp: create_def io_run)
  then show ?thesis using R refused by (simp add: reading_keeps_def reflpD)
next
  case (Inr u)
  obtain q1 w1 where request: "read_request S J bundle w = (q1, w1)" by fastforce
  have w1: "R w w1" by (rule keepingD [OF read_request_keeps [OF R] request])
  show ?thesis
  proof (cases q1)
    case (Inl e)
    then show ?thesis using run Inr request w1 refused by (auto simp: create_def io_run)
  next
    case (Inr asked)
    obtain target firmware log_target skip where asked: "asked = (target, firmware, log_target, skip)"
      by (cases asked)
    obtain q2 w2 where claim: "acquire S root target w1 = (q2, w2)" by fastforce
    have w2: "R w w2"
      using keepingD [OF acquire_keeps [OF locking] claim] w1 R by (auto simp: reading_keeps_def dest: transpD)
    obtain q3 w3 where sp: "q2 = Inr fd \<Longrightarrow> spawn S root cid target firmware skip log_target fd w2 = (q3, w3)" for fd
      by (cases q2) (auto, metis prod.collapse)
    show ?thesis
      using run \<open>validate_container_id cid = Inr u\<close> request Inr asked claim w2 sp refused
        unspawned [of w2 target firmware skip log_target] spawned [of w2 target firmware skip log_target]
      by (cases q2; cases q3) (auto simp: create_def io_run)
  qed
qed

subsection \<open>The abstract life cycle\<close>

datatype verb = VCreate | VStart | VState | VKill | VDelete

fun lifecycle :: "verb \<Rightarrow> container_status option \<Rightarrow> container_status option \<Rightarrow> bool" where
  "lifecycle VCreate a b \<longleftrightarrow> b = a \<or> b = Some Created"
| "lifecycle VStart a b \<longleftrightarrow> b = a \<or> a = Some Created \<and> b = Some Running"
| "lifecycle VState a b \<longleftrightarrow> b = a"
| "lifecycle VKill a b \<longleftrightarrow> b = a \<or> a \<noteq> None \<and> b = Some Stopped"
| "lifecycle VDelete a b \<longleftrightarrow> b = a \<or> b = None"

text \<open>What a verb that reports success has done.\<close>

fun accomplished :: "verb \<Rightarrow> container_status option \<Rightarrow> container_status option \<Rightarrow> bool" where
  "accomplished VCreate a b \<longleftrightarrow> b = Some Created"
| "accomplished VStart a b \<longleftrightarrow> a = Some Created \<and> b = Some Running"
| "accomplished VState a b \<longleftrightarrow> a \<noteq> None"
| "accomplished VKill a b \<longleftrightarrow> a \<noteq> None"
| "accomplished VDelete a b \<longleftrightarrow> True"

text \<open>Statuses in the order a container passes through them: start and kill never take one back.\<close>

fun status_rank :: "container_status \<Rightarrow> nat" where
  "status_rank Creating = 0"
| "status_rank Created = 1"
| "status_rank Running = 2"
| "status_rank Stopped = 3"

lemma status_rank_inj: "status_rank a = status_rank b \<Longrightarrow> a = b"
  by (cases a; cases b) simp_all

instantiation container_status :: linorder
begin

definition less_eq_container_status :: "container_status \<Rightarrow> container_status \<Rightarrow> bool" where
  "a \<le> b \<longleftrightarrow> status_rank a \<le> status_rank b"

definition less_container_status :: "container_status \<Rightarrow> container_status \<Rightarrow> bool" where
  "a < b \<longleftrightarrow> status_rank a < status_rank b"

instance
  by standard (auto simp: less_eq_container_status_def less_container_status_def status_rank_inj)

end

lemma lifecycle_advances:
  "v \<in> {VStart, VKill} \<Longrightarrow> lifecycle v (Some a) b \<Longrightarrow> \<exists>b'. b = Some b' \<and> a \<le> b'"
  by (cases a) (auto simp: less_eq_container_status_def)

text \<open>A verb at work.  The pid file lies outside the state root.\<close>

inductive verb_run ::
    "'w os \<Rightarrow> json \<Rightarrow> string \<Rightarrow> verb \<Rightarrow> string \<Rightarrow> 'w \<Rightarrow> verb_error + unit \<Rightarrow> 'w \<Rightarrow> bool"
  for S :: "'w os" and J :: json and root :: string where
  run_create: "create S J root cid bundle pid_file w = (r, w') \<Longrightarrow>
    (\<forall>p. pid_file = Some p \<longrightarrow> \<not> prefix (path_components root) (path_components p)) \<Longrightarrow>
    verb_run S J root VCreate cid w r w'"
| run_start: "start S J root cid w = (r, w') \<Longrightarrow> verb_run S J root VStart cid w r w'"
| run_state: "state_verb S J root cid w = (r, w') \<Longrightarrow> verb_run S J root VState cid w r w'"
| run_kill: "kill S J root cid sig w = (r, w') \<Longrightarrow> verb_run S J root VKill cid w r w'"
| run_delete: "delete S J root cid force w = Some (r, w') \<Longrightarrow> verb_run S J root VDelete cid w r w'"

inductive_cases verb_runE: "verb_run S J root v cid w r w'"

text \<open>What a recorded state looks like.\<close>

definition well_formed :: "string \<Rightarrow> container_state \<Rightarrow> bool" where
  "well_formed cid st \<longleftrightarrow> cs_id st = cid \<and> cs_status st \<noteq> Creating \<and> cs_pid st \<noteq> None \<and>
     (\<exists>a. cs_annotations st = Some a \<and> STATE_TARGET \<in> dom a \<and> STATE_FIRMWARE_PATH \<in> dom a)"

definition well_formed_store :: "(string \<Rightarrow> container_state option) \<Rightarrow> bool" where
  "well_formed_store A \<longleftrightarrow> (\<forall>cid st. A cid = Some st \<longrightarrow> well_formed cid st)"

lemma created_well_formed: "well_formed cid (created_state cid bundle pid target firmware)"
  by (simp add: well_formed_def created_state_def set_annotation_def new_state_def STATE_TARGET_def
      STATE_FIRMWARE_PATH_def)

lemma status_well_formed: "well_formed cid st \<Longrightarrow> s \<noteq> Creating \<Longrightarrow> well_formed cid (st\<lparr>cs_status := s\<rparr>)"
  by (simp add: well_formed_def)

text \<open>The specification: a store of well-formed states in which a verb moves the status of its own
  container only.\<close>

definition statuses :: "(string \<Rightarrow> container_state option) \<Rightarrow> string \<Rightarrow> container_status option" where
  "statuses A cid = map_option cs_status (A cid)"

definition abstract_step ::
    "verb \<Rightarrow> string \<Rightarrow> verb_error + unit \<Rightarrow> (string \<Rightarrow> container_status option)
      \<Rightarrow> (string \<Rightarrow> container_status option) \<Rightarrow> bool" where
  "abstract_step v cid r A A' \<longleftrightarrow> (\<forall>other. other \<noteq> cid \<longrightarrow> A' other = A other) \<and>
     lifecycle v (A cid) (A' cid) \<and> (r = Inr () \<longrightarrow> accomplished v (A cid) (A' cid))"

text \<open>The same at the level of the store: unchanged, or one entry written or removed.\<close>

definition store_step ::
    "verb \<Rightarrow> string \<Rightarrow> verb_error + unit \<Rightarrow> (string \<Rightarrow> container_state option)
      \<Rightarrow> (string \<Rightarrow> container_state option) \<Rightarrow> bool" where
  "store_step v cid r A A' \<longleftrightarrow>
     (\<exists>b. A' = A(cid := b) \<and> (\<forall>st. b = Some st \<longrightarrow> well_formed cid st) \<and>
       lifecycle v (statuses A cid) (map_option cs_status b) \<and>
       (r = Inr () \<longrightarrow> accomplished v (statuses A cid) (map_option cs_status b)))"

lemma store_step_refines: "store_step v cid r A A' \<Longrightarrow> abstract_step v cid r (statuses A) (statuses A')"
  by (auto simp: store_step_def abstract_step_def statuses_def)

lemma store_step_well_formed: "store_step v cid r A A' \<Longrightarrow> well_formed_store A \<Longrightarrow> well_formed_store A'"
  by (auto simp: store_step_def well_formed_store_def split: if_splits)

lemma lifecycle_stays: "lifecycle v a a"
  by (cases v) simp_all

lemma store_step_same:
  assumes "well_formed_store A" and "r = Inr () \<longrightarrow> accomplished v (statuses A cid) (statuses A cid)"
  shows "store_step v cid r A A"
  using assms by (auto simp: store_step_def statuses_def well_formed_store_def lifecycle_stays intro!: exI [of _ "A cid"])

locale container_host = file_system +
  assumes kill_frame: "content (snd (os_kill S pid sig w)) = content w"
    and spawn_frame: "content (snd (os_spawn S command w)) = content w"
    and env_frame: "content (snd (os_env S name w)) = content w"
    and print_frame: "content (snd (os_print S b w)) = content w"
    and time_frame: "content (snd (os_now S w)) = content w" "content (snd (os_sleep S ms w)) = content w"
    and flock_frame: "content (snd (os_flock S fd w)) = content w" "content (snd (os_close S fd w)) = content w"
      "content (snd (os_get_fd_flags S fd w)) = content w" "content (snd (os_set_fd_flags S fd flags w)) = content w"
    and lock_file_frame: "q \<noteq> path_components p \<Longrightarrow> content (snd (os_open_lock S p w)) q = content w q"
    and remove_dir_removes: "content (snd (os_remove_dir_all S p w)) q \<in> {content w q, None}"
begin

abbreviation same :: "json \<Rightarrow> string \<Rightarrow> 'a \<Rightarrow> 'a \<Rightarrow> bool" where
  "same J root w w' \<equiv> stored J content root w' = stored J content root w"

lemma same_order: "reflp (same J root)" "transp (same J root)"
  by (auto intro: reflpI transpI)

lemma same_content: "content w' = content w \<Longrightarrow> same J root w w'"
  by (rule store_eq) simp

lemmas frames = kill_frame spawn_frame env_frame time_frame flock_frame make_dirs exists_frame read_frame

lemma plain_lock_name: "CHR ''/'' \<notin> set (lock_name target)"
  using sanitise_characters [of target] id_character_plain by (auto simp: lock_name_def list_all_iff)

lemma lock_file_same: "same J root w (snd (os_open_lock S (path_join root (lock_name target)) w))"
proof (rule store_eq)
  fix cid :: string
  have "path_components (path_join root (lock_name target)) = path_components root @ [lock_name target]"
    using plain_lock_name [of target]
    by (simp add: path_components_join plain_relative plain_component) (simp add: lock_name_def plain_component)
  then show "content (snd (os_open_lock S (path_join root (lock_name target)) w))
      (path_components root @ [cid, ''state.json'']) = content w (path_components root @ [cid, ''state.json''])"
    by (intro lock_file_frame) simp
qed

lemma keeps_same:
  "reading_keeps S (same J root)" "locking_keeps S root (lock_name target) (same J root)"
  "waiting_keeps S pid (same J root)"
  by (auto simp: reading_keeps_def locking_keeps_def waiting_keeps_def same_order frames lock_file_same
      intro: same_content)

lemma call_same:
  "signal_proxy S pid sig w = (r1, w') \<Longrightarrow> same J root w w'"
  "is_alive S pid w = (r2, w') \<Longrightarrow> same J root w w'"
  "acquire S root target w = (r3, w') \<Longrightarrow> same J root w w'"
  "read_request S J bundle w = (r4, w') \<Longrightarrow> same J root w w'"
  "spawn S root cid target firmware skip log_target fd w = (r5, w') \<Longrightarrow> same J root w w'"
  "await_exit S pid timeout w = Some (b, w') \<Longrightarrow> same J root w w'"
proof -
  have "keeping (same J root) (spawn S root cid target firmware skip log_target fd)"
    unfolding spawn_def by (intro keeps_intros same_order same_content frames)
  then show "spawn S root cid target firmware skip log_target fd w = (r5, w') \<Longrightarrow> same J root w w'"
    by (rule keepingD)
  have "keeping (same J root) (signal_proxy S pid sig)"
    unfolding signal_proxy_def by (intro keeps_intros same_order same_content frames)
  then show "signal_proxy S pid sig w = (r1, w') \<Longrightarrow> same J root w w'" by (rule keepingD)
  show "is_alive S pid w = (r2, w') \<Longrightarrow> same J root w w'"
    by (rule keepingD [OF is_alive_keeps]) (auto intro: same_order same_content frames)
  show "acquire S root target w = (r3, w') \<Longrightarrow> same J root w w'"
    by (rule keepingD [OF acquire_keeps [OF keeps_same(2)]])
  show "read_request S J bundle w = (r4, w') \<Longrightarrow> same J root w w'"
    by (rule keepingD [OF read_request_keeps [OF keeps_same(1)]])
  show "await_exit S pid timeout w = Some (b, w') \<Longrightarrow> same J root w w'"
    by (rule await_exit_keeps [OF _ keeps_same(3)])
qed

lemma write_status:
  assumes "state_write S J root st w = (r, w')" and "reads_back J" and "well_formed cid st"
  shows "(case r of Inl _ \<Rightarrow> same J root w w'
    | Inr _ \<Rightarrow> stored J content root w' = (stored J content root w)(cid \<mapsto> st))"
proof (cases r)
  case (Inl e)
  with write_effect [OF assms(1)] show ?thesis by simp
next
  case (Inr u)
  with write_effect [OF assms(1)] obtain b where b: "js_state_out J st = Inr b"
      "stored J content root w' = (stored J content root w)
        (cs_id st := case js_state_in J b of Inl _ \<Rightarrow> None | Inr st \<Rightarrow> Some st)"
    by auto
  moreover from b(1) assms(2) have "js_state_in J b = Inr st" by (simp add: reads_back_def)
  ultimately show ?thesis using assms(3) Inr by (simp add: well_formed_def)
qed

lemma record_effect:
  assumes run: "record_created S J root cid bundle pid_file target firmware pid w = (r, w')" and J: "reads_back J"
    and pid_file: "\<forall>p. pid_file = Some p \<longrightarrow> \<not> prefix (path_components root) (path_components p)"
  shows "same J root w w' \<and> r \<noteq> Inr () \<or>
    stored J content root w' = (stored J content root w)(cid \<mapsto> created_state cid bundle pid target firmware)"
proof -
  obtain q w1 where wr: "state_write S J root (created_state cid bundle pid target firmware) w = (q, w1)" by fastforce
  note eff = write_status [OF wr J created_well_formed]
  show ?thesis
  proof (cases q)
    case (Inl e)
    with run wr eff show ?thesis by (auto simp: record_created_def io_run)
  next
    case (Inr u)
    have "same J root w1 w'"
    proof (cases pid_file)
      case None
      with run wr Inr show ?thesis by (simp add: record_created_def io_run)
    next
      case (Some p)
      then have "path_components root @ [other, ''state.json''] \<noteq> path_components p" for other
        using pid_file by (metis prefixI)
      then have "same J root w1 w2" if "os_write_file S p b w1 = (x, w2)" for b x w2
        using write_frame [OF that] by (intro store_eq) blast
      moreover from run wr Inr Some obtain x where
        "os_write_file S p (ascii_bytes (int_string pid)) w1 = (x, w')"
        by (auto simp: record_created_def io_run split: prod.splits sum.splits)
      ultimately show ?thesis by blast
    qed
    with eff Inr show ?thesis by simp
  qed
qed

lemma guarded_effect:
  "guarded S pid m w = (r, w') \<Longrightarrow> \<exists>w1. m w = (r, w1) \<and> same J root w1 w'"
  using call_same(1) [of pid SIGKILL]
  by (auto simp: guarded_def split: prod.splits sum.splits) (metis prod.collapse)

lemma create_step:
  assumes run: "create S J root cid bundle pid_file w = (r, w')" and J: "reads_back J"
    and wf: "well_formed_store (stored J content root w)"
    and pid_file: "\<forall>p. pid_file = Some p \<longrightarrow> \<not> prefix (path_components root) (path_components p)"
  shows "store_step VCreate cid r (stored J content root w) (stored J content root w')"
  using run keeps_same(1) [of J root] keeps_same(2) [of root _ J]
proof (cases rule: create_run)
  case refused
  then show ?thesis using store_step_same [OF wf] by simp
next
  case (unspawned target firmware skip log_target fd w1 e)
  then show ?thesis using store_step_same [OF wf] call_same(5) by metis
next
  case (spawned target firmware skip log_target fd w1 pid w2)
  then obtain w3 where rec: "record_created S J root cid bundle pid_file target firmware pid w2 = (r, w3)"
    and w3: "same J root w3 w'" using guarded_effect by blast
  have w2: "same J root w w2" using spawned(1) call_same(5) [OF spawned(2)] by metis
  let ?st = "created_state cid bundle pid target firmware"
  have "cs_status ?st = Created" by (simp add: created_state_def set_annotation_def)
  then have "store_step VCreate cid r A (A(cid \<mapsto> ?st))" for A
    using created_well_formed [of cid] by (auto simp: store_step_def intro!: exI [of _ "Some ?st"])
  then show ?thesis
    using record_effect [OF rec J pid_file] w2 w3 store_step_same [OF wf, of r VCreate cid] by (elim disjE) simp_all
qed

lemma read_well_formed:
  assumes "state_read S J root cid w = (Inr st, w1)" and "well_formed_store (stored J content root w)"
  shows "well_formed cid st" "stored J content root w cid = Some st" "same J root w w1"
  using read_effect [OF assms(1)] assms(2) by (auto simp: well_formed_store_def)

lemma update_step:
  assumes wr: "state_write S J root (st\<lparr>cs_status := s\<rparr>) w1 = (r, w')" and J: "reads_back J"
    and st: "well_formed cid st" "stored J content root w cid = Some st" "s \<noteq> Creating" and w1: "same J root w w1"
    and wf: "well_formed_store (stored J content root w)"
    and moves: "lifecycle v (Some (cs_status st)) (Some s)" "accomplished v (Some (cs_status st)) (Some s)"
  shows "store_step v cid r (stored J content root w) (stored J content root w')"
  using write_status [OF wr J status_well_formed [OF st(1,3)]] w1 store_step_same [OF wf, of r v cid] moves
    status_well_formed [OF st(1,3)]
  by (cases r) (auto simp: store_step_def statuses_def st(2) intro!: exI [of _ "Some (st\<lparr>cs_status := s\<rparr>)"])

lemma start_step:
  assumes run: "start S J root cid w = (r, w')" and J: "reads_back J"
    and wf: "well_formed_store (stored J content root w)"
  shows "store_step VStart cid r (stored J content root w) (stored J content root w')"
proof -
  obtain q w1 where rd: "state_read S J root cid w = (q, w1)" by fastforce
  have w1: "same J root w w1" using read_effect [OF rd] by simp
  note stay = store_step_same [OF wf, of r VStart cid]
  show ?thesis
  proof (cases q)
    case (Inl e)
    then show ?thesis using run rd w1 stay by (auto simp: start_def io_run)
  next
    case (Inr st)
    note st = read_well_formed [OF rd [unfolded Inr] wf]
    obtain pid where pid: "cs_pid st = Some pid" using st(1) by (auto simp: well_formed_def)
    obtain q2 w2 where sg: "signal_proxy S pid SIGUSR1 w1 = (q2, w2)" by fastforce
    have w2: "same J root w w2" using w1 call_same(1) [OF sg] by metis
    consider "cs_status st \<noteq> Created" "r \<noteq> Inr ()" "w' = w1" | "r \<noteq> Inr ()" "w' = w2"
      | "cs_status st = Created" "state_write S J root (st\<lparr>cs_status := Running\<rparr>) w2 = (r, w')"
      using run rd Inr pid sg by (cases q2) (auto simp: start_def io_run split: if_splits)
    then show ?thesis
    proof cases
      case 3
      then show ?thesis by (intro update_step [OF 3(2) J st(1,2) _ w2 wf]) simp_all
    qed (use w1 w2 stay in simp_all)
  qed
qed

lemma state_step:
  assumes run: "state_verb S J root cid w = (r, w')" and wf: "well_formed_store (stored J content root w)"
  shows "store_step VState cid r (stored J content root w) (stored J content root w')"
proof -
  have "keeping (same J root) (state_verb S J root cid)"
    by (rule state_verb_keeps [OF keeps_same(1)]) (auto intro!: same_content frames print_frame)
  then have "same J root w w'" using run by (rule keepingD)
  moreover have "statuses (stored J content root w) cid \<noteq> None" if ok: "r = Inr ()"
  proof -
    obtain st w1 where "state_read S J root cid w = (Inr st, w1)"
      using run ok by (auto simp: state_verb_def io_outcomes)
    then show ?thesis using read_effect by (fastforce simp: statuses_def)
  qed
  ultimately show ?thesis using store_step_same [OF wf, of r VState cid] by simp
qed

lemma kill_step:
  assumes run: "kill S J root cid sig_name w = (r, w')" and J: "reads_back J"
    and wf: "well_formed_store (stored J content root w)"
  shows "store_step VKill cid r (stored J content root w) (stored J content root w')"
proof -
  obtain q w1 where rd: "state_read S J root cid w = (q, w1)" by fastforce
  have w1: "same J root w w1" using read_effect [OF rd] by simp
  note stay = store_step_same [OF wf, of r VKill cid]
  show ?thesis
  proof (cases q)
    case (Inl e)
    then show ?thesis using run rd w1 stay by (auto simp: kill_def io_run)
  next
    case (Inr st)
    note st = read_well_formed [OF rd [unfolded Inr] wf]
    obtain pid where pid: "cs_pid st = Some pid" using st(1) by (auto simp: well_formed_def)
    obtain alive w2 where al: "is_alive S pid w1 = (alive, w2)" by fastforce
    have w2: "same J root w w2" using w1 call_same(2) [OF al] by metis
    have w3: "same J root w w3" if "signal_proxy S pid sig w2 = (q3, w3)" for sig q3 w3
      using w2 call_same(1) [OF that] by metis
    consider "r \<noteq> Inr ()" "same J root w w'" | "r = Inr ()" "same J root w w'"
      | w3 where "same J root w w3" "state_write S J root (st\<lparr>cs_status := Stopped\<rparr>) w3 = (r, w')"
      using run rd Inr pid al w1 w2
      by (auto simp: kill_def io_run dest!: w3 split: if_splits sum.splits prod.splits)
    then show ?thesis
    proof cases
      case 2
      then show ?thesis using stay by (simp add: statuses_def st(2))
    next
      case 3
      then show ?thesis by (intro update_step [OF 3(2) J st(1,2) _ 3(1) wf]) simp_all
    qed (use stay in simp)
  qed
qed

lemma remove_entry:
  assumes run: "state_remove S root cid w = (r, w')"
  shows "\<exists>b \<in> {stored J content root w cid, None}. stored J content root w' = (stored J content root w)(cid := b)"
proof -
  have "content w' q \<in> {content w q, None}" for q
  proof -
    obtain there w1 where ex: "os_exists S (state_dir root cid) w = (there, w1)" by fastforce
    then have "content w1 = content w" using exists_frame [of "state_dir root cid" w] by simp
    moreover have "content w2 q \<in> {content w1 q, None}" if "os_remove_dir_all S (state_dir root cid) w1 = (x, w2)" for x w2
      using remove_dir_removes [of "state_dir root cid" w1 q] that by simp
    moreover have "w' = w \<or> w' = w1 \<or> (\<exists>x. os_remove_dir_all S (state_dir root cid) w1 = (x, w'))"
      using run ex by (cases r) (auto simp: state_remove_def io_outcomes)
    ultimately show ?thesis by auto
  qed
  then have "stored J content root w' cid \<in> {stored J content root w cid, None}"
    by (auto simp: stored_def split: option.splits) (metis insertE option.distinct(1) option.inject singletonD)+
  then show ?thesis
    using remove_effect [OF run, of J] by (intro bexI [of _ "stored J content root w' cid"]) (auto simp: fun_eq_iff)
qed

lemma delete_entry:
  assumes run: "delete S J root cid force w = Some (r, w')"
  shows "\<exists>b \<in> {stored J content root w cid, None}. stored J content root w' = (stored J content root w)(cid := b)"
proof -
  let ?goal = "\<lambda>w'. \<exists>b \<in> {stored J content root w cid, None}. stored J content root w' = (stored J content root w)(cid := b)"
  obtain q w1 where rd: "state_read S J root cid w = (q, w1)" by fastforce
  have w1: "same J root w w1" using read_effect [OF rd] by simp
  have kept: "?goal w3" if "same J root w w3" for w3
    by (rule bexI [of _ "stored J content root w cid"]) (use that in simp_all)
  have removed: "?goal w'" if "state_remove S root cid w3 = (r, w')" "same J root w w3" for w3
    using remove_entry [OF that(1), of J] that(2) by metis
  show ?thesis
  proof (cases q)
    case (Inl e)
    then show ?thesis using run rd kept [OF w1] by (auto simp: delete_def)
  next
    case (Inr st)
    obtain a w2 where al: "(case cs_pid st of None \<Rightarrow> io_ok False | Some p \<Rightarrow> is_alive S p) w1 = (a, w2)" by fastforce
    have w2: "same J root w w2"
      using al w1 call_same(2) [of _ w1 a w2 J root] by (cases "cs_pid st") auto
    have w3: "same J root w w3" if "signal_proxy S p SIGKILL w2 = (x, w3)" for p x w3
      using w2 call_same(1) [OF that] by metis
    consider "w' = w2" | "state_remove S root cid w2 = (r, w')"
      | p b w4 where "await_exit S p 5000 (snd (signal_proxy S p SIGKILL w2)) = Some (b, w4)"
        "state_remove S root cid w4 = (r, w')"
      using run rd Inr al by (auto simp: delete_def remove_container_def Let_def split: if_splits option.splits)
    then show ?thesis
    proof cases
      case (3 p b w4)
      then show ?thesis using removed w3 call_same(6) by (metis surjective_pairing)
    qed (use w2 kept removed in auto)
  qed
qed

lemma delete_step:
  assumes run: "delete S J root cid force w = Some (r, w')" and wf: "well_formed_store (stored J content root w)"
  shows "store_step VDelete cid r (stored J content root w) (stored J content root w')"
proof -
  from delete_entry [OF run] obtain b where
    b: "b \<in> {stored J content root w cid, None}" "stored J content root w' = (stored J content root w)(cid := b)"
    by blast
  then have "lifecycle VDelete (statuses (stored J content root w) cid) (map_option cs_status b)"
    by (auto simp: statuses_def)
  with b wf show ?thesis by (auto simp: store_step_def well_formed_store_def)
qed

lemma verb_step:
  assumes "verb_run S J root v cid w r w'" and "reads_back J" and "well_formed_store (stored J content root w)"
  shows "store_step v cid r (stored J content root w) (stored J content root w')"
  using assms(1)
proof cases
  case (run_create b p)
  then show ?thesis using create_step assms(2,3) by blast
next
  case run_start
  then show ?thesis using start_step assms(2,3) by blast
next
  case run_state
  then show ?thesis using state_step assms(3) by blast
next
  case (run_kill sig)
  then show ?thesis using kill_step assms(2,3) by blast
next
  case (run_delete force)
  then show ?thesis using delete_step assms(3) by blast
qed

end

subsection \<open>Properties\<close>

text \<open>C7: the verbs refine the abstract life cycle.  On every file system with the usual laws, whichever calls
  fail and wherever, a verb changes the recorded status of its own container only, and only along
  the life cycle: nothing or created by \<open>create\<close>, from created to running by \<open>start\<close>, to stopped by \<open>kill\<close>,
  gone by \<open>delete\<close>; a verb that reports success has made that move.\<close>
theorem verbs_refine_lifecycle:
  assumes "container_host S content" and "reads_back J" and "well_formed_store (stored J content root w)"
    and "verb_run S J root v cid w r w'"
  shows "abstract_step v cid r (statuses (stored J content root w)) (statuses (stored J content root w'))"
  by (rule store_step_refines [OF container_host.verb_step [OF assms(1,4,2,3)]])

text \<open>C17: every recorded state stays well formed: it lies under its own id, has a pid, a status other than
  creating and both annotations, before and after every verb, completed or failed.\<close>
theorem verbs_keep_states_well_formed:
  assumes "container_host S content" and "reads_back J" and "well_formed_store (stored J content root w)"
    and "verb_run S J root v cid w r w'"
  shows "well_formed_store (stored J content root w')"
  by (rule store_step_well_formed [OF container_host.verb_step [OF assms(1,4,2,3)] assms(3)])

end
