(* ===== verification/Processes.thy ===== *)
theory Processes
  imports Lifecycle
begin

text \<open>
  What the verbs do to processes and how long they take: the locale \<open>process_host\<close> keeps a log of the
  processes spawned and the signals sent, the locale \<open>ticking\<close> a clock.
\<close>

datatype process_event = Spawned int | Signalled int int

definition writing_keeps :: "'w os \<Rightarrow> ('w \<Rightarrow> 'w \<Rightarrow> bool) \<Rightarrow> bool" where
  "writing_keeps S R \<longleftrightarrow> (\<forall>p w. R w (snd (os_create_dir_all S p w))) \<and> (\<forall>p b w. R w (snd (os_write_file S p b w))) \<and>
     (\<forall>p q w. R w (snd (os_rename S p q w))) \<and> (\<forall>p w. R w (snd (os_remove_file S p w))) \<and>
     (\<forall>p w. R w (snd (os_remove_dir_all S p w)))"

lemma state_write_keeps:
  assumes "reading_keeps S R" and "writing_keeps S R"
  shows "keeping R (state_write S J root st)"
  unfolding state_write_def
  using assms by (intro keeps_intros) (auto simp: reading_keeps_def writing_keeps_def)

lemma record_created_keeps:
  assumes "reading_keeps S R" and "writing_keeps S R"
  shows "keeping R (record_created S J root cid bundle pid_file target firmware pid)"
  unfolding record_created_def
  by (intro keeps_intros state_write_keeps [OF assms]) (use assms in \<open>auto simp: reading_keeps_def writing_keeps_def\<close>)

lemma state_remove_keeps:
  assumes "reading_keeps S R" and "writing_keeps S R"
  shows "keeping R (state_remove S root cid)"
  unfolding state_remove_def
  using assms by (intro keeps_intros) (auto simp: reading_keeps_def writing_keeps_def)

locale process_host =
  fixes S :: "'w os" and events :: "'w \<Rightarrow> process_event list" and alive :: "'w \<Rightarrow> int \<Rightarrow> bool"
  assumes spawned: "os_spawn S command w = (Inr pid, w') \<Longrightarrow> events w' = events w @ [Spawned pid]"
    and not_spawned: "os_spawn S command w = (Inl e, w') \<Longrightarrow> events w' = events w"
    and signalled: "os_kill S pid sig w = (x, w') \<Longrightarrow> events w' = events w @ [Signalled pid sig]"
    and probed: "os_kill S pid 0 w = (x, w') \<Longrightarrow> is_ok x \<longleftrightarrow> alive w pid"
    and reading: "reading_keeps S (\<lambda>w w'. events w' = events w)"
    and writing: "writing_keeps S (\<lambda>w w'. events w' = events w)"
    and locking: "locking_keeps S root name (\<lambda>w w'. events w' = events w)"
    and env: "events (snd (os_env S variable w)) = events w"
    and print: "events (snd (os_print S b w)) = events w" "events (snd (os_eprint S b w)) = events w"
    and time: "events (snd (os_now S w)) = events w" "events (snd (os_sleep S ms w)) = events w"
begin

abbreviation silent :: "'w \<Rightarrow> 'w \<Rightarrow> bool" where
  "silent w w' \<equiv> events w' = events w"

lemma silent_calls:
  "state_read S J root cid w = (r1, w') \<Longrightarrow> silent w w'"
  "state_write S J root st w = (r2, w') \<Longrightarrow> silent w w'"
  "state_remove S root cid w = (r3, w') \<Longrightarrow> silent w w'"
  "record_created S J root cid bundle pid_file target firmware pid w = (r4, w') \<Longrightarrow> silent w w'"
  by (rule keepingD [OF state_read_keeps [OF reading]] keepingD [OF state_write_keeps [OF reading writing]]
      keepingD [OF state_remove_keeps [OF reading writing]] keepingD [OF record_created_keeps [OF reading writing]],
    assumption)+

lemma signal_event: "signal_proxy S pid sig w = (r, w') \<Longrightarrow> events w' = events w @ [Signalled pid sig]"
  by (cases r) (auto simp: signal_proxy_def io_outcomes dest: signalled)

lemma probe_event:
  assumes "is_alive S pid w = (r, w')"
  shows "r = Inr (0 < pid \<and> alive w pid) \<and> events w' = events w @ (if 0 < pid then [Signalled pid 0] else [])"
  using assms probed signalled by (cases r) (auto simp: is_alive_def io_outcomes split: if_splits)

text \<open>The proxy is spawned with the environment read first.\<close>

lemma spawn_event:
  assumes "spawn S root cid target firmware skip log_target fd w = (r, w')"
  shows "events w' = events w @ (case r of Inl _ \<Rightarrow> [] | Inr pid \<Rightarrow> [Spawned pid])"
proof -
  obtain a w1 where a: "os_env S ''RUNTT_TRACE'' w = (a, w1)" by fastforce
  obtain b w2 where b: "os_env S ''RUST_LOG'' w1 = (b, w2)" by fastforce
  have "events w2 = events w" using env [of "''RUNTT_TRACE''" w] env [of "''RUST_LOG''" w1] a b by simp
  with assms a b show ?thesis
    by (cases r) (auto simp: spawn_def io_outcomes dest: spawned not_spawned)
qed

lemma create_events:
  assumes "create S J root cid bundle pid_file w = (r, w')"
  shows "case r of
      Inl _ \<Rightarrow> events w' = events w \<or> (\<exists>pid. events w' = events w @ [Spawned pid, Signalled pid SIGKILL])
    | Inr _ \<Rightarrow> \<exists>pid. events w' = events w @ [Spawned pid]"
  using assms reading locking
proof (cases rule: create_run)
  case refused
  then show ?thesis by (cases r) auto
next
  case (unspawned target firmware skip log_target fd w1 e)
  then show ?thesis using spawn_event [OF unspawned(2)] by (cases r) auto
next
  case (spawned target firmware skip log_target fd w1 pid w2)
  obtain q w3 where rec: "record_created S J root cid bundle pid_file target firmware pid w2 = (q, w3)" by fastforce
  have ev: "events w3 = events w @ [Spawned pid]"
    using spawn_event [OF spawned(2)] spawned(1) silent_calls(4) [OF rec] by simp
  obtain x w4 where sg: "signal_proxy S pid SIGKILL w3 = (x, w4)" by fastforce
  show ?thesis
    using spawned(3) rec ev sg signal_event [OF sg] by (cases q) (auto simp: guarded_def)
qed

lemma await_probes:
  assumes "await_exit S pid timeout w = Some (b, w')"
  shows "\<exists>probes. events w' = events w @ probes \<and> set probes \<subseteq> {Signalled pid 0}"
proof -
  have "transp (\<lambda>w w'. \<exists>probes. events w' = events w @ probes \<and> set probes \<subseteq> {Signalled pid 0})"
    by (rule transpI) fastforce
  moreover have "\<exists>probes. events (snd (os_kill S pid 0 w)) = events w @ probes \<and> set probes \<subseteq> {Signalled pid 0}" for w
    using signalled [of pid 0 w] by (cases "os_kill S pid 0 w") fastforce
  ultimately have "waiting_keeps S pid (\<lambda>w w'. \<exists>probes. events w' = events w @ probes \<and> set probes \<subseteq> {Signalled pid 0})"
    by (simp add: waiting_keeps_def reflp_def time)
  from await_exit_keeps [OF assms this] show ?thesis .
qed

lemma delete_run:
  assumes run: "delete S J root cid force w = Some (r, w')" and rd: "state_read S J root cid w = (Inr st, w1)"
    and pid: "cs_pid st = Some p"
  shows "if 0 < p \<and> alive w1 p
    then if cs_status st = Running \<and> \<not> force
      then r = Inl StillRunning \<and> events w' = events w @ [Signalled p 0]
      else \<exists>w3 b w4. events w3 = events w @ [Signalled p 0, Signalled p SIGKILL] \<and>
        await_exit S p 5000 w3 = Some (b, w4) \<and> state_remove S root cid w4 = (r, w')
    else \<exists>w3. events w3 = events w @ (if 0 < p then [Signalled p 0] else []) \<and> state_remove S root cid w3 = (r, w')"
proof -
  obtain a w2 where al: "is_alive S p w1 = (a, w2)" by fastforce
  note probe = probe_event [OF al] silent_calls(1) [OF rd]
  obtain x w3 where sg: "signal_proxy S p SIGKILL w2 = (x, w3)" by fastforce
  have ev: "events w3 = events w2 @ [Signalled p SIGKILL]" by (rule signal_event [OF sg])
  show ?thesis
  proof (cases "0 < p \<and> alive w1 p")
    case True
    show ?thesis
    proof (cases "cs_status st = Running \<and> \<not> force")
      case False
      with True run rd pid al probe sg obtain b w4 where
        "await_exit S p 5000 w3 = Some (b, w4)" "state_remove S root cid w4 = (r, w')"
        by (auto simp: delete_def remove_container_def Let_def split: if_splits)
      moreover have "events w3 = events w @ [Signalled p 0, Signalled p SIGKILL]" using ev probe True by simp
      ultimately show ?thesis using True False by auto
    qed (use True run rd pid al probe in \<open>auto simp: delete_def Let_def\<close>)
  next
    case False
    with run rd pid al probe have "state_remove S root cid w2 = (r, w')"
      by (auto simp: delete_def remove_container_def Let_def split: if_splits)
    with False probe show ?thesis by auto
  qed
qed

lemma kill_run:
  assumes run: "kill S J root cid sig_name w = (r, w')" and rd: "state_read S J root cid w = (Inr st, w1)"
    and pid: "cs_pid st = Some p" and sig: "parse_signal sig_name = Inr sig"
  shows "events w' = events w @ (if 0 < p then Signalled p 0 # (if alive w1 p then [Signalled p sig] else []) else [])"
proof -
  obtain a w2 where al: "is_alive S p w1 = (a, w2)" by fastforce
  note probe = probe_event [OF al] silent_calls(1) [OF rd]
  obtain x w3 where sg: "signal_proxy S p sig w2 = (x, w3)" by fastforce
  note ev = signal_event [OF sg]
  show ?thesis
    using run rd pid sig al sg probe ev
    by (cases r; cases x) (auto simp: kill_def io_outcomes dest!: silent_calls(2) split: if_splits)
qed

end

subsection \<open>The clock\<close>

locale ticking =
  fixes S :: "'w os" and clock :: "'w \<Rightarrow> nat"
  assumes now: "os_now S w = (t, w') \<Longrightarrow> clock w \<le> t \<and> t \<le> clock w'"
    and sleeps: "clock w + ms \<le> clock (snd (os_sleep S ms w))"
    and kill_forward: "clock w \<le> clock (snd (os_kill S pid sig w))"
begin

lemma alive_forward: "is_alive S pid w = (r, w') \<Longrightarrow> clock w \<le> clock w'"
  by (rule keepingD [of "\<lambda>w w'. clock w \<le> clock w'", OF is_alive_keeps])
    (auto intro: kill_forward reflpI transpI)

lemma await_loop_ends: "\<exists>b w'. await_loop S pid deadline w = Some (b, w')"
proof (induction "deadline - clock w" arbitrary: w rule: less_induct)
  case less
  obtain t w1 where t: "os_now S w = (t, w1)" by fastforce
  obtain a w2 where a: "is_alive S pid w1 = (a, w2)" by fastforce
  have "deadline - clock (snd (os_sleep S 20 w2)) < deadline - clock w" if "t < deadline"
    using that now [OF t] alive_forward [OF a] sleeps [of w2 20] by linarith
  from less.hyps [OF this] t a show ?case
    by (subst await_loop.simps) (auto split: if_splits)
qed

lemma await_exit_ends: "\<exists>b w'. await_exit S pid timeout w = Some (b, w')"
  using await_loop_ends by (auto simp: await_exit_def split: prod.splits)

lemma delete_ends: "\<exists>r w'. delete S J root cid force w = Some (r, w')"
proof -
  have "\<exists>r w'. remove_container S root cid pid up w1 = Some (r, w')" for pid up w1
    using await_exit_ends
    by (auto simp: remove_container_def split: option.splits) (metis option.distinct(1) surj_pair)+
  then show ?thesis by (auto simp: delete_def Let_def split: prod.splits sum.splits)
qed

end

lemma state_root_total: "\<exists>root w'. state_root S root_flag w = (Inr root, w')"
  by (cases root_flag; cases "os_env S ''XDG_RUNTIME_DIR'' w") (simp_all add: state_root_def io_run io_ok_def)

subsection \<open>How many steps\<close>

lemma probes_left:
  fixes a b d :: nat
  assumes "a < d" and "a + 20 \<le> b"
  shows "1 + ((d - b + 19) div 20 + 1) \<le> (d - a + 19) div 20 + 1"
proof -
  have "d - b + 19 + 20 \<le> d - a + 19 \<or> d - b = 0 \<and> 20 \<le> d - a + 19" using assms by linarith
  then have "(d - b + 19) div 20 + 1 \<le> (d - a + 19) div 20"
  proof
    assume "d - b + 19 + 20 \<le> d - a + 19"
    then have "(d - b + 19 + 20) div 20 \<le> (d - a + 19) div 20" by (rule div_le_mono)
    then show ?thesis by (simp only: div_add_self2)
  next
    assume "d - b = 0 \<and> 20 \<le> d - a + 19"
    then show ?thesis using div_le_mono [of 20 "d - a + 19" 20] by simp
  qed
  then show ?thesis by simp
qed

text \<open>The wait asks every 20 milliseconds, and once more at the end.\<close>

locale timed_host = process_host S events alive + ticking S clock
  for S :: "'w os" and events :: "'w \<Rightarrow> process_event list" and alive :: "'w \<Rightarrow> int \<Rightarrow> bool" and clock :: "'w \<Rightarrow> nat"
begin

definition within :: "nat \<Rightarrow> 'w \<Rightarrow> 'w \<Rightarrow> bool" where
  "within n w w' \<longleftrightarrow> (\<exists>evs. events w' = events w @ evs \<and> length evs \<le> n)"

lemma within_silent: "silent w w' \<Longrightarrow> within n w w'"
  by (simp add: within_def)

lemma within_trans: "within m w w1 \<Longrightarrow> within n w1 w' \<Longrightarrow> m + n \<le> k \<Longrightarrow> within k w w'"
  unfolding within_def by (elim exE conjE) (rule_tac x = "evs @ evsa" in exI, simp)

lemma within_steps:
  "is_alive S p w = (r1, w') \<Longrightarrow> within 1 w w'" "signal_proxy S p sig w = (r2, w') \<Longrightarrow> within 1 w w'"
  using probe_event [of p w r1 w'] signal_event [of p sig w r2 w'] by (auto simp: within_def)

lemma await_loop_within:
  "await_loop S pid deadline w = Some (b, w') \<Longrightarrow> within ((deadline - clock w + 19) div 20 + 1) w w'"
proof (induction "deadline - clock w" arbitrary: w rule: less_induct)
  case less
  obtain t w1 where t: "os_now S w = (t, w1)" by fastforce
  obtain a w2 where a: "is_alive S pid w1 = (a, w2)" by fastforce
  have step: "within 1 w w2"
    using within_steps(1) [OF a] time(1) [of w] t by (simp add: within_def)
  let ?w3 = "snd (os_sleep S 20 w2)"
  show ?case
  proof (cases "t < deadline \<and> a \<noteq> Inr False")
    case True
    with less.prems t a have run: "await_loop S pid deadline ?w3 = Some (b, w')" by (subst (asm) await_loop.simps) simp
    have clocks: "clock w < deadline" "clock w + 20 \<le> clock ?w3"
      using True now [OF t] alive_forward [OF a] sleeps [of w2 20] by linarith+
    then have "within ((deadline - clock ?w3 + 19) div 20 + 1) ?w3 w'" by (intro less.hyps [OF _ run]) linarith
    moreover have "within 1 w ?w3" using step time(2) [of 20 w2] by (simp add: within_def)
    moreover have "1 + ((deadline - clock ?w3 + 19) div 20 + 1) \<le> (deadline - clock w + 19) div 20 + 1"
      by (rule probes_left [OF clocks])
    ultimately show ?thesis using within_trans by blast
  next
    case False
    with less.prems t a have "w' = w2" by (subst (asm) await_loop.simps) (auto split: if_splits)
    with step show ?thesis by (auto intro: within_trans [of 1 w w2 0] simp: within_silent)
  qed
qed

lemma await_exit_within: "await_exit S pid 5000 w = Some (b, w') \<Longrightarrow> within 251 w w'"
proof -
  assume run: "await_exit S pid 5000 w = Some (b, w')"
  obtain t w1 where t: "os_now S w = (t, w1)" by fastforce
  with run have "await_loop S pid (t + 5000) w1 = Some (b, w')" by (simp add: await_exit_def)
  from await_loop_within [OF this] have "within ((t + 5000 - clock w1 + 19) div 20 + 1) w1 w'" .
  moreover have "(t + 5000 - clock w1 + 19) div 20 + 1 \<le> 251"
    using now [OF t] div_le_mono [of "t + 5000 - clock w1 + 19" 5019 20] by linarith
  moreover have "within 0 w w1" using time(1) [of w] t by (intro within_silent) simp
  ultimately show ?thesis using within_trans [of 0 w w1 _ w' 251] by simp
qed

lemma remove_container_within:
  assumes "remove_container S root cid pid up w = Some (r, w')"
  shows "within 252 w w'"
proof (cases "\<exists>p. pid = Some p \<and> up")
  case True
  then obtain p where p: "pid = Some p" "up" by blast
  obtain x w1 where sg: "signal_proxy S p SIGKILL w = (x, w1)" by fastforce
  with assms p obtain b w2 where "await_exit S p 5000 w1 = Some (b, w2)" "state_remove S root cid w2 = (r, w')"
    by (auto simp: remove_container_def)
  then have "within 251 w1 w2" "within 0 w2 w'"
    by (auto intro: await_exit_within within_silent dest: silent_calls(3))
  with within_steps(2) [OF sg] show ?thesis
    using within_trans [of 251 w1 w2 0 w' 251] within_trans [of 1 w w1 251 w' 252] by simp
next
  case False
  with assms have "state_remove S root cid w = (r, w')"
    by (auto simp: remove_container_def split: option.splits if_splits)
  then show ?thesis by (intro within_silent) (rule silent_calls(3))
qed

lemma within_quietly:
  "silent w w1 \<Longrightarrow> within n w1 w' \<Longrightarrow> within n w w'" "within n w w1 \<Longrightarrow> silent w1 w' \<Longrightarrow> within n w w'"
  "within m w w' \<Longrightarrow> m \<le> n \<Longrightarrow> within n w w'"
  by (auto simp: within_def)

lemma start_within: "start S J root cid w = (r, w') \<Longrightarrow> within 1 w w'"
proof -
  assume run: "start S J root cid w = (r, w')"
  obtain q w1 where rd: "state_read S J root cid w = (q, w1)" by fastforce
  consider "w' = w1" | p x w2 st where "signal_proxy S p SIGUSR1 w1 = (x, w2)"
      "w' = w2 \<or> state_write S J root st w2 = (r, w')"
    using run rd by (cases q) (auto simp: start_def io_run split: if_splits option.splits prod.splits sum.splits)
  then have "within 1 w1 w'"
  proof cases
    case 2
    then show ?thesis using within_steps(2) [OF 2(1)] silent_calls(2) within_quietly(2) by blast
  qed (simp add: within_silent)
  then show ?thesis by (rule within_quietly(1) [OF silent_calls(1) [OF rd]])
qed

lemma state_within: "state_verb S J root cid w = (r, w') \<Longrightarrow> within 1 w w'"
proof -
  assume run: "state_verb S J root cid w = (r, w')"
  obtain q w1 where rd: "state_read S J root cid w = (q, w1)" by fastforce
  have printed: "silent w2 w3" if "io_print (os_print S b) w2 = (r2, w3)" for b w2 r2 w3
    using that print(1) [of b w2] by (auto simp: io_print_def split: prod.splits sum.splits)
  consider "w' = w1" | p a w2 where "is_alive S p w1 = (a, w2)" "w' = w2"
    | b where "io_print (os_print S b) w1 = (r, w')"
    | p a w2 b where "is_alive S p w1 = (a, w2)" "io_print (os_print S b) w2 = (r, w')"
    using run rd
    by (cases q) (auto simp: state_verb_def io_bind_def io_ok_def io_context_def io_result_def
        split: if_splits option.splits prod.splits sum.splits)
  then have "within 1 w1 w'"
  proof cases
    case 4
    then show ?thesis using within_steps(1) [OF 4(1)] printed within_quietly(2) by blast
  qed (auto simp: within_silent dest: within_steps(1) printed)
  then show ?thesis by (rule within_quietly(1) [OF silent_calls(1) [OF rd]])
qed

lemma kill_within: "kill S J root cid sig_name w = (r, w') \<Longrightarrow> within 2 w w'"
proof -
  assume run: "kill S J root cid sig_name w = (r, w')"
  obtain q w1 where rd: "state_read S J root cid w = (q, w1)" by fastforce
  show ?thesis
  proof (cases "\<exists>st sig p. q = Inr st \<and> parse_signal sig_name = Inr sig \<and> cs_pid st = Some p")
    case True
    with kill_run [OF run] rd show ?thesis by (fastforce simp: within_def)
  next
    case False
    with run rd have "w' = w1 \<or> (\<exists>st. state_write S J root st w1 = (r, w'))"
      by (cases q; cases "parse_signal sig_name") (auto simp: kill_def io_run split: if_splits option.splits)
    then show ?thesis using silent_calls(1) [OF rd] silent_calls(2) by (fastforce intro: within_silent)
  qed
qed

lemma delete_within: "delete S J root cid force w = Some (r, w') \<Longrightarrow> within 253 w w'"
proof -
  assume run: "delete S J root cid force w = Some (r, w')"
  obtain q w1 where rd: "state_read S J root cid w = (q, w1)" by fastforce
  note silent = silent_calls(1) [OF rd]
  show ?thesis
  proof (cases q)
    case (Inl e)
    with run rd silent show ?thesis by (auto simp: delete_def within_silent)
  next
    case (Inr st)
    obtain a w2 where al: "(case cs_pid st of None \<Rightarrow> io_ok False | Some p \<Rightarrow> is_alive S p) w1 = (a, w2)" by fastforce
    then have "within 1 w1 w2" by (auto simp: within_silent split: option.splits dest: within_steps(1))
    moreover have "w' = w2 \<or> remove_container S root cid (cs_pid st) (a = Inr True) w2 = Some (r, w')"
      using run rd Inr al by (auto simp: delete_def Let_def split: if_splits)
    then have "within 252 w2 w'" using remove_container_within by (auto simp: within_silent)
    ultimately have "within 253 w1 w'" by (rule within_trans) simp
    then show ?thesis by (rule within_quietly(1) [OF silent])
  qed
qed

lemma verb_within: "run_verb S J root cmd w = Some (r, w') \<Longrightarrow> within 253 w w'"
proof (cases cmd)
  case (CreateCmd cid b pid_file)
  assume "run_verb S J root cmd w = Some (r, w')"
  with CreateCmd create_events [of J root cid b pid_file w r w'] show ?thesis
    by (auto simp: within_def split: sum.splits)
qed (auto intro: within_quietly(3) dest: start_within state_within kill_within delete_within)

end

subsection \<open>What can panic\<close>

text \<open>An operation that cannot end in a failed print.\<close>

definition printless :: "('w, 'a) io \<Rightarrow> bool" where
  "printless m \<longleftrightarrow> (\<forall>w e w'. m w \<noteq> (Inl (PrintPanicked e), w'))"

named_theorems printless_intros \<open>operations that print nothing\<close>

lemma printless_steps [printless_intros]:
  "printless (io_ok a)" "printless (io_call c)" "printless (io_try t)" "printless (io_context step m)"
  "printless (io_attempt m)" "printless (io_result (map_sum Io id p))" "printless (io_result (map_sum BadLabel id q))"
  by (auto simp: printless_def io_run map_sum_def split: prod.splits sum.splits)

lemma printless_errors [printless_intros]:
  "\<forall>x. e \<noteq> PrintPanicked x \<Longrightarrow> printless (io_fail e)" "\<forall>x. r \<noteq> Inl (PrintPanicked x) \<Longrightarrow> printless (io_result r)"
  by (auto simp: printless_def)

lemma printless_bind [printless_intros]:
  "printless m \<Longrightarrow> (\<And>a. printless (f a)) \<Longrightarrow> printless (io_bind m f)"
  unfolding printless_def io_bind_def by (fastforce split: prod.splits sum.splits)

lemma printless_attempt [printless_intros]:
  "printless m \<Longrightarrow> (\<And>r. \<forall>x. r \<noteq> Inl (PrintPanicked x) \<Longrightarrow> printless (f r)) \<Longrightarrow> printless (io_bind (io_attempt m) f)"
proof -
  assume m: "printless m" and f: "\<And>r. \<forall>x. r \<noteq> Inl (PrintPanicked x) \<Longrightarrow> printless (f r)"
  have "io_bind (io_attempt m) f w = f (fst (m w)) (snd (m w))" for w
    by (simp add: io_bind_def io_attempt_def case_prod_beta)
  moreover have "printless (f (fst (m w)))" for w using m by (intro f) (metis printless_def prod.collapse)
  ultimately show ?thesis by (simp add: printless_def)
qed

lemma printless_cases [printless_intros]:
  "printless m \<Longrightarrow> printless m' \<Longrightarrow> printless (if b then m else m')"
  "printless m \<Longrightarrow> (\<And>x. printless (f x)) \<Longrightarrow> printless (case y of None \<Rightarrow> m | Some x \<Rightarrow> f x)"
  "(\<And>x. r = Inl x \<Longrightarrow> printless (g x)) \<Longrightarrow> (\<And>x. printless (f x)) \<Longrightarrow>
    printless (case r of Inl x \<Rightarrow> g x | Inr x \<Rightarrow> f x)"
  "(\<And>x y. printless (h x y)) \<Longrightarrow> printless (case p of (x, y) \<Rightarrow> h x y)"
  by (auto split: option.splits sum.splits prod.splits)

lemma printless_checks [simp]:
  "validate_container_id cid \<noteq> Inl (PrintPanicked x)" "spec_target sp \<noteq> Inl (PrintPanicked x)"
  "spec_log_target sp \<noteq> Inl (PrintPanicked x)" "parse_signal name \<noteq> Inl (PrintPanicked x)"
  by (auto simp: validate_container_id_def spec_target_def spec_log_target_def parse_signal_def Let_def ok_or_def
      split: list.splits option.splits sum.splits)

lemma printless_store [printless_intros]:
  "printless (state_write S J root st)" "printless (state_read S J root cid)" "printless (state_remove S root cid)"
  unfolding state_write_def state_read_def state_remove_def by (intro printless_intros; simp)+

lemma printless_processes [printless_intros]:
  "printless (signal_proxy S pid sig)" "printless (is_alive S pid)" "printless (spawn S root cid target firmware skip lt fd)"
  unfolding signal_proxy_def is_alive_def spawn_def by (intro printless_intros)+

lemma printless_create:
  "printless (create S J root cid b pid_file)"
proof -
  have "printless (read_request S J b)"
    unfolding read_request_def read_spec_def locate_firmware_def Let_def by (intro printless_intros; simp)
  moreover have named: "printless (acquire_named S root name)" for name
    unfolding acquire_named_def clear_cloexec_def
    by (intro printless_intros) (auto split: flock_answer.split intro!: printless_intros)
  then have "printless (acquire S root target)" for target
    using named unfolding printless_def acquire_def by (fastforce split: prod.splits sum.splits if_splits)
  moreover have "printless (record_created S J root cid b pid_file target firmware pid)" for target firmware pid
    unfolding record_created_def by (intro printless_intros)
  then have "printless (guarded S pid (record_created S J root cid b pid_file target firmware pid))" for target firmware pid
    unfolding printless_def guarded_def by (auto split: prod.splits sum.splits)
  ultimately show ?thesis unfolding create_def by (intro printless_intros; simp)
qed

lemma printless_start_kill:
  "printless (start S J root cid)" "printless (kill S J root cid sig_name)"
  unfolding start_def kill_def by (intro printless_intros; simp)+

lemma printless_delete: "delete S J root cid force w \<noteq> Some (Inl (PrintPanicked e), w')"
proof -
  have "printless (state_read S J root cid)" "printless (state_remove S root cid)" by (intro printless_intros)+
  then show ?thesis
    unfolding printless_def delete_def remove_container_def
    by (fastforce simp: Let_def split: prod.splits sum.splits if_splits option.splits)
qed

lemma state_verb_panics:
  assumes "state_verb S J root cid w = (Inl (PrintPanicked e), w')"
  shows "\<exists>line w1. os_print S line w1 = (Inl e, w')"
proof -
  have "printless (state_read S J root cid)" "printless (is_alive S p)" for p by (intro printless_intros)+
  with assms show ?thesis by (fastforce simp: state_verb_def io_outcomes printless_def split: if_splits)
qed

text \<open>Only \<open>state\<close> prints.\<close>

lemma verb_panics:
  assumes "run_verb S J root cmd w = Some (Inl (PrintPanicked e), w')"
  shows "\<exists>cid line w1. cmd = StateCmd cid \<and> os_print S line w1 = (Inl e, w')"
proof (cases cmd)
  case (StateCmd cid)
  with assms show ?thesis using state_verb_panics [of S J root cid w e w'] by simp
qed (use assms printless_create [of S J root] printless_start_kill [of S J root] printless_delete [of S J root] in
    \<open>auto simp: printless_def\<close>)

lemma state_root_silent:
  "process_host S events alive \<Longrightarrow> state_root S root_flag w = (r, w') \<Longrightarrow> events w' = events w"
  using process_host.env [of S events alive "''XDG_RUNTIME_DIR''" w]
  by (cases "os_env S ''XDG_RUNTIME_DIR'' w") (auto simp: state_root_def io_run io_ok_def split: option.splits)

subsection \<open>How a command ends\<close>

lemma exit_report_keeps:
  assumes "exit_report S show r w = (code, w')" and "\<And>b w. f (snd (os_eprint S b w)) = f w"
  shows "f w' = f w"
proof (cases "\<exists>e. r = Inl e \<and> (\<forall>x. e \<noteq> PrintPanicked x)")
  case True
  then obtain e where e: "r = Inl e" "\<forall>x. e \<noteq> PrintPanicked x" by blast
  then have "w' = snd (os_eprint S (ascii_bytes (''runtt: '' @ show e)) w)"
    using assms(1) by (cases e) (auto simp: exit_report_def split: prod.splits sum.splits)
  then show ?thesis by (simp add: assms(2))
next
  case False
  then show ?thesis using assms(1) by (cases r) (auto simp: exit_report_def)
qed

lemma exit_report_code:
  assumes "exit_report S show r w = (code, w')"
  shows "(code = 0 \<longleftrightarrow> r = Inr ()) \<and> (code = 1 \<or> code = 0 \<or> code = 101 \<and>
    ((\<exists>e. r = Inl (PrintPanicked e) \<and> w' = w) \<or> (\<exists>line e. os_eprint S line w = (Inl e, w'))))"
proof (cases "\<exists>e. r = Inl e \<and> (\<forall>x. e \<noteq> PrintPanicked x)")
  case True
  then obtain e where e: "r = Inl e" "\<forall>x. e \<noteq> PrintPanicked x" by blast
  obtain q w1 where p: "os_eprint S (ascii_bytes (''runtt: '' @ show e)) w = (q, w1)" by fastforce
  with e have "(code, w') = (case q of Inl _ \<Rightarrow> 101 | Inr _ \<Rightarrow> 1, w1)"
    using assms by (cases e; cases q) (auto simp: exit_report_def)
  then show ?thesis using e(1) p by (cases q) auto
next
  case False
  then show ?thesis using assms by (cases r) (auto simp: exit_report_def)
qed

subsection \<open>Properties\<close>

text \<open>C8: \<open>create\<close> leaves no orphan.  Whatever fails, a \<open>create\<close> that reports an error has either spawned
  no proxy or sent the one it spawned \<open>SIGKILL\<close>; one that succeeds has spawned exactly one and signalled
  nobody.\<close>
theorem create_leaves_no_orphan:
  assumes "process_host S events alive" and "create S J root cid bundle pid_file w = (r, w')"
  shows "case r of
      Inl _ \<Rightarrow> events w' = events w \<or> (\<exists>pid. events w' = events w @ [Spawned pid, Signalled pid SIGKILL])
    | Inr _ \<Rightarrow> \<exists>pid. events w' = events w @ [Spawned pid]"
  by (rule process_host.create_events [OF assms])

text \<open>C9: \<open>delete\<close> releases the board before it removes the record.  A live proxy is refused when the
  container runs and nothing was forced, and is otherwise sent \<open>SIGKILL\<close> and waited for before the state is
  removed; a pid that is gone, or is not that of a single process, is sent nothing.\<close>
theorem delete_kills_first:
  assumes "process_host S events alive" and "delete S J root cid force w = Some (r, w')"
    and "state_read S J root cid w = (Inr st, w1)" and "cs_pid st = Some p"
  shows "if 0 < p \<and> alive w1 p
    then if cs_status st = Running \<and> \<not> force
      then r = Inl StillRunning \<and> events w' = events w @ [Signalled p 0]
      else \<exists>w3 b w4. events w3 = events w @ [Signalled p 0, Signalled p SIGKILL] \<and>
        await_exit S p 5000 w3 = Some (b, w4) \<and> state_remove S root cid w4 = (r, w')
    else \<exists>w3. events w3 = events w @ (if 0 < p then [Signalled p 0] else []) \<and> state_remove S root cid w3 = (r, w')"
  by (rule process_host.delete_run [OF assms])

text \<open>\<open>kill\<close> sends the signal it was given, once, to the recorded proxy and only while that is alive;
  signal 0 asks first.\<close>
theorem kill_delivers:
  assumes "process_host S events alive" and "kill S J root cid sig_name w = (r, w')"
    and "state_read S J root cid w = (Inr st, w1)" and "cs_pid st = Some p" and "parse_signal sig_name = Inr sig"
  shows "events w' = events w @ (if 0 < p then Signalled p 0 # (if alive w1 p then [Signalled p sig] else []) else [])"
  by (rule process_host.kill_run [OF assms])

text \<open>C19: the five verbs end, in a bounded number of steps on processes, and how they end.  Whatever fails and
  whether or not the proxy ever dies, the command returns: \<open>delete\<close> gives up waiting at its deadline on a clock
  that a sleep moves forward, so no command spawns, signals or asks after a process more than 253 times.  The exit
  code is 0 exactly if the verb succeeded, and otherwise 1; or 101, a panic, but only where \<open>state\<close> could not
  print its line or the error could not be printed.  The hidden command that is the proxy itself is not among the
  five.\<close>
theorem commands_return:
  assumes "ticking S clock" and "process_host S events alive"
  shows "\<exists>r w1 code w'. real_main S J root_flag cmd w = Some (r, w1) \<and>
    main_exit S J show root_flag cmd w = Some (code, w') \<and>
    (\<exists>evs. events w' = events w @ evs \<and> length evs \<le> 253) \<and>
    (code = 0 \<longleftrightarrow> r = Inr ()) \<and>
    (code = 1 \<or> code = 0 \<or> code = 101 \<and>
      ((\<exists>cid line w2 e. cmd = StateCmd cid \<and> os_print S line w2 = (Inl e, w1)) \<or>
       (\<exists>line e. os_eprint S line w1 = (Inl e, w'))))"
proof -
  obtain root w0 where root: "state_root S root_flag w = (Inr root, w0)"
    using state_root_total [of S root_flag w] by blast
  have "\<exists>y. run_verb S J root cmd w0 = Some y"
    using ticking.delete_ends [OF assms(1)] by (cases cmd) auto
  then obtain r w1 where run: "run_verb S J root cmd w0 = Some (r, w1)" by auto
  obtain code w' where rep: "exit_report S show r w1 = (code, w')" by fastforce
  have "events w0 = events w" using state_root_silent [OF assms(2) root] .
  moreover obtain evs where "events w1 = events w0 @ evs" "length evs \<le> 253"
    using timed_host.verb_within [OF timed_host.intro [OF assms(2,1)] run]
    by (auto simp: timed_host.within_def [OF timed_host.intro [OF assms(2,1)]])
  moreover have "events w' = events w1"
    using rep process_host.print(2) [OF assms(2)] by (rule exit_report_keeps)
  moreover have "real_main S J root_flag cmd w = Some (r, w1)" using root run by (simp add: real_main_def)
  moreover have "main_exit S J show root_flag cmd w = Some (code, w')"
    using rep calculation by (simp add: main_exit_def)
  ultimately show ?thesis
    using exit_report_code [OF rep] verb_panics [of S J root cmd w0 _ w1] run by auto
qed

end
