(* ===== verification/System.thy ===== *)
theory System
  imports Processes
begin

text \<open>
  The verbs and the proxies together.  A system is the operating system's world and the proxies waiting
  in it; an engine runs verbs, one at a time, in any order and on any containers, each of whose calls
  may fail; what a verb spawns and signals reaches the proxies, which take their steps in between.
  Verbs are atomic here, as an engine serialises them.
\<close>

subsection \<open>Events and records together\<close>

definition own :: "(string \<Rightarrow> container_state option) \<Rightarrow> string \<Rightarrow> int \<Rightarrow> bool" where
  "own A cid p \<longleftrightarrow> (\<exists>st. A cid = Some st \<and> cs_pid st = Some p)"

definition running_pid :: "(string \<Rightarrow> container_state option) \<Rightarrow> string \<Rightarrow> int \<Rightarrow> bool" where
  "running_pid A cid p \<longleftrightarrow> (\<exists>st. A cid = Some st \<and> cs_pid st = Some p \<and> cs_status st = Running)"

text \<open>What a verb does to processes, against what is recorded before and after.\<close>

definition event_step ::
    "verb \<Rightarrow> string \<Rightarrow> (string \<Rightarrow> container_state option) \<Rightarrow> process_event list
      \<Rightarrow> (string \<Rightarrow> container_state option) \<Rightarrow> bool" where
  "event_step v cid A evs A' \<longleftrightarrow>
     (\<forall>p sig. Signalled p sig \<in> set evs \<longrightarrow> Spawned p \<in> set evs \<or> own A cid p) \<and>
     (\<forall>p. Signalled p SIGUSR1 \<in> set evs \<longrightarrow> v \<in> {VStart, VKill}) \<and>
     (\<forall>p. own A' cid p \<longrightarrow> own A cid p \<or> Spawned p \<in> set evs) \<and>
     (\<forall>p. running_pid A' cid p \<longrightarrow> running_pid A cid p \<or> Signalled p SIGUSR1 \<in> set evs)"

lemma event_step_same:
  "(\<And>p sig. Signalled p sig \<in> set evs \<Longrightarrow> own A cid p) \<Longrightarrow>
    (\<And>p. Signalled p SIGUSR1 \<in> set evs \<Longrightarrow> v \<in> {VStart, VKill}) \<Longrightarrow> event_step v cid A evs A"
  by (auto simp: event_step_def)

subsection \<open>The system\<close>

text \<open>\<open>sy_gates\<close> are the proxies that run, each with the state of its wait for \<open>start\<close>; \<open>sy_pending\<close> what has
  been sent and not delivered yet; \<open>sy_log\<close> the verbs the engine has run.\<close>

record 'w system =
  sy_world :: 'w
  sy_gates :: "int \<Rightarrow> waiting option"
  sy_pending :: "process_event list"
  sy_log :: "(verb \<times> string) list"

text \<open>A new process starts before its handlers are installed.  A signal that is not handled stops, resumes
  or ends it; an end is a step of its own.\<close>

fun deliver_event :: "process_event \<Rightarrow> (int \<Rightarrow> waiting option) \<Rightarrow> int \<Rightarrow> waiting option" where
  "deliver_event (Spawned p) gates = gates(p \<mapsto> \<lparr>signal_received = 0, wait_at = NoHandlers\<rparr>)"
| "deliver_event (Signalled p sig) gates =
     (case gates p of
        None \<Rightarrow> gates
      | Some g \<Rightarrow>
          if sig = SIGKILL then gates(p := None)
          else if sig \<in> handled_signals then gates(p \<mapsto> handle_signal sig g)
          else gates)"

inductive engine_run ::
    "'w os \<Rightarrow> json \<Rightarrow> string \<Rightarrow> ('w \<Rightarrow> string list \<Rightarrow> bytes option) \<Rightarrow> ('w \<Rightarrow> process_event list) \<Rightarrow> 'w system \<Rightarrow> bool"
  for S :: "'w os" and J :: json and root :: string and content :: "'w \<Rightarrow> string list \<Rightarrow> bytes option"
    and events :: "'w \<Rightarrow> process_event list" where
  fresh: "stored J content root w = Map.empty \<Longrightarrow> events w = [] \<Longrightarrow>
    engine_run S J root content events \<lparr>sy_world = w, sy_gates = Map.empty, sy_pending = [], sy_log = []\<rparr>"
| command: "engine_run S J root content events s \<Longrightarrow> verb_run S J root v cid (sy_world s) r w' \<Longrightarrow>
    events w' = events (sy_world s) @ evs \<Longrightarrow>
    engine_run S J root content events
      (s\<lparr>sy_world := w', sy_pending := sy_pending s @ evs, sy_log := sy_log s @ [(v, cid)]\<rparr>)"
| arrival: "engine_run S J root content events s \<Longrightarrow> sy_pending s = e # es \<Longrightarrow>
    engine_run S J root content events (s\<lparr>sy_gates := deliver_event e (sy_gates s), sy_pending := es\<rparr>)"
| proxy: "engine_run S J root content events s \<Longrightarrow> sy_gates s p = Some g \<Longrightarrow> wait_step g = Some g' \<Longrightarrow>
    engine_run S J root content events (s\<lparr>sy_gates := (sy_gates s)(p \<mapsto> g')\<rparr>)"
| exit: "engine_run S J root content events s \<Longrightarrow>
    engine_run S J root content events (s\<lparr>sy_gates := (sy_gates s)(p := None)\<rparr>)"
| elsewhere: "engine_run S J root content events s \<Longrightarrow>
    stored J content root w' = stored J content root (sy_world s) \<Longrightarrow> events w' = events (sy_world s) \<Longrightarrow>
    engine_run S J root content events (s\<lparr>sy_world := w'\<rparr>)"

text \<open>What holds of the store, the signals and the proxies at any time.\<close>

definition gate_inv :: "process_event list \<Rightarrow> int \<Rightarrow> waiting \<Rightarrow> bool" where
  "gate_inv evs p g \<longleftrightarrow>
     (signal_received g \<noteq> 0 \<longrightarrow> Signalled p (signal_received g) \<in> set evs) \<and>
     (wait_at g = Started \<longrightarrow> Signalled p SIGUSR1 \<in> set evs)"

definition system_inv ::
    "(string \<Rightarrow> container_state option) \<Rightarrow> process_event list \<Rightarrow> 'w system \<Rightarrow> bool" where
  "system_inv A evs s \<longleftrightarrow> well_formed_store A \<and>
     (\<forall>cid p. own A cid p \<longrightarrow> Spawned p \<in> set evs) \<and>
     (\<forall>p sig. Signalled p sig \<in> set evs \<longrightarrow> Spawned p \<in> set evs) \<and>
     (\<forall>cid p. running_pid A cid p \<longrightarrow> Signalled p SIGUSR1 \<in> set evs) \<and>
     (\<forall>p. Signalled p SIGUSR1 \<in> set evs \<longrightarrow> (\<exists>cid. (VStart, cid) \<in> set (sy_log s) \<or> (VKill, cid) \<in> set (sy_log s))) \<and>
     set (sy_pending s) \<subseteq> set evs \<and>
     (\<forall>p g. sy_gates s p = Some g \<longrightarrow> gate_inv evs p g)"

lemma gate_inv_mono: "gate_inv evs p g \<Longrightarrow> set evs \<subseteq> set evs' \<Longrightarrow> gate_inv evs' p g"
  by (auto simp: gate_inv_def)

lemma gate_inv_step: "gate_inv evs p g \<Longrightarrow> wait_step g = Some g' \<Longrightarrow> gate_inv evs p g'"
  by (auto simp: gate_inv_def wait_step_def split: wait_point.splits if_splits)

lemma gate_inv_signal:
  "gate_inv evs p g \<Longrightarrow> Signalled p sig \<in> set evs \<Longrightarrow> gate_inv evs p (handle_signal sig g)"
  by (auto simp: gate_inv_def handle_signal_def)

lemma gate_inv_deliver:
  assumes "\<And>p g. gates p = Some g \<Longrightarrow> gate_inv evs p g" and "e \<in> set evs" and "deliver_event e gates q = Some g"
  shows "gate_inv evs q g"
proof (cases e)
  case (Spawned p)
  with assms(1) [of q g] assms(3) show ?thesis by (cases "q = p") (auto simp: gate_inv_def)
next
  case (Signalled p sig)
  show ?thesis
  proof (cases "gates p")
    case None
    with Signalled assms(1) [of q g] assms(3) show ?thesis by simp
  next
    case (Some h)
    with Signalled assms(1) [of q g] gate_inv_signal [OF assms(1) [OF Some], of sig] assms(2,3) show ?thesis
      by (auto split: if_splits)
  qed
qed

lemma own_update:
  assumes "A' = A(cid := b)" and "own A' c p"
  shows "own A c p \<or> c = cid \<and> own A' cid p"
  using assms by (cases "c = cid") (simp_all add: own_def)

lemma running_update:
  assumes "A' = A(cid := b)" and "running_pid A' c p"
  shows "running_pid A c p \<or> c = cid \<and> running_pid A' cid p"
  using assms by (cases "c = cid") (simp_all add: running_pid_def)

lemma system_invD:
  assumes "system_inv A evs s"
  shows "well_formed_store A" "own A c p \<Longrightarrow> Spawned p \<in> set evs"
    "Signalled p sig \<in> set evs \<Longrightarrow> Spawned p \<in> set evs" "running_pid A c p \<Longrightarrow> Signalled p SIGUSR1 \<in> set evs"
    "Signalled p SIGUSR1 \<in> set evs \<Longrightarrow> \<exists>c. (VStart, c) \<in> set (sy_log s) \<or> (VKill, c) \<in> set (sy_log s)"
    "set (sy_pending s) \<subseteq> set evs" "sy_gates s p = Some g \<Longrightarrow> gate_inv evs p g"
  using assms unfolding system_inv_def by blast+

lemma event_stepD:
  assumes "event_step v cid A evs A'"
  shows "Signalled p sig \<in> set evs \<Longrightarrow> Spawned p \<in> set evs \<or> own A cid p"
    "Signalled p SIGUSR1 \<in> set evs \<Longrightarrow> v \<in> {VStart, VKill}"
    "own A' cid p \<Longrightarrow> own A cid p \<or> Spawned p \<in> set evs"
    "running_pid A' cid p \<Longrightarrow> running_pid A cid p \<or> Signalled p SIGUSR1 \<in> set evs"
  using assms unfolding event_step_def by blast+

lemma system_inv_command:
  assumes inv: "system_inv A evs s" and step: "store_step v cid r A A'" and ev: "event_step v cid A new A'"
  shows "system_inv A' (evs @ new) (s\<lparr>sy_world := w', sy_pending := sy_pending s @ new, sy_log := sy_log s @ [(v, cid)]\<rparr>)"
proof -
  note old = system_invD [OF inv] and new = event_stepD [OF ev]
  obtain b where b: "A' = A(cid := b)" using step by (auto simp: store_step_def)
  have "well_formed_store A'" using store_step_well_formed [OF step old(1)] .
  moreover have "Spawned p \<in> set (evs @ new)" if "own A' c p" for c p
    using own_update [OF b that] new(3) [of p] old(2) [of _ p] unfolding set_append by blast
  moreover have "Spawned p \<in> set (evs @ new)" if "Signalled p sig \<in> set (evs @ new)" for p sig
    using that new(1) [of p sig] old(2) [of cid p] old(3) [of p sig] unfolding set_append by blast
  moreover have "Signalled p SIGUSR1 \<in> set (evs @ new)" if "running_pid A' c p" for c p
    using running_update [OF b that] new(4) [of p] old(4) [of _ p] unfolding set_append by blast
  moreover have "\<exists>c. (VStart, c) \<in> set (sy_log s @ [(v, cid)]) \<or> (VKill, c) \<in> set (sy_log s @ [(v, cid)])"
    if "Signalled p SIGUSR1 \<in> set (evs @ new)" for p
  proof (cases "Signalled p SIGUSR1 \<in> set evs")
    case True
    from old(5) [OF this] show ?thesis by auto
  next
    case False
    with that new(2) [of p] show ?thesis by auto
  qed
  moreover have "gate_inv (evs @ new) p g" if "sy_gates s p = Some g" for p g
    using gate_inv_mono [OF old(7) [OF that]] by simp
  ultimately show ?thesis using old(6) unfolding system_inv_def by auto
qed

locale runtime_host = container_host S content + process_host S events alive
  for S :: "'w os" and content :: "'w \<Rightarrow> string list \<Rightarrow> bytes option"
    and events :: "'w \<Rightarrow> process_event list" and alive :: "'w \<Rightarrow> int \<Rightarrow> bool"
begin

abbreviation quiet :: "json \<Rightarrow> string \<Rightarrow> 'w \<Rightarrow> 'w \<Rightarrow> bool" where
  "quiet J root w w' \<equiv> stored J content root w' = stored J content root w \<and> events w' = events w"

lemma quiet_keeps:
  "reading_keeps S (quiet J root)" "locking_keeps S root (lock_name target) (quiet J root)"
proof -
  have order: "reflp (quiet J root)" "transp (quiet J root)"
    by (auto intro: reflpI transpI)
  show "reading_keeps S (quiet J root)"
    using keeps_same(1) [of J root] reading order by (simp add: reading_keeps_def)
  show "locking_keeps S root (lock_name target) (quiet J root)"
    using keeps_same(2) [of root target J] locking [of root "lock_name target"] order by (simp add: locking_keeps_def)
qed

lemma create_joint:
  assumes run: "create S J root cid bundle pid_file w = (r, w')" and J: "reads_back J"
    and pid_file: "\<forall>p. pid_file = Some p \<longrightarrow> \<not> prefix (path_components root) (path_components p)"
  shows "\<exists>evs. events w' = events w @ evs \<and>
    event_step VCreate cid (stored J content root w) evs (stored J content root w')"
  using run quiet_keeps(1) [of J root] quiet_keeps(2) [of root _ J]
proof (cases rule: create_run)
  case refused
  then show ?thesis by (intro exI [of _ "[]"]) (simp add: event_step_def)
next
  case (unspawned target firmware skip log_target fd w1 e)
  then show ?thesis
    using call_same(5) [OF unspawned(2)] spawn_event [OF unspawned(2)]
    by (intro exI [of _ "[]"]) (simp add: event_step_def)
next
  case (spawned target firmware skip log_target fd w1 pid w2)
  let ?st = "created_state cid bundle pid target firmware"
  obtain q w3 where rec: "record_created S J root cid bundle pid_file target firmware pid w2 = (q, w3)" by fastforce
  obtain x w4 where kill: "signal_proxy S pid SIGKILL w3 = (x, w4)" by fastforce
  have w3: "events w3 = events w @ [Spawned pid]"
    using spawn_event [OF spawned(2)] spawned(1) silent_calls(4) [OF rec] by simp
  have "same J root w w2" using spawned(1) call_same(5) [OF spawned(2)] by metis
  then have "stored J content root w3 \<in> {stored J content root w, (stored J content root w)(cid \<mapsto> ?st)}"
    using record_effect [OF rec J pid_file] by (elim disjE) simp_all
  moreover have "w' = w3 \<or> w' = w4"
    using spawned(3) rec kill by (cases q) (auto simp: guarded_def)
  moreover have "same J root w3 w4" "events w4 = events w3 @ [Signalled pid SIGKILL]"
    using call_same(1) [OF kill] signal_event [OF kill] by simp_all
  moreover have "cs_pid ?st = Some pid" "cs_status ?st = Created"
    by (simp_all add: created_state_def set_annotation_def)
  ultimately show ?thesis
    using w3
    by (intro exI [of _ "if w' = w3 then [Spawned pid] else [Spawned pid, Signalled pid SIGKILL]"])
      (auto simp: event_step_def own_def running_pid_def signal_numbers)
qed

text \<open>The verbs that read the record of a container with a pid, and then change its status or nothing.\<close>

lemma updated:
  assumes "state_write S J root (st\<lparr>cs_status := s\<rparr>) w1 = (r, w')" and "reads_back J"
    and "well_formed cid st" "s \<noteq> Creating" and "stored J content root w1 = A"
  shows "stored J content root w' \<in> {A, A(cid \<mapsto> st\<lparr>cs_status := s\<rparr>)} \<and> events w' = events w1"
  using write_status [OF assms(1,2) status_well_formed [OF assms(3,4)]] silent_calls(2) [OF assms(1)] assms(5)
  by (cases r) simp_all

lemma start_joint:
  assumes run: "start S J root cid w = (r, w')" and J: "reads_back J"
    and wf: "well_formed_store (stored J content root w)"
  shows "\<exists>evs. events w' = events w @ evs \<and>
    event_step VStart cid (stored J content root w) evs (stored J content root w')"
proof -
  let ?A = "stored J content root w"
  obtain q w1 where rd: "state_read S J root cid w = (q, w1)" by fastforce
  have w1: "quiet J root w w1" using read_effect [OF rd] silent_calls(1) [OF rd] by simp
  show ?thesis
  proof (cases q)
    case (Inl e)
    then show ?thesis using run rd w1 by (intro exI [of _ "[]"]) (auto simp: start_def io_run event_step_def)
  next
    case (Inr st)
    note st = read_well_formed [OF rd [unfolded Inr] wf]
    obtain pid where pid: "cs_pid st = Some pid" using st(1) by (auto simp: well_formed_def)
    obtain x w2 where kill: "signal_proxy S pid SIGUSR1 w1 = (x, w2)" by fastforce
    have w2: "stored J content root w2 = ?A" "events w2 = events w @ [Signalled pid SIGUSR1]"
      using w1 call_same(1) [OF kill, of J root] signal_event [OF kill] by simp_all
    consider "w' = w1" | "w' = w2" | "state_write S J root (st\<lparr>cs_status := Running\<rparr>) w2 = (r, w')"
      using run rd Inr pid kill by (cases x) (auto simp: start_def io_run split: if_splits)
    then show ?thesis
    proof cases
      case 1
      then show ?thesis using w1 by (intro exI [of _ "[]"]) (simp add: event_step_def)
    next
      case 2
      then show ?thesis using w2 st(2) pid
        by (intro exI [of _ "[Signalled pid SIGUSR1]"]) (auto intro!: event_step_same simp: own_def)
    next
      case 3
      then show ?thesis using updated [OF 3 J st(1) _ w2(1)] w2(2) st(2) pid
        by (intro exI [of _ "[Signalled pid SIGUSR1]"]) (auto simp: event_step_def own_def running_pid_def)
    qed
  qed
qed

lemma state_joint:
  assumes run: "state_verb S J root cid w = (r, w')" and wf: "well_formed_store (stored J content root w)"
  shows "\<exists>evs. events w' = events w @ evs \<and>
    event_step VState cid (stored J content root w) evs (stored J content root w')"
proof -
  obtain q w1 where rd: "state_read S J root cid w = (q, w1)" by fastforce
  have w1: "quiet J root w w1" using read_effect [OF rd] silent_calls(1) [OF rd] by simp
  show ?thesis
  proof (cases q)
    case (Inl e)
    then show ?thesis using run rd w1 by (intro exI [of _ "[]"]) (auto simp: state_verb_def io_run event_step_def)
  next
    case (Inr st)
    note st = read_well_formed [OF rd [unfolded Inr] wf]
    obtain pid where pid: "cs_pid st = Some pid" using st(1) by (auto simp: well_formed_def)
    obtain a w2 where al: "is_alive S pid w1 = (a, w2)" by fastforce
    have w2: "stored J content root w2 = stored J content root w"
      "events w2 = events w @ (if 0 < pid then [Signalled pid 0] else [])"
      using w1 call_same(2) [OF al, of J root] probe_event [OF al] by simp_all
    have printed: "quiet J root w3 (snd (os_print S b w3))" for b w3
      using same_content [OF print_frame] print(1) by simp
    then have "quiet J root w1 w' \<or> quiet J root w2 w'"
      using run rd Inr pid al printed [of _ w1] printed [of _ w2]
      by (auto simp: state_verb_def io_run split: if_splits sum.splits prod.splits) (metis snd_conv)+
    then show ?thesis
    proof
      assume "quiet J root w1 w'"
      then show ?thesis using w1 by (intro exI [of _ "[]"]) (simp add: event_step_def)
    next
      assume "quiet J root w2 w'"
      then show ?thesis using w2 st(2) pid
        by (intro exI [of _ "if 0 < pid then [Signalled pid 0] else []"])
          (auto intro!: event_step_same simp: own_def signal_numbers split: if_splits)
    qed
  qed
qed

lemma kill_joint:
  assumes run: "kill S J root cid sig_name w = (r, w')" and J: "reads_back J"
    and wf: "well_formed_store (stored J content root w)"
  shows "\<exists>evs. events w' = events w @ evs \<and>
    event_step VKill cid (stored J content root w) evs (stored J content root w')"
proof -
  let ?A = "stored J content root w"
  obtain q w1 where rd: "state_read S J root cid w = (q, w1)" by fastforce
  have w1: "quiet J root w w1" using read_effect [OF rd] silent_calls(1) [OF rd] by simp
  show ?thesis
  proof (cases q)
    case (Inl e)
    then show ?thesis using run rd w1 by (intro exI [of _ "[]"]) (auto simp: kill_def io_run event_step_def)
  next
    case (Inr st)
    note st = read_well_formed [OF rd [unfolded Inr] wf]
    obtain pid where pid: "cs_pid st = Some pid" using st(1) by (auto simp: well_formed_def)
    obtain a w2 where al: "is_alive S pid w1 = (a, w2)" by fastforce
    have w2: "stored J content root w2 = ?A" "\<exists>evs. events w2 = events w @ evs \<and> set evs \<subseteq> {Signalled pid 0}"
      using w1 call_same(2) [OF al, of J root] probe_event [OF al] by auto
    have w2': "\<exists>evs. events w2 = events w @ evs \<and> set evs \<subseteq> range (Signalled pid)" using w2(2) by blast
    have w3: "stored J content root w3 = ?A \<and> (\<exists>evs. events w3 = events w @ evs \<and> set evs \<subseteq> range (Signalled pid))"
      if "signal_proxy S pid sig w2 = (x, w3)" for sig x w3
      using w2(1) w2' call_same(1) [OF that, of J root] signal_event [OF that] by auto
    have "w' = w1 \<or> (\<exists>w3 evs. stored J content root w3 = ?A \<and> events w3 = events w @ evs \<and>
        set evs \<subseteq> range (Signalled pid) \<and>
        (w' = w3 \<or> state_write S J root (st\<lparr>cs_status := Stopped\<rparr>) w3 = (r, w')))"
      using run rd Inr pid al w2(1) w2'
      by (auto simp: kill_def io_run split: if_splits sum.splits prod.splits dest!: w3)
    then consider "w' = w1" | w3 evs where "stored J content root w3 = ?A" "events w3 = events w @ evs"
      "set evs \<subseteq> range (Signalled pid)" "w' = w3"
      | w3 evs where "stored J content root w3 = ?A" "events w3 = events w @ evs"
      "set evs \<subseteq> range (Signalled pid)" "state_write S J root (st\<lparr>cs_status := Stopped\<rparr>) w3 = (r, w')"
      by blast
    then show ?thesis
    proof cases
      case 1
      then show ?thesis using w1 by (intro exI [of _ "[]"]) (simp add: event_step_def)
    next
      case (2 w3 evs)
      then show ?thesis using st(2) pid
        by (intro exI [of _ evs]) (auto intro!: event_step_same simp: own_def)
    next
      case (3 w3 evs)
      from updated [OF 3(4) J st(1) _ 3(1)] 3(2,3) st(2) pid show ?thesis
        by (intro exI [of _ evs]) (auto simp: event_step_def own_def running_pid_def)
    qed
  qed
qed

lemma delete_joint:
  assumes run: "delete S J root cid force w = Some (r, w')"
    and wf: "well_formed_store (stored J content root w)"
  shows "\<exists>evs. events w' = events w @ evs \<and>
    event_step VDelete cid (stored J content root w) evs (stored J content root w')"
proof -
  let ?A = "stored J content root w"
  obtain q w1 where rd: "state_read S J root cid w = (q, w1)" by fastforce
  have w1: "quiet J root w w1" using read_effect [OF rd] silent_calls(1) [OF rd] by simp
  from delete_entry [OF run] obtain b where b: "stored J content root w' = ?A(cid := b)" "b = ?A cid \<or> b = None"
    by blast
  show ?thesis
  proof (cases q)
    case (Inl e)
    then show ?thesis using run rd w1 by (intro exI [of _ "[]"]) (auto simp: delete_def event_step_def)
  next
    case (Inr st)
    note st = read_well_formed [OF rd [unfolded Inr] wf]
    obtain pid where pid: "cs_pid st = Some pid" using st(1) by (auto simp: well_formed_def)
    have kills: "\<exists>evs. events w4 = events w @ evs \<and> set evs \<subseteq> {Signalled pid 0, Signalled pid SIGKILL}"
      if "events w3 = events w @ [Signalled pid 0, Signalled pid SIGKILL]" "await_exit S pid 5000 w3 = Some (b, w4)"
      for w3 b w4
      using await_probes [OF that(2)] that(1) by auto
    have "\<exists>evs. events w' = events w @ evs \<and> set evs \<subseteq> {Signalled pid 0, Signalled pid SIGKILL}"
      using delete_run [OF run rd [unfolded Inr] pid]
      by (auto split: if_splits dest!: silent_calls(3) dest: kills)
    then obtain evs where "events w' = events w @ evs" "set evs \<subseteq> {Signalled pid 0, Signalled pid SIGKILL}" by blast
    then show ?thesis
      using b st(2) pid by (intro exI [of _ evs]) (auto simp: event_step_def own_def running_pid_def signal_numbers)
  qed
qed

lemma verb_joint:
  assumes "verb_run S J root v cid w r w'" and "reads_back J" and "well_formed_store (stored J content root w)"
  shows "\<exists>evs. events w' = events w @ evs \<and>
    event_step v cid (stored J content root w) evs (stored J content root w')"
  using assms(1)
proof cases
  case (run_create b p)
  then show ?thesis using create_joint assms(2) by blast
next
  case run_start
  then show ?thesis using start_joint assms(2,3) by blast
next
  case run_state
  then show ?thesis using state_joint assms(3) by blast
next
  case (run_kill sig)
  then show ?thesis using kill_joint assms(2,3) by blast
next
  case (run_delete force)
  then show ?thesis using delete_joint assms(3) by blast
qed

lemma system_invariant:
  assumes "reads_back J"
  shows "engine_run S J root content events s \<Longrightarrow> system_inv (stored J content root (sy_world s)) (events (sy_world s)) s"
proof (induction rule: engine_run.induct)
  case (fresh w)
  then show ?case by (simp add: system_inv_def well_formed_store_def own_def running_pid_def)
next
  case (command s v cid r w' evs)
  have wf: "well_formed_store (stored J content root (sy_world s))" using command.IH by (simp add: system_inv_def)
  from verb_joint [OF command.hyps(2) assms wf] command.hyps(3)
  have "event_step v cid (stored J content root (sy_world s)) evs (stored J content root w')" by auto
  from system_inv_command [OF command.IH verb_step [OF command.hyps(2) assms wf] this] command.hyps(3)
  show ?case by simp
next
  case (arrival s e es)
  have "gate_inv (events (sy_world s)) q g" if "deliver_event e (sy_gates s) q = Some g" for q g
    by (rule gate_inv_deliver [OF _ _ that]) (use arrival in \<open>auto simp: system_inv_def\<close>)
  with arrival show ?case by (auto simp: system_inv_def)
next
  case (proxy s p g g')
  have "gate_inv (events (sy_world s)) p g'"
    by (rule gate_inv_step [OF _ proxy.hyps(3)]) (use proxy in \<open>auto simp: system_inv_def\<close>)
  with proxy.IH show ?case by (auto simp: system_inv_def)
next
  case (exit s p)
  then show ?case by (auto simp: system_inv_def)
next
  case (elsewhere s w')
  then show ?case by (auto simp: system_inv_def)
qed

end

subsection \<open>Properties\<close>

text \<open>C4: only its own processes.  Whatever verbs an engine runs, in whatever order, whichever of their calls
  fail and whatever the proxies do meanwhile: every pid that is recorded, and every pid that was ever
  sent a signal, is that of a proxy \<open>create\<close> spawned.\<close>
theorem only_own_processes:
  assumes "runtime_host S content events alive" and "reads_back J" and "engine_run S J root content events s"
  shows "(\<forall>cid p. own (stored J content root (sy_world s)) cid p \<longrightarrow> Spawned p \<in> set (events (sy_world s))) \<and>
    (\<forall>p sig. Signalled p sig \<in> set (events (sy_world s)) \<longrightarrow> Spawned p \<in> set (events (sy_world s)))"
  using runtime_host.system_invariant [OF assms] by (simp add: system_inv_def)

text \<open>C5: nothing is deployed before the engine says so.  A proxy that has left its wait to deploy was sent
  the start signal, a container recorded as running has a proxy that was sent it, and it was sent
  by a \<open>start\<close>, or a \<open>kill\<close>, that the engine ran.\<close>
theorem deploys_only_when_started:
  assumes "runtime_host S content events alive" and "reads_back J" and "engine_run S J root content events s"
    and "(\<exists>g. sy_gates s p = Some g \<and> wait_at g = Started) \<or> running_pid (stored J content root (sy_world s)) cid p"
  shows "Signalled p SIGUSR1 \<in> set (events (sy_world s)) \<and>
    (\<exists>c. (VStart, c) \<in> set (sy_log s) \<or> (VKill, c) \<in> set (sy_log s))"
  using runtime_host.system_invariant [OF assms(1-3)] assms(4) by (auto simp: system_inv_def gate_inv_def)

end
