(* ===== verification/Kernel.thy ===== *)
theory Kernel
  imports System Mock_Deploy "HOL-Library.AList"
begin

text \<open>
  An operating system in memory on which the interfaces of the verbs are interpreted: files by the
  components of their path, open descriptions and the locks they hold, processes, a clock, and a
  plan of which call fails.  Then the witnesses of the properties of the verbs on it.
\<close>

record kernel =
  k_files :: "(string list \<times> bytes) list"
  k_opened :: "(int \<times> string list) list"
  k_held :: "string list \<Rightarrow> int option"
  k_alive :: "int list"
  k_events :: "process_event list"
  k_clock :: nat
  k_calls :: nat
  k_fails :: "nat \<Rightarrow> bool"
  k_printed :: bytes

definition kernel_fails :: "kernel \<Rightarrow> bool" where
  "kernel_fails w \<longleftrightarrow> k_fails w (k_calls w)"

definition counted :: "kernel \<Rightarrow> kernel" where
  "counted w = w\<lparr>k_calls := k_calls w + 1\<rparr>"

definition content :: "kernel \<Rightarrow> string list \<Rightarrow> bytes option" where
  "content w = map_of (k_files w)"

definition opened :: "kernel \<Rightarrow> int \<Rightarrow> string list option" where
  "opened w = map_of (k_opened w)"

definition alive :: "kernel \<Rightarrow> int \<Rightarrow> bool" where
  "alive w pid \<longleftrightarrow> pid \<in> set (k_alive w)"

definition put_file :: "string list \<Rightarrow> bytes \<Rightarrow> kernel \<Rightarrow> kernel" where
  "put_file p b w = w\<lparr>k_files := AList.update p b (k_files w)\<rparr>"

definition kernel_write :: "string \<Rightarrow> bytes \<Rightarrow> (kernel, string + unit) call" where
  "kernel_write p b w =
     (if kernel_fails w then (Inl ''ENOSPC'', put_file (path_components p) [] (counted w))
      else (Inr (), put_file (path_components p) b (counted w)))"

definition kernel_rename :: "string \<Rightarrow> string \<Rightarrow> (kernel, string + unit) call" where
  "kernel_rename p p' w =
     (case content w (path_components p) of
        None \<Rightarrow> (Inl ''ENOENT'', counted w)
      | Some b \<Rightarrow>
          if kernel_fails w then (Inl ''EIO'', counted w)
          else (Inr (), (counted w)\<lparr>k_files :=
            AList.update (path_components p') b (AList.delete (path_components p) (k_files w))\<rparr>))"

definition kernel_remove :: "string \<Rightarrow> (kernel, string + unit) call" where
  "kernel_remove p w =
     (if kernel_fails w then (Inl ''EIO'', counted w)
      else (Inr (), (counted w)\<lparr>k_files := AList.delete (path_components p) (k_files w)\<rparr>))"

definition kernel_remove_dir :: "string \<Rightarrow> (kernel, string + unit) call" where
  "kernel_remove_dir p w =
     (if kernel_fails w then (Inl ''EIO'', counted w)
      else (Inr (), (counted w)\<lparr>k_files := filter (\<lambda>f. \<not> prefix (path_components p) (fst f)) (k_files w)\<rparr>))"

definition kernel_read :: "string \<Rightarrow> (kernel, string + bytes) call" where
  "kernel_read p w =
     (case content w (path_components p) of
        None \<Rightarrow> (Inl ''ENOENT'', counted w)
      | Some b \<Rightarrow> (if kernel_fails w then Inl ''EIO'' else Inr b, counted w))"

definition fresh_fd :: "kernel \<Rightarrow> int" where
  "fresh_fd w = fold max (map fst (k_opened w)) 2 + 1"

definition kernel_open :: "string \<Rightarrow> (kernel, string + int) call" where
  "kernel_open p w =
     (if kernel_fails w then (Inl ''EACCES'', counted w)
      else (let w' = (case content w (path_components p) of None \<Rightarrow> put_file (path_components p) [] w | Some _ \<Rightarrow> w)
            in (Inr (fresh_fd w), (counted w')\<lparr>k_opened := (fresh_fd w, path_components p) # k_opened w\<rparr>)))"

definition kernel_flock :: "int \<Rightarrow> (kernel, flock_answer) call" where
  "kernel_flock fd w =
     (case opened w fd of
        None \<Rightarrow> (FlockError ''EBADF'', counted w)
      | Some q \<Rightarrow>
          if kernel_fails w then (FlockError ''EINTR'', counted w)
          else if k_held w q \<noteq> None \<and> k_held w q \<noteq> Some fd then (WouldBlock, counted w)
          else (Locked, (counted w)\<lparr>k_held := (k_held w)(q \<mapsto> fd)\<rparr>))"

definition kernel_close :: "int \<Rightarrow> (kernel, unit) call" where
  "kernel_close fd w = ((), (counted w)\<lparr>k_opened := AList.delete fd (k_opened w),
     k_held := (\<lambda>p. if k_held w p = Some fd then None else k_held w p)\<rparr>)"

definition kernel_spawn :: "command \<Rightarrow> (kernel, string + int) call" where
  "kernel_spawn c w =
     (if kernel_fails w then (Inl ''EAGAIN'', counted w)
      else (let pid = fold max (k_alive w) 99 + 1
            in (Inr pid, (counted w)\<lparr>k_alive := pid # k_alive w, k_events := k_events w @ [Spawned pid]\<rparr>)))"

definition kernel_kill :: "int \<Rightarrow> int \<Rightarrow> (kernel, string + unit) call" where
  "kernel_kill pid sig w =
     (if alive w pid then Inr () else Inl ''ESRCH'',
      (counted w)\<lparr>k_alive := (if sig = SIGKILL then removeAll pid (k_alive w) else k_alive w),
        k_events := k_events w @ [Signalled pid sig]\<rparr>)"

definition kernel_print :: "bytes \<Rightarrow> (kernel, string + unit) call" where
  "kernel_print b w =
     (if kernel_fails w then (Inl ''EPIPE'', counted w) else (Inr (), (counted w)\<lparr>k_printed := k_printed w @ b\<rparr>))"

definition kernel_os :: "kernel os" where
  "kernel_os =
    \<lparr>os_create_dir_all = (\<lambda>p w. (if kernel_fails w then Inl ''EACCES'' else Inr (), counted w)),
     os_write_file = kernel_write,
     os_rename = kernel_rename,
     os_remove_file = kernel_remove,
     os_remove_dir_all = kernel_remove_dir,
     os_exists = (\<lambda>p w. (list_ex (\<lambda>f. prefix (path_components p) (fst f)) (k_files w), counted w)),
     os_read_file = kernel_read,
     os_open_lock = kernel_open,
     os_flock = kernel_flock,
     os_close = kernel_close,
     os_get_fd_flags = (\<lambda>fd w. (if opened w fd = None then Inl ''EBADF'' else Inr 1, counted w)),
     os_set_fd_flags = (\<lambda>fd flags w. (if opened w fd = None then Inl ''EBADF'' else Inr (), counted w)),
     os_spawn = kernel_spawn,
     os_kill = kernel_kill,
     os_env = (\<lambda>name w. (None, counted w)),
     os_now = (\<lambda>w. (k_clock w, counted w)),
     os_sleep = (\<lambda>ms w. ((), (counted w)\<lparr>k_clock := k_clock w + ms\<rparr>)),
     os_print = kernel_print,
     os_eprint = (\<lambda>b w. (if kernel_fails w then Inl ''EPIPE'' else Inr (), counted w))\<rparr>"

lemmas kernel_calls = kernel_write_def kernel_rename_def kernel_remove_def kernel_remove_dir_def kernel_read_def
  kernel_open_def kernel_flock_def kernel_close_def kernel_spawn_def kernel_kill_def kernel_print_def

subsection \<open>The kernel keeps the laws\<close>

lemma content_simps [simp]:
  "content (counted w) = content w" "content (w\<lparr>k_opened := x1\<rparr>) = content w" "content (w\<lparr>k_held := x2\<rparr>) = content w"
  "content (w\<lparr>k_alive := x3\<rparr>) = content w" "content (w\<lparr>k_events := x4\<rparr>) = content w"
  "content (w\<lparr>k_clock := x5\<rparr>) = content w" "content (w\<lparr>k_files := fs\<rparr>) = map_of fs"
  "content (put_file p b w) = (content w)(p \<mapsto> b)"
  by (simp_all add: content_def counted_def put_file_def update_conv')

lemma opened_simps [simp]:
  "opened (counted w) = opened w" "opened (w\<lparr>k_files := x1\<rparr>) = opened w" "opened (w\<lparr>k_held := x2\<rparr>) = opened w"
  "opened (w\<lparr>k_opened := os\<rparr>) = map_of os" "opened (put_file p b w) = opened w"
  by (simp_all add: opened_def counted_def put_file_def)

lemma kernel_simps [simp]:
  "k_held (counted w) = k_held w" "k_held (put_file p b w) = k_held w" "k_events (counted w) = k_events w"
  "k_events (put_file p b w) = k_events w" "k_clock (counted w) = k_clock w" "k_clock (put_file p b w) = k_clock w"
  by (simp_all add: counted_def put_file_def)

lemma map_of_outside: "map_of (filter (\<lambda>f. \<not> prefix p (fst f)) fs) q = (if prefix p q then None else map_of fs q)"
  by (induction fs) auto

lemma delete_fun: "map_of (AList.delete k xs) = (map_of xs)(k := None)"
  by (rule ext) (simp add: delete_conv)

lemma fold_max_upper: "n \<in> set ns \<Longrightarrow> n \<le> fold max ns (b::int)" and fold_max_base: "b \<le> fold max ns (b::int)"
proof -
  have base: "b \<le> fold max ns b" for ns and b :: int
  proof (induction ns arbitrary: b)
    case (Cons n ns)
    show ?case using Cons.IH [of "max n b"] by simp
  qed simp
  show "n \<in> set ns \<Longrightarrow> n \<le> fold max ns b"
  proof (induction ns arbitrary: b)
    case (Cons m ns)
    then show ?case using base [of "max m b" ns] by (cases "n = m") auto
  qed simp
  show "b \<le> fold max ns b" by (rule base)
qed

lemma fresh_not_opened: "opened w (fresh_fd w) = None"
proof -
  have "fresh_fd w \<notin> fst ` set (k_opened w)"
    using fold_max_upper [of "fresh_fd w" "map fst (k_opened w)" 2] by (auto simp: fresh_fd_def)
  then show ?thesis by (simp add: opened_def map_of_eq_None_iff)
qed

interpretation kernel_files: container_host kernel_os content
  by unfold_locales
    (auto simp: kernel_os_def kernel_calls Let_def map_of_outside delete_fun update_conv' content_def list_ex_iff
      map_of_eq_None_iff counted_def put_file_def split: if_splits option.splits)

interpretation kernel_locks: lock_service kernel_os k_held opened
  by unfold_locales
    (auto simp: kernel_os_def kernel_calls Let_def delete_fun fresh_not_opened opened_def [symmetric] is_ok_def split: if_splits option.splits)

interpretation kernel_processes: process_host kernel_os k_events alive
  by unfold_locales
    (auto simp: kernel_os_def kernel_calls Let_def is_ok_def reading_keeps_def writing_keeps_def locking_keeps_def
      reflp_def transp_def split: if_splits option.splits)

interpretation kernel_runtime: runtime_host kernel_os content k_events alive
  by unfold_locales

interpretation kernel_clock: ticking kernel_os k_clock
  by unfold_locales (auto simp: kernel_os_def kernel_calls)

interpretation kernel_timed: timed_host kernel_os k_events alive k_clock
  by unfold_locales

subsection \<open>A container on the kernel\<close>

definition sample_state :: "container_status \<Rightarrow> container_state" where
  "sample_state status =
     (created_state ''app'' ''/b'' 100 ''can:can0/0x42'' ''/b/rootfs/app.bin'')\<lparr>cs_status := status\<rparr>"

definition sample_json :: json where
  "sample_json =
    \<lparr>js_state_out = (\<lambda>st. if st = sample_state Created then Inr [1] else if st = sample_state Running then Inr [2]
       else if st = sample_state Stopped then Inr [3] else Inl ''unknown state''),
     js_state_line = (\<lambda>st. Inr [123, 125]),
     js_state_in = (\<lambda>b. if b = [1] then Inr (sample_state Created) else if b = [2] then Inr (sample_state Running)
       else if b = [3] then Inr (sample_state Stopped) else Inl ''expected value''),
     js_spec_in = (\<lambda>b. if b = [9]
       then Inr \<lparr>sp_annotations = Some [SPEC_TARGET \<mapsto> ''can:can0/0x42''], sp_process_args = Some (Some [''app.bin'']),
         sp_root_path = Some ''rootfs''\<rparr>
       else Inl ''expected value'')\<rparr>"

definition sample_kernel :: "bytes \<Rightarrow> kernel" where
  "sample_kernel recorded = \<lparr>k_files = [([''run'', ''runtt'', ''app'', ''state.json''], recorded)],
     k_opened = [], k_held = Map.empty, k_alive = [100], k_events = [], k_clock = 0, k_calls = 0,
     k_fails = (\<lambda>n. n = 9), k_printed = []\<rparr>"

lemma sample_kernel_simps [simp]:
  "k_events (sample_kernel b) = []" "k_alive (counted (sample_kernel b)) = [100]" "\<not> kernel_fails (sample_kernel b)"
  by (simp_all add: sample_kernel_def counted_def kernel_fails_def)

lemma sample_reads_back: "reads_back sample_json"
  by (auto simp: reads_back_def sample_json_def split: if_splits)

lemma sample_state_simps [simp]:
  "cs_id (sample_state s) = ''app''" "cs_pid (sample_state s) = Some 100" "cs_status (sample_state s) = s"
  by (simp_all add: sample_state_def created_state_def set_annotation_def new_state_def)

lemma sample_state_well_formed: "s \<noteq> Creating \<Longrightarrow> well_formed ''app'' (sample_state s)"
  unfolding sample_state_def by (rule status_well_formed [OF created_well_formed])

lemma sample_store_well_formed: "well_formed_store (stored sample_json content ''/run/runtt'' (sample_kernel b))"
  by (auto simp: well_formed_store_def stored_def content_def sample_kernel_def sample_json_def path_components_def
      sample_state_well_formed split: if_splits)

lemma sample_id: "validate_container_id ''app'' = Inr ()"
  by (simp add: validate_container_id_def ascii_alphanumeric_def id_character_def)

lemma sample_read:
  "state_read kernel_os sample_json ''/run/runtt'' ''app'' (sample_kernel [2]) =
    (Inr (sample_state Running), counted (sample_kernel [2]))"
proof -
  have "path_components (state_file ''/run/runtt'' ''app'') = [''run'', ''runtt'', ''app'', ''state.json'']"
    by (simp add: state_components [OF sample_id]) (simp add: path_components_def)
  moreover have "content (sample_kernel [2]) [''run'', ''runtt'', ''app'', ''state.json''] = Some [2]"
    by (simp add: sample_kernel_def content_def)
  ultimately show ?thesis
    by (simp add: state_read_def sample_id io_run kernel_os_def kernel_read_def sample_json_def)
qed

subsection \<open>Witnesses\<close>

lemma verbs_refine_lifecycle_witness:
  "abstract_step VStart ''app'' (fst (start kernel_os sample_json ''/run/runtt'' ''app'' (sample_kernel [1])))
    (statuses (stored sample_json content ''/run/runtt'' (sample_kernel [1])))
    (statuses (stored sample_json content ''/run/runtt'' (snd (start kernel_os sample_json ''/run/runtt'' ''app'' (sample_kernel [1])))))"
  by (rule verbs_refine_lifecycle [OF kernel_files.container_host_axioms sample_reads_back sample_store_well_formed
        run_start [OF surjective_pairing]])

lemma verbs_keep_states_well_formed_witness:
  "well_formed_store (stored sample_json content ''/run/runtt''
    (snd (kill kernel_os sample_json ''/run/runtt'' ''app'' ''TERM'' (sample_kernel [2]))))"
  by (rule verbs_keep_states_well_formed [OF kernel_files.container_host_axioms sample_reads_back sample_store_well_formed
        run_kill [OF surjective_pairing]])

lemma create_leaves_no_orphan_witness:
  "case fst (create kernel_os sample_json ''/run/runtt'' ''app'' ''/b'' None (sample_kernel [1])) of
      Inl _ \<Rightarrow> k_events (snd (create kernel_os sample_json ''/run/runtt'' ''app'' ''/b'' None (sample_kernel [1]))) = [] \<or>
        (\<exists>pid. k_events (snd (create kernel_os sample_json ''/run/runtt'' ''app'' ''/b'' None (sample_kernel [1]))) =
          [Spawned pid, Signalled pid SIGKILL])
    | Inr _ \<Rightarrow> \<exists>pid. k_events (snd (create kernel_os sample_json ''/run/runtt'' ''app'' ''/b'' None (sample_kernel [1]))) =
        [Spawned pid]"
  using create_leaves_no_orphan [OF kernel_processes.process_host_axioms surjective_pairing,
      of sample_json "''/run/runtt''" "''app''" "''/b''" None "sample_kernel [1]"]
  by (simp split: sum.splits)

lemma delete_kills_first_witness:
  "\<exists>w'. delete kernel_os sample_json ''/run/runtt'' ''app'' False (sample_kernel [2]) = Some (Inl StillRunning, w') \<and>
    k_events w' = [Signalled 100 0]"
proof -
  obtain r w' where run: "delete kernel_os sample_json ''/run/runtt'' ''app'' False (sample_kernel [2]) = Some (r, w')"
    using kernel_clock.delete_ends by blast
  have "alive (counted (sample_kernel [2])) 100" by (simp add: alive_def)
  then show ?thesis
    using delete_kills_first [OF kernel_processes.process_host_axioms run sample_read] run by simp
qed

lemma sample_signal: "parse_signal ''TERM'' = Inr SIGTERM"
proof -
  have "trim ''TERM'' = ''TERM''" by (rule trim_solid) (simp_all add: solid_def white_space_def)
  moreover have "parse_i32 ''TERM'' = None"
    by (simp add: parse_i32_def parse_unsigned_def digit_value_def Let_def)
  moreover have "ascii_uppercase ''TERM'' = ''TERM''" by (simp add: ascii_uppercase_def)
  ultimately show ?thesis by (simp add: parse_signal_def Let_def signal_names_def)
qed

lemma kill_delivers_witness:
  "k_events (snd (kill kernel_os sample_json ''/run/runtt'' ''app'' ''TERM'' (sample_kernel [2]))) =
    [Signalled 100 0, Signalled 100 SIGTERM]"
  using kill_delivers [OF kernel_processes.process_host_axioms surjective_pairing sample_read _ sample_signal, of 100]
  by (simp add: alive_def)

lemma commands_return_witness:
  "\<exists>code w'. main_exit kernel_os sample_json (\<lambda>e. ''refused'') (Some ''/run/runtt'') (DeleteCmd ''app'' True) (sample_kernel [2]) =
      Some (code, w') \<and> length (k_events w') \<le> 253 \<and> code \<in> {0, 1, 101}"
  using commands_return [OF kernel_clock.ticking_axioms kernel_processes.process_host_axioms, of sample_json
      "Some ''/run/runtt''" "DeleteCmd ''app'' True" "sample_kernel [2]" "\<lambda>e. ''refused''"]
  by auto

text \<open>Two proxies claim the same board.\<close>

definition sample_claimed :: kernel where
  "sample_claimed = (sample_kernel [1])\<lparr>k_calls := 5, k_opened := [(3, lock_path ''/run/runtt'' ''/dev/ttyACM0'')],
     k_held := [lock_path ''/run/runtt'' ''/dev/ttyACM0'' \<mapsto> 3],
     k_files := AList.update (lock_path ''/run/runtt'' ''/dev/ttyACM0'') [] (k_files (sample_kernel [1]))\<rparr>"

lemma sample_claim:
  "acquire_resolved kernel_os ''/run/runtt'' ''/dev/ttyACM0'' (sample_kernel [1]) = (Inr 3, sample_claimed)"
proof -
  have "content (sample_kernel [1]) (lock_path ''/run/runtt'' ''/dev/ttyACM0'') = None"
    by (simp add: lock_path_eq sample_kernel_def content_def path_components_def device_lock_name_def)
  then show ?thesis
    by (simp add: acquire_resolved_def acquire_named_def clear_cloexec_def io_run kernel_os_def kernel_open_def
        kernel_flock_def lock_path_def [symmetric] put_file_def)
      (simp add: sample_claimed_def sample_kernel_def counted_def kernel_fails_def fresh_fd_def)
qed

lemma sample_second_claim:
  "\<exists>w'. acquire_resolved kernel_os ''/run/runtt'' ''/dev/ttyACM0'' sample_claimed = (Inl AlreadyClaimed, w')"
proof -
  have "content sample_claimed (lock_path ''/run/runtt'' ''/dev/ttyACM0'') = Some []"
    by (simp add: sample_claimed_def update_conv')
  then show ?thesis
    by (simp add: acquire_resolved_def acquire_named_def clear_cloexec_def io_run kernel_os_def kernel_open_def
        kernel_flock_def lock_path_def [symmetric] put_file_def)
      (simp add: sample_claimed_def sample_kernel_def counted_def kernel_fails_def fresh_fd_def kernel_close_def)
qed

lemma one_board_one_proxy_witness:
  "\<exists>p key' fd. [0 \<mapsto> (''/dev/ttyACM0'', 3)] p = Some (key', fd) \<and> sanitise key' = sanitise ''/dev/ttyACM0''"
proof -
  have "occupancy kernel_os ''/run/runtt'' (sample_kernel [1]) (sample_claimed, [0 \<mapsto> (''/dev/ttyACM0'', 3)])"
    using claim [OF boot _ sample_claim] by simp
  from one_board_one_proxy [OF kernel_locks.lock_service_axioms _ this] sample_second_claim show ?thesis
    by (simp add: sample_kernel_def)
qed

text \<open>A proxy that finds its board taken.\<close>

definition empty_port :: "kernel host" where
  "empty_port =
    \<lparr>h_read_file = (\<lambda>path. at_once (Inl ''not found'')), h_open_serial = (\<lambda>path baud ms. at_once (Inl ''busy'')),
     h_demux = (\<lambda>n ms. at_once (Inl ''closed'')), h_open_isotp = (\<lambda>iface node ms. at_once (Inl ''no such interface'')),
     h_close = (\<lambda>n. at_once ()), h_set_timeout = (\<lambda>n ms. at_once (Inl ''closed'')),
     h_set_retries = (\<lambda>n k. at_once ()), h_auto_frame = (\<lambda>n. at_once (Inl ''closed'')),
     h_echo = (\<lambda>n payload. at_once (Inl ''closed'')), h_describe = (\<lambda>n. at_once (Inl ''closed'')),
     h_image_state = (\<lambda>n. at_once (Inl ''closed'')), h_upload = (\<lambda>n img digest. at_once (Inl ''closed'', [])),
     h_reset = (\<lambda>n. at_once (Inl ''closed'')), h_set_state = (\<lambda>n hash confirm. at_once (Inl ''closed'')),
     h_sleep = (\<lambda>ms. at_once ()), h_stop = at_once False\<rparr>"

lemma sample_board:
  "resolve_label bench (ResolveTarget ''tty:/dev/ttyACM0'') ''tty:/dev/ttyACM0'' = Inr (SerialPort ''/dev/ttyACM0'' None)"
  "lock_key bench (SerialPort ''/dev/ttyACM0'' None) = ''/dev/ttyACM0''"
  by (simp_all add: resolve_label_def target_parse_def bench_def starts_with_def)

lemma sample_board_taken:
  "resolve_label bench (ResolveTarget ''tty:/dev/ttyACM0'') ''tty:/dev/ttyACM0'' = Inr resolved \<Longrightarrow>
    acquire_resolved kernel_os ''/run/runtt'' (lock_key bench resolved) sample_claimed \<noteq> (Inr fd, w)"
  using sample_second_claim sample_board by (auto simp del: lock_key.simps)

lemma proxy_claims_first_witness:
  "\<exists>r s'. proxy_deploy kernel_os empty_port bench id (cfg64 True) ''/run/runtt'' ''tty:/dev/ttyACM0'' ''app.bin'' True None
      \<lparr>rt_world = sample_claimed, rt_now = 0, rt_trace = [], rt_opened = 0\<rparr> = Some (r, s') \<and>
    rt_trace s' = [] \<and> exit_code r = 1"
proof -
  obtain w where refused: "acquire_resolved kernel_os ''/run/runtt'' ''/dev/ttyACM0'' sample_claimed = (Inl AlreadyClaimed, w)"
    using sample_second_claim by blast
  have run: "proxy_deploy kernel_os empty_port bench id (cfg64 True) ''/run/runtt'' ''tty:/dev/ttyACM0'' ''app.bin'' True None
      \<lparr>rt_world = sample_claimed, rt_now = 0, rt_trace = [], rt_opened = 0\<rparr> =
    Some (Inl (In_step AlreadyInUse AlreadyClaimed), \<lparr>rt_world = w, rt_now = 0, rt_trace = [], rt_opened = 0\<rparr>)"
    by (simp add: proxy_deploy_def sample_board on_os_def io_context_def refused del: lock_key.simps)
  with proxy_claims_first [OF run] sample_board_taken show ?thesis by auto
qed

end
