(* ===== verification/Can_Transport.thy ===== *)
theory Can_Transport
  imports Runtime_Io Demux Resolve
begin

text \<open>
  The CAN bus: ISO-TP endpoints and the raw log reader of \<open>crates/runtt-transport/src/can.rs\<close>, the SMP
  transport over them of \<open>crates/runtt-smp/src/can.rs\<close>, and the loop that prints the log channel
  (\<open>pump_logs\<close> of \<open>crates/runtt/src/flash.rs\<close>).  The socket calls are the record \<open>sockets\<close> over an arbitrary
  world; a failed call gives \<open>errno\<close>.  Times are in milliseconds.
\<close>

unbundle bit_operations_syntax

definition AF_CAN :: int where "AF_CAN = 29"
definition CAN_ISOTP :: int where "CAN_ISOTP = 6"
definition CAN_RAW :: int where "CAN_RAW = 1"
definition SOL_CAN_RAW :: int where "SOL_CAN_RAW = 100 + CAN_RAW"
definition CAN_RAW_FILTER :: int where "CAN_RAW_FILTER = 1"
definition CAN_SFF_MASK :: "32 word" where "CAN_SFF_MASK = 0x7ff"

text \<open>From \<open>libc\<close> on Linux.\<close>

definition SOCK_DGRAM :: int where "SOCK_DGRAM = 2"
definition SOCK_RAW :: int where "SOCK_RAW = 3"
definition SOL_SOCKET :: int where "SOL_SOCKET = 1"
definition SO_RCVTIMEO :: int where "SO_RCVTIMEO = 20"
definition EINTR :: int where "EINTR = 4"
definition EAGAIN :: int where "EAGAIN = 11"
definition EPROTONOSUPPORT :: int where "EPROTONOSUPPORT = 93"

text \<open>\<open>struct sockaddr_can\<close>; a raw socket ignores the two ids.\<close>

record sockaddr_can =
  can_family :: "16 word"
  sa_pad :: "16 word"
  can_ifindex :: "32 word"
  rx_id :: "32 word"
  tx_id :: "32 word"

record can_filter =
  can_id :: "32 word"
  can_mask :: "32 word"

record can_frame =
  frame_id :: "32 word"
  frame_len :: "8 word"
  frame_data :: bytes          \<comment> \<open>eight bytes\<close>

datatype sockopt = Timeval nat nat | Filter can_filter

record 'w sockets =
  sk_if_nametoindex :: "string \<Rightarrow> ('w, int + 32 word) call"
  sk_socket :: "int \<Rightarrow> int \<Rightarrow> int \<Rightarrow> ('w, int + int) call"
  sk_bind :: "int \<Rightarrow> sockaddr_can \<Rightarrow> ('w, int + unit) call"
  sk_setsockopt :: "int \<Rightarrow> int \<Rightarrow> int \<Rightarrow> sockopt \<Rightarrow> ('w, int + unit) call"
  sk_read :: "int \<Rightarrow> nat \<Rightarrow> ('w, int + bytes) call"
  sk_read_frame :: "int \<Rightarrow> ('w, int + can_frame) call"
  sk_write :: "int \<Rightarrow> bytes \<Rightarrow> ('w, int + nat) call"
  sk_close :: "int \<Rightarrow> ('w, unit) call"

datatype can_error =
    NulInName
  | LookupFailed string int
  | NoIsoTpSupport int
  | SocketFailed int
  | BindFailed string int
  | FilterFailed "32 word" int
  | ReceiveTimeoutFailed int
  | OsError int
  | ReadTimeout int             \<comment> \<open>\<open>ErrorKind::TimedOut\<close>, made of an expired receive timeout\<close>
  | WriteZero
  | UnexpectedResponse

subsection \<open>Opening\<close>

definition if_nametoindex :: "'w sockets \<Rightarrow> string \<Rightarrow> ('w, can_error + 32 word) call" where
  "if_nametoindex K iface w =
     (if CHR 0x00 \<in> set iface then (Inl NulInName, w)
      else case sk_if_nametoindex K iface w of
        (Inl e, w1) \<Rightarrow> (Inl (LookupFailed iface e), w1)
      | (Inr i, w1) \<Rightarrow> (Inr i, w1))"

text \<open>\<open>OwnedFd\<close>: the socket is closed when the function returns early.\<close>

definition closing :: "'w sockets \<Rightarrow> int \<Rightarrow> ('w, can_error + 'a) call \<Rightarrow> ('w, can_error + 'a) call" where
  "closing K fd m w =
     (case m w of (Inl e, w1) \<Rightarrow> (Inl e, snd (sk_close K fd w1)) | (Inr a, w1) \<Rightarrow> (Inr a, w1))"

definition set_read_timeout :: "'w sockets \<Rightarrow> int \<Rightarrow> nat \<Rightarrow> ('w, can_error + unit) call" where
  "set_read_timeout K fd ms w =
     (case sk_setsockopt K fd SOL_SOCKET SO_RCVTIMEO (Timeval (ms div 1000) (ms mod 1000 * 1000)) w of
        (Inl e, w1) \<Rightarrow> (Inl (ReceiveTimeoutFailed e), w1)
      | (Inr _, w1) \<Rightarrow> (Inr (), w1))"

definition isotp_address :: "32 word \<Rightarrow> 32 word \<Rightarrow> sockaddr_can" where
  "isotp_address ifindex node_id = \<lparr>can_family = word_of_int AF_CAN, sa_pad = 0, can_ifindex = ifindex,
     rx_id = node_id + 1, tx_id = node_id\<rparr>"

definition isotp_open :: "'w sockets \<Rightarrow> string \<Rightarrow> 32 word \<Rightarrow> nat \<Rightarrow> ('w, can_error + int) call" where
  "isotp_open K iface node_id timeout w =
     (case if_nametoindex K iface w of
        (Inl e, w1) \<Rightarrow> (Inl e, w1)
      | (Inr ifindex, w1) \<Rightarrow>
          (case sk_socket K AF_CAN SOCK_DGRAM CAN_ISOTP w1 of
             (Inl e, w2) \<Rightarrow> (Inl (if e = EPROTONOSUPPORT then NoIsoTpSupport e else SocketFailed e), w2)
           | (Inr fd, w2) \<Rightarrow>
               closing K fd (\<lambda>w2.
                 case sk_bind K fd (isotp_address ifindex node_id) w2 of
                   (Inl e, w3) \<Rightarrow> (Inl (BindFailed iface e), w3)
                 | (Inr _, w3) \<Rightarrow>
                     (case set_read_timeout K fd timeout w3 of
                        (Inl e, w4) \<Rightarrow> (Inl e, w4) | (Inr _, w4) \<Rightarrow> (Inr fd, w4))) w2))"

definition raw_address :: "32 word \<Rightarrow> sockaddr_can" where
  "raw_address ifindex = \<lparr>can_family = word_of_int AF_CAN, sa_pad = 0, can_ifindex = ifindex, rx_id = 0, tx_id = 0\<rparr>"

definition log_filter :: "32 word \<Rightarrow> can_filter" where
  "log_filter ident = \<lparr>can_id = ident, can_mask = CAN_SFF_MASK\<rparr>"

record can_log_reader =
  lr_fd :: int
  lr_pending :: bytes
  lr_at :: nat

text \<open>The filter is set after the bind.\<close>

definition can_log_open :: "'w sockets \<Rightarrow> string \<Rightarrow> 32 word \<Rightarrow> nat \<Rightarrow> ('w, can_error + can_log_reader) call" where
  "can_log_open K iface ident timeout w =
     (case if_nametoindex K iface w of
        (Inl e, w1) \<Rightarrow> (Inl e, w1)
      | (Inr ifindex, w1) \<Rightarrow>
          (case sk_socket K AF_CAN SOCK_RAW CAN_RAW w1 of
             (Inl e, w2) \<Rightarrow> (Inl (SocketFailed e), w2)
           | (Inr fd, w2) \<Rightarrow>
               closing K fd (\<lambda>w2.
                 case sk_bind K fd (raw_address ifindex) w2 of
                   (Inl e, w3) \<Rightarrow> (Inl (BindFailed iface e), w3)
                 | (Inr _, w3) \<Rightarrow>
                     (case sk_setsockopt K fd SOL_CAN_RAW CAN_RAW_FILTER (Filter (log_filter ident)) w3 of
                        (Inl e, w4) \<Rightarrow> (Inl (FilterFailed ident e), w4)
                      | (Inr _, w4) \<Rightarrow>
                          (case set_read_timeout K fd timeout w4 of
                             (Inl e, w5) \<Rightarrow> (Inl e, w5)
                           | (Inr _, w5) \<Rightarrow> (Inr \<lparr>lr_fd = fd, lr_pending = [], lr_at = 0\<rparr>, w5)))) w2))"

subsection \<open>SMP frames over ISO-TP\<close>

definition isotp_read :: "'w sockets \<Rightarrow> int \<Rightarrow> nat \<Rightarrow> ('w, can_error + bytes) call" where
  "isotp_read K fd buf_len w =
     (case sk_read K fd buf_len w of
        (Inl e, w1) \<Rightarrow> (Inl (if e = EAGAIN then ReadTimeout e else OsError e), w1)
      | (Inr bs, w1) \<Rightarrow> (Inr bs, w1))"

text \<open>\<open>Write::write_all\<close> over one write per message; \<open>None\<close> where it is interrupted forever.\<close>

partial_function (option) write_all :: "'w sockets \<Rightarrow> int \<Rightarrow> bytes \<Rightarrow> 'w \<Rightarrow> ((can_error + unit) \<times> 'w) option" where
  "write_all K fd buf w =
     (if buf = [] then Some (Inr (), w)
      else case sk_write K fd buf w of
        (Inl e, w1) \<Rightarrow> if e = EINTR then write_all K fd buf w1 else Some (Inl (OsError e), w1)
      | (Inr n, w1) \<Rightarrow> if n = 0 then Some (Inl WriteZero, w1) else write_all K fd (drop n buf) w1)"

definition SMP_HEADER_SIZE :: nat where "SMP_HEADER_SIZE = 8"

definition send_raw_frame :: "'w sockets \<Rightarrow> int \<Rightarrow> bytes \<Rightarrow> bytes \<Rightarrow> 'w \<Rightarrow> ((can_error + unit) \<times> 'w) option" where
  "send_raw_frame K fd header data w = write_all K fd (header @ data) w"

definition recv_raw_frame :: "'w sockets \<Rightarrow> int \<Rightarrow> nat \<Rightarrow> ('w, can_error + bytes) call" where
  "recv_raw_frame K fd buffer_size w =
     (case isotp_read K fd buffer_size w of
        (Inl e, w1) \<Rightarrow> (Inl e, w1)
      | (Inr bs, w1) \<Rightarrow> (if length bs < SMP_HEADER_SIZE then Inl UnexpectedResponse else Inr bs, w1))"

definition max_smp_frame_size :: nat where "max_smp_frame_size = 1024"

subsection \<open>Reading the log frames\<close>

definition frame_payload :: "can_frame \<Rightarrow> bytes" where
  "frame_payload f = take (min (unat (frame_len f)) (length (frame_data f))) (frame_data f)"

definition can_log_read ::
    "'w sockets \<Rightarrow> nat \<Rightarrow> can_log_reader \<Rightarrow> 'w \<Rightarrow> (int + bytes) \<times> can_log_reader \<times> 'w" where
  "can_log_read K buf_len r w =
     (let hand_out = (\<lambda>r. let n = min (length (lr_pending r) - lr_at r) buf_len
                          in (Inr (take n (drop (lr_at r) (lr_pending r))), r\<lparr>lr_at := lr_at r + n\<rparr>))
      in if buf_len = 0 then (Inr [], r, w)
         else if lr_at r = length (lr_pending r) then
           (case sk_read_frame K (lr_fd r) w of
              (Inl e, w1) \<Rightarrow> (Inl e, r, w1)
            | (Inr f, w1) \<Rightarrow>
                (case hand_out (r\<lparr>lr_pending := frame_payload f, lr_at := 0\<rparr>) of (bs, r') \<Rightarrow> (bs, r', w1)))
         else (case hand_out r of (bs, r') \<Rightarrow> (bs, r', w)))"

subsection \<open>Printing the log channel\<close>

text \<open>What the reads of \<open>BufRead::lines\<close> return, one after the other: bytes (none at end of file) or an
  error of one of the kinds the loop tells apart.  \<open>read_line\<close> starts a new buffer for each line, so
  an error loses the bytes of the line so far.\<close>

datatype read_kind = KTimedOut | KInterrupted | KOther
datatype chunk = Chunk bytes | Failed read_kind

record log_pump =
  lp_line :: bytes
  lp_out :: "bytes list"        \<comment> \<open>the lines printed\<close>

datatype log_end = LogWaiting | LogClosed | LogBadUtf8 | LogReadFailed

definition utf8_line :: "bytes \<Rightarrow> bool" where
  "utf8_line l \<longleftrightarrow> utf8_codes (map unat l)"

fun log_bytes :: "log_pump \<Rightarrow> bytes \<Rightarrow> log_pump \<times> bool" where
  "log_bytes p [] = (p, False)"
| "log_bytes p (b # rest) =
     (if b \<noteq> 10 then log_bytes (p\<lparr>lp_line := lp_line p @ [b]\<rparr>) rest
      else if utf8_line (lp_line p)
      then log_bytes \<lparr>lp_line = [], lp_out = lp_out p @ [strip_cr (lp_line p)]\<rparr> rest
      else (p\<lparr>lp_line := []\<rparr>, True))"

fun pump_logs :: "log_pump \<Rightarrow> chunk list \<Rightarrow> log_pump \<times> log_end" where
  "pump_logs p [] = (p, LogWaiting)"
| "pump_logs p (Chunk bs # script) =
     (if bs = [] then
        (if lp_line p = [] then (p, LogClosed)
         else if utf8_line (lp_line p) then pump_logs \<lparr>lp_line = [], lp_out = lp_out p @ [lp_line p]\<rparr> script
         else (p\<lparr>lp_line := []\<rparr>, LogBadUtf8))
      else (case log_bytes p bs of (p', bad) \<Rightarrow> if bad then (p', LogBadUtf8) else pump_logs p' script))"
| "pump_logs p (Failed KTimedOut # script) = pump_logs (p\<lparr>lp_line := []\<rparr>) script"
| "pump_logs p (Failed KInterrupted # script) = pump_logs p script"
| "pump_logs p (Failed KOther # script) = (p, LogReadFailed)"

text \<open>A CAN log channel: the answers of the kernel, read with a buffer of at least a frame.  An expired
  receive timeout is \<open>EAGAIN\<close>, which is \<open>WouldBlock\<close>.\<close>

definition can_chunk :: "int + can_frame \<Rightarrow> chunk" where
  "can_chunk a = (case a of Inl e \<Rightarrow> Failed (if e = EINTR then KInterrupted else KOther) | Inr f \<Rightarrow> Chunk (frame_payload f))"


subsection \<open>No byte is lost by the reader\<close>

definition unread :: "can_log_reader \<Rightarrow> bytes" where
  "unread r = drop (lr_at r) (lr_pending r)"

lemma can_log_read_conserves:
  assumes "can_log_read K n r w = (Inr bs, r', w')" and "lr_at r \<le> length (lr_pending r)"
  shows "lr_at r' \<le> length (lr_pending r') \<and> length bs \<le> n \<and>
    (if n = 0 \<or> unread r \<noteq> [] then bs @ unread r' = unread r \<and> w' = w
     else \<exists>f. sk_read_frame K (lr_fd r) w = (Inr f, w') \<and> bs @ unread r' = frame_payload f)"
proof -
  have split: "take m xs @ drop m xs = xs" for m and xs :: bytes by simp
  have "take m (drop k xs) @ drop (k + m) xs = drop k xs" for m k and xs :: bytes
    using split [of m "drop k xs"] by (simp add: drop_drop add.commute)
  with assms show ?thesis
    by (auto simp: can_log_read_def unread_def Let_def split: if_splits sum.splits prod.splits)
qed

text \<open>With a buffer of at least a frame each read is one answer of the kernel.\<close>

lemma can_log_read_chunk:
  assumes "unread r = []" and "lr_at r \<le> length (lr_pending r)" and "8 \<le> n"
    and "sk_read_frame K (lr_fd r) w = (a, w')" and "\<And>f. a = Inr f \<Longrightarrow> length (frame_data f) \<le> 8"
  shows "\<exists>r'. can_log_read K n r w = (map_sum id frame_payload a, r', w') \<and> unread r' = [] \<and>
    lr_at r' \<le> length (lr_pending r')"
proof (cases a)
  case (Inl e)
  with assms show ?thesis by (auto simp: can_log_read_def unread_def Let_def)
next
  case (Inr f)
  with assms(5) have "length (frame_payload f) \<le> 8" by (auto simp: frame_payload_def)
  with Inr assms show ?thesis by (auto simp: can_log_read_def unread_def Let_def)
qed

subsection \<open>The printed lines\<close>

lemma log_bytes_split:
  "10 \<notin> set (lp_line p) \<Longrightarrow> split_lines (lp_line p @ bs) = (ls, rest) \<Longrightarrow>
    log_bytes p bs =
      (if list_all utf8_line ls then (\<lparr>lp_line = rest, lp_out = lp_out p @ map strip_cr ls\<rparr>, False)
       else (\<lparr>lp_line = [], lp_out = lp_out p @ map strip_cr (takeWhile utf8_line ls)\<rparr>, True))"
proof (induction bs arbitrary: p ls)
  case Nil
  then have "ls = []" "rest = lp_line p" by (simp_all add: split_lines_no_newline)
  then show ?case by (cases p) simp
next
  case (Cons b bs)
  show ?case
  proof (cases "b = 10")
    case False
    with Cons.prems Cons.IH [of "p\<lparr>lp_line := lp_line p @ [b]\<rparr>"] show ?thesis by simp
  next
    case True
    then obtain ls' where ls: "ls = lp_line p # ls'" and rec: "split_lines bs = (ls', rest)"
      using Cons.prems by (auto simp: split_lines_line prod_eq_iff)
    from True ls rec Cons.IH [of "\<lparr>lp_line = [], lp_out = lp_out p @ [strip_cr (lp_line p)]\<rparr>" ls'] show ?thesis
      by (cases p) auto
  qed
qed

lemma log_bytes_lines:
  "10 \<notin> set (lp_line p) \<Longrightarrow> split_lines (lp_line p @ bs) = (ls, rest) \<Longrightarrow> list_all utf8_line ls \<Longrightarrow>
    log_bytes p bs = (\<lparr>lp_line = rest, lp_out = lp_out p @ map strip_cr ls\<rparr>, False)"
  by (simp add: log_bytes_split)

text \<open>A script that loses nothing: no end of file, and a timeout only between two lines.\<close>

fun chunk_bytes :: "chunk \<Rightarrow> bytes" where
  "chunk_bytes (Chunk bs) = bs"
| "chunk_bytes (Failed e) = []"

fun undisturbed :: "bytes \<Rightarrow> chunk list \<Rightarrow> bool" where
  "undisturbed line [] \<longleftrightarrow> True"
| "undisturbed line (Chunk bs # script) \<longleftrightarrow> bs \<noteq> [] \<and> undisturbed (snd (split_lines (line @ bs))) script"
| "undisturbed line (Failed KInterrupted # script) \<longleftrightarrow> undisturbed line script"
| "undisturbed line (Failed KTimedOut # script) \<longleftrightarrow> line = [] \<and> undisturbed line script"
| "undisturbed line (Failed KOther # script) \<longleftrightarrow> False"

lemma pump_logs_lines:
  "undisturbed (lp_line p) script \<Longrightarrow> 10 \<notin> set (lp_line p) \<Longrightarrow>
    split_lines (lp_line p @ concat (map chunk_bytes script)) = (ls, rest) \<Longrightarrow> list_all utf8_line ls \<Longrightarrow>
    pump_logs p script = (\<lparr>lp_line = rest, lp_out = lp_out p @ map strip_cr ls\<rparr>, LogWaiting)"
proof (induction p script arbitrary: ls rule: pump_logs.induct)
  case (1 p)
  then show ?case by (cases p) (simp add: split_lines_no_newline)
next
  case (2 p bs script)
  obtain ls1 rest1 where first: "split_lines (lp_line p @ bs) = (ls1, rest1)" by fastforce
  obtain ls2 where second: "split_lines (rest1 @ concat (map chunk_bytes script)) = (ls2, rest)"
    and ls: "ls = ls1 @ ls2"
    using 2(5) split_lines_append [OF first, of "concat (map chunk_bytes script)"] by (auto simp: prod_eq_iff)
  let ?p = "\<lparr>lp_line = rest1, lp_out = lp_out p @ map strip_cr ls1\<rparr>"
  have bytes: "log_bytes p bs = (?p, False)"
    by (rule log_bytes_lines [OF 2(4) first]) (use 2(6) ls in simp)
  have "pump_logs ?p script = (\<lparr>lp_line = rest, lp_out = lp_out ?p @ map strip_cr ls2\<rparr>, LogWaiting)"
    by (rule 2(2)) (use 2(3,6) bytes first second ls split_lines_rest_no_newline [OF first] in auto)
  with 2(3) bytes show ?case by (simp add: ls)
qed auto

subsection \<open>Identifiers\<close>

lemma standard_id: "(of_nat n :: 32 word) AND CAN_SFF_MASK = of_nat (n mod 2048)"
proof -
  have "CAN_SFF_MASK = mask 11" by (simp add: CAN_SFF_MASK_def mask_eq_exp_minus_1)
  then have "(of_nat n :: 32 word) AND CAN_SFF_MASK = take_bit 11 (of_nat n)" by (simp add: take_bit_eq_mask)
  also have "\<dots> = of_nat (take_bit 11 n)" by (rule take_bit_of_nat)
  finally show ?thesis by (simp add: take_bit_eq_mod)
qed

lemma small_of_nat: "n < 4294967296 \<Longrightarrow> unat (of_nat n :: 32 word) = n"
  by (simp add: unsigned_of_nat take_bit_nat_eq_self)

text \<open>C40: the three identifiers of a node are told apart.  For every node id a label can name, the host sends
  to that id and listens on the next without wrapping around, and the filter of the log reader lets
  through the one after and neither of the management ids.  It is the low eleven bits that decide: an extended
  frame whose low bits are those passes too, since the mask leaves the format bit out.\<close>
theorem can_identifiers:
  assumes "parse_node_id s = Inr n"
    and "\<And>f ident. delivered f ident \<longleftrightarrow> ident AND can_mask f = can_id f AND can_mask f"
  shows "unat (tx_id (isotp_address i (of_nat n))) = n \<and> unat (rx_id (isotp_address i (of_nat n))) = n + 1 \<and>
    delivered (log_filter (of_nat (n + LOG_ID_OFFSET))) (of_nat (n + LOG_ID_OFFSET)) \<and>
    \<not> delivered (log_filter (of_nat (n + LOG_ID_OFFSET))) (of_nat n) \<and>
    \<not> delivered (log_filter (of_nat (n + LOG_ID_OFFSET))) (of_nat (n + 1)) \<and>
    delivered (log_filter (of_nat (n + LOG_ID_OFFSET))) (of_nat (n + LOG_ID_OFFSET) OR 0x80000000) \<and>
    (\<forall>x. delivered (log_filter (of_nat (n + LOG_ID_OFFSET))) x \<longleftrightarrow> x AND CAN_SFF_MASK = of_nat (n + LOG_ID_OFFSET))"
proof -
  have n: "n \<le> 2045" using parse_node_id_bound [OF assms(1)] by (simp add: LOG_ID_OFFSET_def MAX_STD_ID_def)
  have same: "(of_nat a :: 32 word) = of_nat b \<longleftrightarrow> a = b" if "a < 2048" "b < 2048" for a b
  proof
    assume "(of_nat a :: 32 word) = of_nat b"
    then have "unat (of_nat a :: 32 word) = unat (of_nat b :: 32 word)" by (rule arg_cong)
    then show "a = b" using that small_of_nat [of a] small_of_nat [of b] by simp
  qed simp
  have "((of_nat m :: 32 word) OR 0x80000000) AND CAN_SFF_MASK = of_nat m AND CAN_SFF_MASK" for m
    by (simp add: word_ao_dist CAN_SFF_MASK_def)
  then have extended: "delivered (log_filter (of_nat m)) (of_nat k OR 0x80000000) \<longleftrightarrow>
      delivered (log_filter (of_nat m)) (of_nat k)" for m k
    by (simp add: assms(2) log_filter_def)
  have matches: "delivered (log_filter (of_nat m)) (of_nat k) \<longleftrightarrow> m = k" if "m < 2048" "k < 2048" for m k
    using that same [of k m] by (auto simp: assms(2) log_filter_def standard_id)
  have "unat (of_nat n + 1 :: 32 word) = n + 1"
    using n small_of_nat [of "n + 1"] by (simp add: add.commute)
  moreover have "delivered (log_filter (of_nat (n + 2))) (of_nat (n + 2))"
    "\<not> delivered (log_filter (of_nat (n + 2))) (of_nat n)" "\<not> delivered (log_filter (of_nat (n + 2))) (of_nat (n + 1))"
    using n matches [of "n + 2" "n + 2"] matches [of "n + 2" n] matches [of "n + 2" "n + 1"] by simp_all
  moreover have "delivered (log_filter (of_nat (n + 2))) x \<longleftrightarrow> x AND CAN_SFF_MASK = of_nat (n + 2)" for x
    using n standard_id [of "n + 2"] by (simp add: assms(2) log_filter_def del: of_nat_add)
  ultimately show ?thesis
    using n small_of_nat [of n] extended [of "n + 2" "n + 2"]
    by (simp add: isotp_address_def LOG_ID_OFFSET_def del: of_nat_add)
qed

text \<open>The console lines of a CAN board are put together again.  However the text was cut into frames, as
  long as no frame is empty and the lines are UTF-8, exactly its complete lines are printed, in
  order, each without its line end; what follows the last newline is still held.\<close>
theorem log_frames_reassemble:
  assumes "list_all (\<lambda>f. frame_payload f \<noteq> []) frames"
    and "split_lines (concat (map frame_payload frames)) = (ls, rest)" and "list_all utf8_line ls"
  shows "pump_logs \<lparr>lp_line = [], lp_out = []\<rparr> (map (\<lambda>f. can_chunk (Inr f)) frames) =
    (\<lparr>lp_line = rest, lp_out = map strip_cr ls\<rparr>, LogWaiting)"
proof -
  have "undisturbed line (map (\<lambda>f. can_chunk (Inr f)) frames)" for line
    using assms(1) by (induction frames arbitrary: line) (simp_all add: can_chunk_def)
  moreover have "chunk_bytes (can_chunk (Inr f)) = frame_payload f" for f by (simp add: can_chunk_def)
  ultimately show ?thesis
    using pump_logs_lines [of "\<lparr>lp_line = [], lp_out = []\<rparr>" "map (\<lambda>f. can_chunk (Inr f)) frames"] assms(2,3)
    by (simp add: comp_def)
qed

text \<open>When the console goes silent.  A CAN reader whose receive timeout expires ends the loop, and so does
  an empty frame between two lines; on a serial port an expired timeout goes on, but loses the
  line begun.\<close>

lemma log_channel_ends:
  "pump_logs p (can_chunk (Inl EAGAIN) # script) = (p, LogReadFailed)"
  "lp_line p = [] \<Longrightarrow> frame_len f = 0 \<Longrightarrow> pump_logs p (can_chunk (Inr f) # script) = (p, LogClosed)"
  "pump_logs p (Failed KTimedOut # script) = pump_logs (p\<lparr>lp_line := []\<rparr>) script"
  by (simp_all add: can_chunk_def EAGAIN_def EINTR_def frame_payload_def)

subsection \<open>Whole messages\<close>

text \<open>On a socket that takes and gives whole messages an SMP frame arrives as it was sent.\<close>

lemma isotp_frame_roundtrip:
  assumes "length header = SMP_HEADER_SIZE" and "sk_write K fd (header @ data) w = (Inr (length (header @ data)), w1)"
    and "sk_read K' fd' m w2 = (Inr (take m (header @ data)), w3)" and "length (header @ data) \<le> m"
  shows "send_raw_frame K fd header data w = Some (Inr (), w1) \<and>
    recv_raw_frame K' fd' m w2 = (Inr (header @ data), w3)"
proof -
  have "header @ data \<noteq> []" using assms(1) by (auto simp: SMP_HEADER_SIZE_def)
  moreover have "write_all K fd [] w1 = Some (Inr (), w1)" by (subst write_all.simps) simp
  ultimately have "write_all K fd (header @ data) w = Some (Inr (), w1)"
    using assms(2) by (subst write_all.simps) auto
  then show ?thesis
    using assms by (simp add: send_raw_frame_def recv_raw_frame_def isotp_read_def)
qed

subsection \<open>Witnesses\<close>

definition text_frame :: "32 word \<Rightarrow> bytes \<Rightarrow> can_frame" where
  "text_frame ident text = \<lparr>frame_id = ident, frame_len = of_nat (length text),
     frame_data = text @ replicate (8 - length text) 0\<rparr>"

lemma log_frames_reassemble_witness:
  "pump_logs \<lparr>lp_line = [], lp_out = []\<rparr>
      (map (\<lambda>f. can_chunk (Inr f)) [text_frame 0x44 [104, 105, 13, 10, 111], text_frame 0x44 [107, 10, 120]]) =
    (\<lparr>lp_line = [120], lp_out = [[104, 105], [111, 107]]\<rparr>, LogWaiting)"
  using log_frames_reassemble [of "[text_frame 0x44 [104, 105, 13, 10, 111], text_frame 0x44 [107, 10, 120]]"
      "[[104, 105, 13], [111, 107]]" "[120]"]
  by (simp add: text_frame_def frame_payload_def utf8_line_def strip_cr_def)

lemma can_identifiers_witness:
  "unat (rx_id (isotp_address 3 (of_nat 66))) = 67"
proof -
  have "alt_hex 66 = ''0x42''"
    by (simp add: alt_hex_def radix_string.simps digit_char_def)
  with parse_node_id_hex [of 66] have "parse_node_id ''0x42'' = Inr 66"
    by (simp add: node_verdict_def LOG_ID_OFFSET_def MAX_STD_ID_def)
  from can_identifiers [OF this, of "\<lambda>f ident. ident AND can_mask f = can_id f AND can_mask f" 3]
  show ?thesis by simp
qed

end
