(* ===== verification/Shared_Link.thy ===== *)
theory Shared_Link
  imports Server Demux Rust_Strings
begin

text \<open>
  The board and the demultiplexer at the two ends of one byte pipe: a single-channel target, on which
  \<open>Server::with_chatter\<close> (\<open>crates/runtt-mock/src/server.rs\<close>) writes log lines between its answers and
  \<open>LogDemux\<close> (\<open>crates/runtt-smp/src/demux.rs\<close>) takes the two apart again.
\<close>

subsection \<open>The same board without application output\<close>

definition hush :: "server \<Rightarrow> server" where
  "hush s = s\<lparr>sv_chatter := None, sv_next_chatter := 0, sv_chatter_seq := 0\<rparr>"

definition quiet_board :: "bytes \<Rightarrow> serving \<Rightarrow> serving" where
  "quiet_board out st = st\<lparr>se_server := hush (se_server st), se_out := out\<rparr>"

lemma hush_simps [simp]:
  "sv_dev (hush s) = sv_dev s" "sv_decoder (hush s) = sv_decoder s" "sv_silent (hush s) = sv_silent s"
  "sv_contract (hush s) = sv_contract s" "sv_chatter (hush s) = None"
  "hush (s\<lparr>sv_dev := d\<rparr>) = (hush s)\<lparr>sv_dev := d\<rparr>" "hush (s\<lparr>sv_silent := b\<rparr>) = (hush s)\<lparr>sv_silent := b\<rparr>"
  "hush (s\<lparr>sv_decoder := c\<rparr>) = (hush s)\<lparr>sv_decoder := c\<rparr>"
  "hush (s\<lparr>sv_next_chatter := n, sv_chatter_seq := k\<rparr>) = hush s"
  by (simp_all add: hush_def)

lemma answer_hush:
  "answer_set_state L (hush s) req m = apsnd hush (answer_set_state L s req m)"
  "answer_upload L (hush s) m = map_option (apsnd hush) (answer_upload L s m)"
  by (simp_all add: answer_set_state_def answer_upload_def split: option.splits prod.splits sum.splits
      upload_outcome.splits)

lemma dispatch_payload_hush:
  "dispatch_payload L (hush s) req = map_option (apsnd hush) (dispatch_payload L s req)"
  unfolding dispatch_payload_def Let_def if_distrib [of "map_option (apsnd hush)"]
  by (intro if_cong refl; simp add: answer_hush)

lemma dispatch_hush: "dispatch L (hush s) req = map_option (apsnd hush) (dispatch L s req)"
  by (auto simp: dispatch_def dispatch_payload_hush split: option.splits)

lemma serve_body_hush: "serve_body L (hush s) body = map_option (apsnd hush) (serve_body L s body)"
  by (auto simp: serve_body_def dispatch_hush split: sum.splits option.splits)

lemma serve_line_hush: "serve_line L (hush s) line = map_option (apsnd hush) (serve_line L s line)"
proof -
  have "serve_body L ((hush s)\<lparr>sv_decoder := d\<rparr>) body = map_option (apsnd hush) (serve_body L (s\<lparr>sv_decoder := d\<rparr>) body)"
    for d body using serve_body_hush [of L "s\<lparr>sv_decoder := d\<rparr>" body] by simp
  then show ?thesis by (simp add: serve_line_def split: prod.splits sum.splits option.splits)
qed

subsection \<open>What the board writes\<close>

text \<open>A whole answer, or nothing.\<close>

definition answered :: "libs \<Rightarrow> bytes \<Rightarrow> bool" where
  "answered L wire \<longleftrightarrow> wire = [] \<or> (\<exists>resp m. encode (lib_crc L) (lib_b64 L) resp m = Inr wire)"

lemma serve_line_answered: "serve_line L s line = Some (Inr wire, s') \<Longrightarrow> answered L wire"
  by (auto simp: serve_line_def serve_body_def answered_def split: prod.splits sum.splits option.splits if_splits)

lemma dispatch_seq: "dispatch L s req = Some (out, s') \<Longrightarrow> sv_chatter_seq s' = sv_chatter_seq s"
  unfolding dispatch_def dispatch_payload_def Let_def answer_set_state_def answer_upload_def
  by (auto split: if_splits option.splits sum.splits prod.splits upload_outcome.splits)

lemma serve_body_seq: "serve_body L s body = Some (r, s') \<Longrightarrow> sv_chatter_seq s' = sv_chatter_seq s"
  by (auto simp: serve_body_def dest: dispatch_seq split: sum.splits if_splits option.splits)

lemma serve_line_seq: "serve_line L s line = Some (r, s') \<Longrightarrow> sv_chatter_seq s' = sv_chatter_seq s"
  by (auto simp: serve_line_def dest: serve_body_seq split: sum.splits prod.splits option.splits)

lemma serve_byte_quiet:
  assumes "serve_byte L st b = Some (Inr st1)"
  obtains wire where "answered L wire" "se_out st1 = se_out st @ wire"
    "serve_byte L (quiet_board q st) b = Some (Inr (quiet_board (q @ wire) st1))"
    "sv_chatter_seq (se_server st1) = sv_chatter_seq (se_server st)"
proof (cases "b = 10")
  case False
  with assms have st1: "st1 = st\<lparr>se_line := se_line st @ [b]\<rparr>" by (simp add: serve_byte_def)
  show thesis by (rule that [of "[]"]) (use False in \<open>simp_all add: st1 answered_def serve_byte_def quiet_board_def\<close>)
next
  case True
  with assms obtain wire s where line: "serve_line L (se_server st) (se_line st) = Some (Inr wire, s)"
    and st1: "st1 = st\<lparr>se_line := [], se_server := s, se_out := se_out st @ wire\<rparr>"
    by (auto simp: serve_byte_def split: option.splits sum.splits prod.splits)
  show thesis
    by (rule that [OF serve_line_answered [OF line]])
      (use True line in \<open>simp_all add: st1 serve_byte_def quiet_board_def serve_line_hush serve_line_seq [OF line]\<close>)
qed

text \<open>One line of application output.\<close>

definition said_line :: "string \<Rightarrow> nat \<Rightarrow> bytes" where
  "said_line t n = map of_char (t @ '' '' @ dec_string (n mod 2 ^ 32))"

definition log_text :: "string \<Rightarrow> bool" where
  "log_text t \<longleftrightarrow> CHR 10 \<notin> set t \<and> \<not> is_smp_line (map of_char t)"

lemma newline_char: "of_char c = (10 :: byte) \<longleftrightarrow> c = CHR 10"
proof
  assume "of_char c = (10 :: byte)"
  moreover have "of_char c = (of_nat (of_char c) :: byte)" by (rule of_nat_of_char [symmetric])
  ultimately have "unat (of_nat (of_char c) :: byte) = 10" by simp
  moreover have "of_char c < (256 :: nat)" by simp
  ultimately have "of_char c = (of_char (CHR 10) :: nat)" by (simp add: unat_of_nat)
  then show "c = CHR 10" by (simp only: of_char_eq_iff)
qed simp

lemma newline_map: "(10 :: byte) \<in> set (map of_char s) \<longleftrightarrow> CHR 10 \<in> set s"
  by (induction s) (simp_all add: newline_char eq_commute [of "10 :: byte"]
      eq_commute [of "CHR 10"] del: set_map)

lemma said_line:
  assumes "log_text t"
  shows "10 \<notin> set (said_line t n @ [13])" "\<not> is_smp_line (said_line t n @ [13])"
    "strip_cr (said_line t n @ [13]) = said_line t n" "said_line t n \<noteq> []"
proof -
  have "CHR 10 \<notin> set (dec_string (n mod 2 ^ 32))"
  proof
    assume "CHR 10 \<in> set (dec_string (n mod 2 ^ 32))"
    then obtain d where "d < 16" "CHR 10 = digit_char d" using radix_string_digits [of 10 "n mod 2 ^ 32"] by auto
    then have "solid (CHR 10)" using digit_char_solid by metis
    then show False by (simp add: solid_def white_space_def)
  qed
  with assms have "CHR 10 \<notin> set (t @ '' '' @ dec_string (n mod 2 ^ 32))" by (simp add: log_text_def)
  then show "10 \<notin> set (said_line t n @ [13])" 
    unfolding newline_map [symmetric] by (simp add: said_line_def)
  show "\<not> is_smp_line (said_line t n @ [13])"
    using assms by (cases t; cases "tl t")
      (auto simp: said_line_def log_text_def is_smp_line_def SMP_MARKER_START_def SMP_MARKER_CONT_def)
  show "strip_cr (said_line t n @ [13]) = said_line t n" by (simp add: strip_cr_def)
  show "said_line t n \<noteq> []" by (simp add: said_line_def)
qed

subsection \<open>Taking the output apart\<close>

text \<open>What has been written is a sequence of whole lines; those for the client are \<open>q\<close>, the others the log
  lines from \<open>n\<close> on.\<close>

definition woven :: "string \<Rightarrow> nat \<Rightarrow> bytes \<Rightarrow> bytes \<Rightarrow> nat \<Rightarrow> bool" where
  "woven t n out q n' \<longleftrightarrow> n \<le> n' \<and>
     (\<exists>ls. split_lines out = (ls, []) \<and> concat (smp_lines ls) = q \<and> log_lines ls = map (said_line t) [n..<n'])"

lemma woven_start: "woven t n [] [] n"
  by (simp add: woven_def)

lemma smp_lines_append [simp]: "smp_lines (ls @ ls') = smp_lines ls @ smp_lines ls'"
  and log_lines_append [simp]: "log_lines (ls @ ls') = log_lines ls @ log_lines ls'"
  by (simp_all add: smp_lines_def log_lines_def)

lemma woven_said:
  assumes "woven t n out q n'" and "log_text t"
  shows "woven t n (out @ said_line t n' @ [13, 10]) q (Suc n')"
proof -
  obtain ls where ls: "split_lines out = (ls, [])" "concat (smp_lines ls) = q" "log_lines ls = map (said_line t) [n..<n']"
    and le: "n \<le> n'" using assms(1) by (auto simp: woven_def)
  have "split_lines (said_line t n' @ [13, 10]) = ([said_line t n' @ [13]], [])"
    using split_lines_line [OF said_line(1) [OF assms(2), of n'], of "[]"] by simp
  then have "split_lines (out @ said_line t n' @ [13, 10]) = (ls @ [said_line t n' @ [13]], [])"
    using split_lines_append [OF ls(1), of "said_line t n' @ [13, 10]"] by simp
  with ls le said_line [OF assms(2), of n'] show ?thesis by (auto simp: woven_def)
qed

lemma marked_lines_smp:
  "smp_lines (marked_lines first cs) = map (\<lambda>l. l @ [10]) (marked_lines first cs) \<and> log_lines (marked_lines first cs) = []"
  by (induction first cs rule: marked_lines.induct)
    (auto simp: is_smp_line_def SMP_MARKER_START_def SMP_MARKER_CONT_def MARKER_START_def MARKER_CONT_def)

lemma woven_answered:
  assumes "woven t n out q n'" and "answered L wire" and "base64_engine (lib_b64 L) (lib_unb64 L)"
  shows "woven t n (out @ wire) (q @ wire) n'"
proof (cases "wire = []")
  case False
  then obtain resp m where enc: "encode (lib_crc L) (lib_b64 L) resp m = Inr wire"
    using assms(2) by (auto simp: answered_def)
  obtain cs where cs: "split_lines wire = (marked_lines True cs, [])"
    using base64_engine.encode_lines [OF assms(3) enc] by blast
  obtain ls' where "split_lines wire = (ls', [])" "wire = concat (map (\<lambda>l. l @ [10]) ls')"
    using base64_engine.encode_stream [OF assms(3) enc] by blast
  with cs have wire: "concat (map (\<lambda>l. l @ [10]) (marked_lines True cs)) = wire" by simp
  obtain ls where ls: "split_lines out = (ls, [])" "concat (smp_lines ls) = q" "log_lines ls = map (said_line t) [n..<n']"
    and le: "n \<le> n'" using assms(1) by (auto simp: woven_def)
  have "split_lines (out @ wire) = (ls @ marked_lines True cs, [])"
    using split_lines_append [OF ls(1), of wire] cs by simp
  with ls le wire marked_lines_smp [of True cs] show ?thesis by (auto simp: woven_def)
qed (use assms(1) in simp)

subsection \<open>Chattering and quiet, turn by turn\<close>

text \<open>A turn of the loop after the application has spoken, with the turns that follow it.\<close>

definition pop_byte ::
    "libs \<Rightarrow> (serving \<Rightarrow> (codec_error + serving) option) \<Rightarrow> serving \<Rightarrow> bytes \<Rightarrow> (codec_error + serving) option" where
  "pop_byte L later st bs =
     (case serve_byte L (st\<lparr>se_pending := tl bs\<rparr>) (hd bs) of
        None \<Rightarrow> None | Some (Inl e) \<Rightarrow> Some (Inl e) | Some (Inr st') \<Rightarrow> later st')"

definition take_turn ::
    "libs \<Rightarrow> (serving \<Rightarrow> (codec_error + serving) option) \<Rightarrow> serving \<Rightarrow> pipe_read \<Rightarrow> (codec_error + serving) option" where
  "take_turn L later st r =
     (if se_pending st \<noteq> [] then pop_byte L later st (se_pending st)
      else if r = Got [] \<or> r = PipeFailed then later (host_gone st)
      else case r of Got bs \<Rightarrow> pop_byte L later st bs | _ \<Rightarrow> later st)"

lemma serve_turn:
  assumes "speak now (se_server st) = (said, s)"
  shows "serve L st ((now, r) # script) =
    take_turn L (\<lambda>st'. serve L st' script) (st\<lparr>se_server := s, se_out := se_out st @ said\<rparr>) r"
  using assms by (cases "se_pending st"; cases r) (auto simp: take_turn_def pop_byte_def Let_def neq_Nil_conv)

lemma take_turn_woven:
  assumes engine: "base64_engine (lib_b64 L) (lib_unb64 L)" and chat: "sv_chatter (se_server st) = Some t"
    and w: "woven t n (se_out st) q (sv_chatter_seq (se_server st))"
    and run: "take_turn L later st r = Some (Inr st')"
    and later: "\<And>st2 q2. later st2 = Some (Inr st') \<Longrightarrow> sv_chatter (se_server st2) = Some t \<Longrightarrow>
      woven t n (se_out st2) q2 (sv_chatter_seq (se_server st2)) \<Longrightarrow>
      \<exists>q'. later (quiet_board q2 st2) = Some (Inr (quiet_board q' st')) \<and>
        woven t n (se_out st') q' (sv_chatter_seq (se_server st'))"
  shows "\<exists>q'. take_turn L later (quiet_board q st) r = Some (Inr (quiet_board q' st')) \<and>
    woven t n (se_out st') q' (sv_chatter_seq (se_server st'))"
proof -
  have pop: "\<exists>q'. pop_byte L later (quiet_board q st) bs = Some (Inr (quiet_board q' st')) \<and>
      woven t n (se_out st') q' (sv_chatter_seq (se_server st'))"
    if "pop_byte L later st bs = Some (Inr st')" for bs
  proof -
    obtain st2 where st2: "serve_byte L (st\<lparr>se_pending := tl bs\<rparr>) (hd bs) = Some (Inr st2)" "later st2 = Some (Inr st')"
      using \<open>pop_byte L later st bs = _\<close> by (auto simp: pop_byte_def split: option.splits sum.splits)
    obtain wire where wire: "answered L wire" "se_out st2 = se_out st @ wire"
      "serve_byte L (quiet_board q (st\<lparr>se_pending := tl bs\<rparr>)) (hd bs) = Some (Inr (quiet_board (q @ wire) st2))"
      "sv_chatter_seq (se_server st2) = sv_chatter_seq (se_server st)"
      using serve_byte_quiet [OF st2(1), of q, unfolded serving.select_convs serving.update_convs] by auto
    have "quiet_board q (st\<lparr>se_pending := tl bs\<rparr>) = (quiet_board q st)\<lparr>se_pending := tl bs\<rparr>"
      by (simp add: quiet_board_def)
    note byte = wire(3) [unfolded this]
    have "sv_chatter (se_server st2) = Some t" using serve_byte_frame [OF st2(1)] chat by simp
    moreover have "woven t n (se_out st2) (q @ wire) (sv_chatter_seq (se_server st2))"
      using woven_answered [OF w wire(1) engine] unfolding wire(2,4) .
    ultimately show ?thesis using later [OF st2(2), of "q @ wire"] unfolding pop_byte_def byte by simp
  qed
  have gone: "host_gone (quiet_board q st) = quiet_board q (host_gone st)"
    "sv_chatter (se_server (host_gone st)) = Some t"
    "woven t n (se_out (host_gone st)) q (sv_chatter_seq (se_server (host_gone st)))"
    using chat w by (simp_all add: host_gone_def quiet_board_def)
  have pending: "se_pending (quiet_board q st) = se_pending st" by (simp add: quiet_board_def)
  consider "se_pending st \<noteq> []" | "se_pending st = []" "r = Got [] \<or> r = PipeFailed"
    | bs where "se_pending st = []" "r = Got bs" "bs \<noteq> []" | "se_pending st = []" "r = PipeTimedOut \<or> r = PipeInterrupted"
    by (cases r) auto
  then show ?thesis
  proof cases
    case 1
    then show ?thesis using run pop pending by (simp add: take_turn_def)
  next
    case 2
    then show ?thesis using run later [OF _ gone(2,3)] pending gone(1) by (simp add: take_turn_def)
  next
    case (3 bs)
    then show ?thesis using run pop pending by (simp add: take_turn_def)
  next
    case 4
    then show ?thesis using run later [OF _ chat w] pending by (auto simp: take_turn_def)
  qed
qed

lemma serve_woven:
  assumes engine: "base64_engine (lib_b64 L) (lib_unb64 L)" and plain: "log_text t"
  shows "serve L st script = Some (Inr st') \<Longrightarrow> sv_chatter (se_server st) = Some t \<Longrightarrow>
    woven t n (se_out st) q (sv_chatter_seq (se_server st)) \<Longrightarrow>
    \<exists>q'. serve L (quiet_board q st) script = Some (Inr (quiet_board q' st')) \<and>
      woven t n (se_out st') q' (sv_chatter_seq (se_server st'))"
proof (induction script arbitrary: st q)
  case Nil
  then show ?case by auto
next
  case (Cons e script)
  obtain now r where e: "e = (now, r)" by fastforce
  obtain said s where speak: "speak now (se_server st) = (said, s)" by fastforce
  let ?st = "st\<lparr>se_server := s, se_out := se_out st @ said\<rparr>"
  have s: "hush s = hush (se_server st)" "sv_chatter s = Some t"
    using speak Cons.prems(2) by (auto simp: speak_def split: if_splits)
  have w: "woven t n (se_out ?st) q (sv_chatter_seq (se_server ?st))"
    using speak Cons.prems(2,3) woven_said [OF Cons.prems(3) plain]
    by (auto simp: speak_def said_line_def split: if_splits)
  have "take_turn L (\<lambda>st'. serve L st' script) ?st r = Some (Inr st')"
    using Cons.prems(1) unfolding e serve_turn [OF speak] .
  moreover have "serve L (quiet_board q st) (e # script) = take_turn L (\<lambda>st'. serve L st' script) (quiet_board q ?st) r"
  proof -
    have "speak now (se_server (quiet_board q st)) = ([], se_server (quiet_board q st))"
      by (rule speak_quiet) (simp add: quiet_board_def)
    from serve_turn [OF this, of L r script] show ?thesis unfolding e by (simp add: quiet_board_def s(1))
  qed
  ultimately show ?case using take_turn_woven [OF engine _ w, of "\<lambda>st'. serve L st' script" r st'] Cons.IH s(2) by simp
qed

subsection \<open>Properties\<close>

text \<open>C29: on a shared link the demultiplexer hides the log from the client and the client from the log.  Run
  a board whose application writes log lines, each the text and a counter, against any reads, and take
  apart what it wrote, however the bytes reach the reader thread.  What is queued for the SMP client
  is, byte for byte, what the same board without application output would have written, and it
  ends in the same state; the log gets every line the application wrote, whole, once and in order.\<close>
theorem demux_undoes_chatter:
  assumes "base64_engine (lib_b64 L) (lib_unb64 L)" and "log_text t"
    and "sv_chatter (se_server st) = Some t" and "se_out st = []"
    and "serve L st script = Some (Inr st')"
    and "undisturbed reads" and "script_bytes reads = se_out st'"
  shows "\<exists>queued n. pump pump_start reads =
      (\<lparr>pm_line = [], pm_smp = queued, pm_logs = map (said_line t) [sv_chatter_seq (se_server st)..<n]\<rparr>, Polling) \<and>
    serve L (quiet_board [] st) script = Some (Inr (quiet_board (concat queued) st'))"
proof -
  obtain q where quiet: "serve L (quiet_board [] st) script = Some (Inr (quiet_board q st'))"
    and w: "woven t (sv_chatter_seq (se_server st)) (se_out st') q (sv_chatter_seq (se_server st'))"
    using serve_woven [OF assms(1,2,5,3), of "sv_chatter_seq (se_server st)" "[]"] assms(4) by (auto simp: woven_start)
  then obtain ls where ls: "split_lines (se_out st') = (ls, [])" "concat (smp_lines ls) = q"
    "log_lines ls = map (said_line t) [sv_chatter_seq (se_server st)..<sv_chatter_seq (se_server st')]"
    by (auto simp: woven_def)
  have "pump pump_start reads = (\<lparr>pm_line = [], pm_smp = smp_lines ls, pm_logs = log_lines ls\<rparr>, Polling)"
    using pump_routes_from [OF assms(6), of pump_start ls "[]"] ls(1) assms(7) by (simp add: pump_start_def)
  with quiet ls show ?thesis by auto
qed

text \<open>A board that says \<open>hi 0\<close> and answers an echo.\<close>

definition chatting :: "nat \<Rightarrow> nat \<Rightarrow> bytes \<Rightarrow> bytes \<Rightarrow> serving" where
  "chatting next n line out =
     (mock_serving line False)\<lparr>se_server := (se_server (mock_serving line False))
        \<lparr>sv_chatter := Some ''hi'', sv_next_chatter := next, sv_chatter_seq := n\<rparr>, se_out := out\<rparr>"

lemma echo_line:
  "\<exists>s. serve_line echo_libs (se_server (chatting 200 1 [] [])) (butlast echo_wire) =
    Some (Inr (answer_wire echo_libs (Some echo_response)), s)"
proof -
  let ?st = "chatting 200 1 [] []"
  have d: "dispatch echo_libs (se_server ?st) echo_request = Some (Some echo_response, se_server ?st)"
    by (simp add: chatting_def dispatch_def dispatch_payload_def smp_ids echo_libs_def decode_map_def
        get_str_def lookup_def cbor_map_def echo_response_def response_op_def OP_WRITE_def OP_WRITE_RSP_def
        echo_request_def)
  obtain d' where "serve_bytes echo_libs ?st echo_wire = Some (Inr (?st\<lparr>se_server := (se_server ?st)\<lparr>sv_decoder := d'\<rparr>,
      se_out := se_out ?st @ answer_wire echo_libs (Some echo_response)\<rparr>))"
    using request_bytes [OF echo_engine echo_sendable echo_encode _ _ _ d]
    by (auto simp: chatting_def mock_serving_def withheld_def staged_board_def)
  moreover have "echo_wire = butlast echo_wire @ 10 # []" "10 \<notin> set (butlast echo_wire)" by (simp_all add: echo_wire_def)
  ultimately show ?thesis
    using serve_bytes_line [of "butlast echo_wire" echo_libs ?st "[]"]
    by (auto simp: chatting_def mock_serving_def split: option.splits sum.splits prod.splits)
qed

text \<open>Plain bytes go into the line buffer, one per turn.\<close>

lemma plain_turns:
  "10 \<notin> set p \<Longrightarrow> now < sv_next_chatter (se_server st) \<Longrightarrow> se_pending st = p @ q \<Longrightarrow>
    serve L st (replicate (length p) (now, PipeTimedOut) @ script) =
      serve L (st\<lparr>se_line := se_line st @ p, se_pending := q\<rparr>) script"
proof (induction p arbitrary: st)
  case Nil
  then show ?case by (cases st) simp
next
  case (Cons b p)
  have "speak now (se_server st) = ([], se_server st)" using Cons.prems(2) by (simp add: speak_def split: option.splits)
  then have "serve L st (replicate (length (b # p)) (now, PipeTimedOut) @ script) =
      serve L (st\<lparr>se_line := se_line st @ [b], se_pending := p @ q\<rparr>) (replicate (length p) (now, PipeTimedOut) @ script)"
    using Cons.prems(1,3) by (cases st) (simp add: serve_turn take_turn_def pop_byte_def serve_byte_def)
  then show ?case using Cons.IH [of "st\<lparr>se_line := se_line st @ [b], se_pending := p @ q\<rparr>"] Cons.prems by simp
qed

definition chat_script :: "(nat \<times> pipe_read) list" where
  "chat_script = (0, Got echo_wire) # replicate (length (tl (butlast echo_wire))) (0, PipeTimedOut) @ [(0, PipeTimedOut)]"

lemma chat_run:
  "\<exists>st'. serve echo_libs (chatting 0 0 [] []) chat_script = Some (Inr st') \<and>
    se_out st' = said_line ''hi'' 0 @ [13, 10] @ answer_wire echo_libs (Some echo_response)"
proof -
  obtain s where line: "serve_line echo_libs (se_server (chatting 200 1 [] [])) (butlast echo_wire) =
    Some (Inr (answer_wire echo_libs (Some echo_response)), s)" using echo_line by blast
  let ?st = "(chatting 200 1 [6] (said_line ''hi'' 0 @ [13, 10]))\<lparr>se_pending := tl (butlast echo_wire) @ [10]\<rparr>"
  have wire: "echo_wire = 6 # tl (butlast echo_wire) @ [10]" "10 \<notin> set (tl (butlast echo_wire))"
    "butlast echo_wire = 6 # tl (butlast echo_wire)"
    by (simp_all add: echo_wire_def)
  have "speak 0 (se_server (chatting 0 0 [] [])) = (said_line ''hi'' 0 @ [13, 10], se_server (chatting 200 1 [] []))"
    by (simp add: speak_def chatting_def said_line_def CHATTER_EVERY_def)
  then have "serve echo_libs (chatting 0 0 [] []) chat_script =
      serve echo_libs ?st (replicate (length (tl (butlast echo_wire))) (0, PipeTimedOut) @ [(0, PipeTimedOut)])"
    unfolding chat_script_def by (subst wire(1)) (simp add: serve_turn take_turn_def pop_byte_def serve_byte_def chatting_def mock_serving_def)
  also have "\<dots> = serve echo_libs (?st\<lparr>se_line := se_line ?st @ tl (butlast echo_wire), se_pending := [10]\<rparr>) [(0, PipeTimedOut)]"
    by (rule plain_turns) (use wire in \<open>simp_all add: chatting_def\<close>)
  also have "\<dots> = Some (Inr (?st\<lparr>se_line := [], se_pending := [], se_server := s,
      se_out := said_line ''hi'' 0 @ [13, 10] @ answer_wire echo_libs (Some echo_response)\<rparr>))"
  proof -
    have "speak 0 (se_server (chatting 200 1 [6] x)) = ([], se_server (chatting 200 1 [6] x))" for x
      by (simp add: speak_def chatting_def)
    with line show ?thesis
      by (simp add: serve_turn take_turn_def pop_byte_def serve_byte_def wire(3) [symmetric])
        (simp add: chatting_def mock_serving_def Let_def wire(3) [symmetric])
  qed
  finally show ?thesis by auto
qed

theorem demux_undoes_chatter_witness:
  "\<exists>st' queued n. pump pump_start [(False, True, Data (se_out st'))] =
      (\<lparr>pm_line = [], pm_smp = queued, pm_logs = map (said_line ''hi'') [0..<n]\<rparr>, Polling) \<and>
    serve echo_libs (quiet_board [] (chatting 0 0 [] [])) chat_script = Some (Inr (quiet_board (concat queued) st'))"
proof -
  obtain st' where st': "serve echo_libs (chatting 0 0 [] []) chat_script = Some (Inr st')"
    "se_out st' = said_line ''hi'' 0 @ [13, 10] @ answer_wire echo_libs (Some echo_response)" using chat_run by blast
  have "log_text ''hi''" by (simp add: log_text_def is_smp_line_def SMP_MARKER_START_def SMP_MARKER_CONT_def)
  moreover have "undisturbed [(False, True, Data (se_out st'))]" by (simp add: undisturbed_def st'(2) said_line_def)
  moreover have "sv_chatter (se_server (chatting 0 0 [] [])) = Some ''hi''" "se_out (chatting 0 0 [] []) = []"
    "sv_chatter_seq (se_server (chatting 0 0 [] [])) = 0" by (simp_all add: chatting_def)
  ultimately show ?thesis
    using demux_undoes_chatter [OF echo_engine _ _ _ st'(1), of "''hi''" "[(False, True, Data (se_out st'))]"]
    by (intro exI [of _ st']) (simp del: pump.simps)
qed

end
