(* ===== verification/Serial_Port.thy ===== *)
theory Serial_Port
  imports Demux "HOL-Library.AList"
begin

text \<open>
  Serial channels (\<open>crates/runtt-transport/src/usb.rs\<close>) and the two ends of the demultiplexer that holds
  one (\<open>LogDemux::with_sink\<close> and \<open>Drop\<close>, \<open>crates/runtt-smp/src/demux.rs\<close>).  The crate \<open>serialport\<close> is the record
  \<open>serial_lib\<close> of the calls made on it; what is relied on is the locale \<open>tty_service\<close>: a terminal carries an
  exclusive flag that refuses every open and goes only when its last handle is closed, and a read
  timeout belongs to one handle.
\<close>


record 'w serial_lib =
  sl_open_native :: "string \<Rightarrow> nat \<Rightarrow> nat \<Rightarrow> 'w \<Rightarrow> (string + int) \<times> 'w"   \<comment> \<open>path, baud rate, timeout\<close>
  sl_set_exclusive :: "int \<Rightarrow> bool \<Rightarrow> 'w \<Rightarrow> (string + unit) \<times> 'w"
  sl_read :: "int \<Rightarrow> nat \<Rightarrow> 'w \<Rightarrow> (string + bytes) \<times> 'w"
  sl_write :: "int \<Rightarrow> bytes \<Rightarrow> 'w \<Rightarrow> (string + nat) \<times> 'w"
  sl_flush :: "int \<Rightarrow> 'w \<Rightarrow> (string + unit) \<times> 'w"
  sl_try_clone :: "int \<Rightarrow> 'w \<Rightarrow> (string + int) \<times> 'w"
  sl_set_timeout :: "int \<Rightarrow> nat \<Rightarrow> 'w \<Rightarrow> (string + unit) \<times> 'w"
  sl_name :: "int \<Rightarrow> 'w \<Rightarrow> string option \<times> 'w"
  sl_pair :: "'w \<Rightarrow> (string + int \<times> int) \<times> 'w"
  sl_close :: "int \<Rightarrow> 'w \<Rightarrow> 'w"                                        \<comment> \<open>dropping the port\<close>

record channel =
  ch_port :: int
  ch_name :: string

datatype serial_error =
    OpenPort string string          \<comment> \<open>the path, and what the crate reports\<close>
  | ClearExclusive string string
  | DuplicatePort string string
  | SetPortTimeout string string
  | AllocatePty string

subsection \<open>Operations\<close>

definition from_port :: "int \<Rightarrow> string \<Rightarrow> channel" where
  "from_port port name = \<lparr>ch_port = port, ch_name = name\<rparr>"

text \<open>A channel that is not returned is dropped, and closes its port.\<close>

definition serial_open :: "'w serial_lib \<Rightarrow> string \<Rightarrow> nat \<Rightarrow> nat \<Rightarrow> 'w \<Rightarrow> (serial_error + channel) \<times> 'w" where
  "serial_open L path baud timeout w =
     (case sl_open_native L path baud timeout w of
        (Inl e, w1) \<Rightarrow> (Inl (OpenPort path e), w1)
      | (Inr port, w1) \<Rightarrow>
          (case sl_set_exclusive L port False w1 of
             (Inl e, w2) \<Rightarrow> (Inl (ClearExclusive path e), sl_close L port w2)
           | (Inr _, w2) \<Rightarrow> (Inr (from_port port path), w2)))"

definition serial_read :: "'w serial_lib \<Rightarrow> channel \<Rightarrow> nat \<Rightarrow> 'w \<Rightarrow> (string + bytes) \<times> 'w" where
  "serial_read L ch n = sl_read L (ch_port ch) n"

definition serial_write :: "'w serial_lib \<Rightarrow> channel \<Rightarrow> bytes \<Rightarrow> 'w \<Rightarrow> (string + nat) \<times> 'w" where
  "serial_write L ch bs = sl_write L (ch_port ch) bs"

definition serial_flush :: "'w serial_lib \<Rightarrow> channel \<Rightarrow> 'w \<Rightarrow> (string + unit) \<times> 'w" where
  "serial_flush L ch = sl_flush L (ch_port ch)"

definition serial_describe :: "channel \<Rightarrow> string" where
  "serial_describe ch = ch_name ch"

definition serial_try_clone :: "'w serial_lib \<Rightarrow> channel \<Rightarrow> 'w \<Rightarrow> (serial_error + channel) \<times> 'w" where
  "serial_try_clone L ch w =
     (case sl_try_clone L (ch_port ch) w of
        (Inl e, w') \<Rightarrow> (Inl (DuplicatePort (ch_name ch) e), w')
      | (Inr port, w') \<Rightarrow> (Inr \<lparr>ch_port = port, ch_name = ch_name ch\<rparr>, w'))"

definition serial_set_timeout :: "'w serial_lib \<Rightarrow> channel \<Rightarrow> nat \<Rightarrow> 'w \<Rightarrow> (serial_error + unit) \<times> 'w" where
  "serial_set_timeout L ch timeout w =
     (case sl_set_timeout L (ch_port ch) timeout w of
        (Inl e, w') \<Rightarrow> (Inl (SetPortTimeout (ch_name ch) e), w')
      | (Inr _, w') \<Rightarrow> (Inr (), w'))"

definition unwrap_or :: "'a option \<Rightarrow> 'a \<Rightarrow> 'a" where
  "unwrap_or r fallback = (case r of None \<Rightarrow> fallback | Some a \<Rightarrow> a)"

definition pty_pair :: "'w serial_lib \<Rightarrow> 'w \<Rightarrow> (serial_error + channel \<times> channel) \<times> 'w" where
  "pty_pair L w =
     (case sl_pair L w of
        (Inl e, w1) \<Rightarrow> (Inl (AllocatePty e), w1)
      | (Inr (host, dev), w1) \<Rightarrow>
          let w2 = snd (sl_set_exclusive L host False w1);
              w3 = snd (sl_set_exclusive L dev False w2);
              (host_name, w4) = sl_name L host w3;
              (dev_name, w5) = sl_name L dev w4
          in (Inr (from_port host (unwrap_or host_name ''pty-host''),
                   from_port dev (unwrap_or dev_name ''pty-device'')), w5))"

text \<open>Taking a channel over, and letting it go: the reader thread owns the channel and closes it when it ends;
  \<open>drop\<close> asks it to stop and joins it, then the writer goes.  \<open>r\<close> and \<open>d\<close> are the reader's and the client's
  state of \<open>Demux\<close>.\<close>

record demux_handle =
  dh_reader :: channel
  dh_writer :: channel
  dh_client :: log_demux

definition demux_open :: "'w serial_lib \<Rightarrow> channel \<Rightarrow> nat \<Rightarrow> 'w \<Rightarrow> (serial_error + demux_handle) \<times> 'w" where
  "demux_open L ch timeout w =
     (case serial_try_clone L ch w of
        (Inl e, w1) \<Rightarrow> (Inl e, sl_close L (ch_port ch) w1)
      | (Inr copy, w1) \<Rightarrow>
          (case serial_set_timeout L ch POLL w1 of
             (Inl e, w2) \<Rightarrow> (Inl e, sl_close L (ch_port ch) (sl_close L (ch_port copy) w2))
           | (Inr _, w2) \<Rightarrow>
               (Inr \<lparr>dh_reader = ch, dh_writer = copy,
                     dh_client = \<lparr>dx_queue = [], dx_connected = True, dx_pending = [], dx_timeout = timeout\<rparr>\<rparr>, w2)))"

definition demux_write :: "'w serial_lib \<Rightarrow> demux_handle \<Rightarrow> bytes \<Rightarrow> 'w \<Rightarrow> (string + nat) \<times> 'w" where
  "demux_write L h bs = serial_write L (dh_writer h) bs"

definition demux_flush :: "'w serial_lib \<Rightarrow> demux_handle \<Rightarrow> 'w \<Rightarrow> (string + unit) \<times> 'w" where
  "demux_flush L h = serial_flush L (dh_writer h)"

text \<open>The reader may be inside one read, with the result \<open>turn\<close>, when the flag goes up; it looks at the flag
  before the next.\<close>

definition demux_drop ::
    "'w serial_lib \<Rightarrow> demux_handle \<Rightarrow> pump_state \<Rightarrow> (bool \<times> read_result) option \<Rightarrow> 'w
      \<Rightarrow> (pump_state \<times> pump_status) \<times> 'w" where
  "demux_drop L h p turn w =
     (let reading = (case turn of None \<Rightarrow> [] | Some (alive, r) \<Rightarrow> [(False, alive, r)]);
          ended = pump p (reading @ [(True, True, ReadTimedOut)]);
          w1 = sl_close L (ch_port (dh_reader h)) w
      in (ended, sl_close L (ch_port (dh_writer h)) w1))"

lemma reader_ends: "snd (fst (demux_drop L h p turn w)) \<noteq> Polling"
  by (auto simp: demux_drop_def Let_def split: option.split read_result.split prod.split)

subsection \<open>Ports in use\<close>

text \<open>Any number of processes and channels.  \<open>ln_opening\<close>: the ports inside \<open>SerialChannel::open\<close>, between the two
  calls; \<open>ln_left\<close>: the terminals on which such an open was cut short, by a failure of the second call or
  by the death of the process.\<close>

record 'w lines =
  ln_world :: 'w
  ln_opening :: "int \<Rightarrow> string option"
  ln_left :: "string set"

inductive serial_use :: "'w serial_lib \<Rightarrow> ('w \<Rightarrow> string \<Rightarrow> bool) \<Rightarrow> 'w lines \<Rightarrow> bool"
  for L :: "'w serial_lib" and flagged :: "'w \<Rightarrow> string \<Rightarrow> bool" where
  begin_use: "(\<And>t. \<not> flagged w t) \<Longrightarrow>
    serial_use L flagged \<lparr>ln_world = w, ln_opening = Map.empty, ln_left = {}\<rparr>"
| open_begins: "serial_use L flagged s \<Longrightarrow> sl_open_native L path baud ms (ln_world s) = (Inr p, w') \<Longrightarrow>
    serial_use L flagged (s\<lparr>ln_world := w', ln_opening := (ln_opening s)(p \<mapsto> path)\<rparr>)"
| open_refused: "serial_use L flagged s \<Longrightarrow> sl_open_native L path baud ms (ln_world s) = (Inl e, w') \<Longrightarrow>
    serial_use L flagged (s\<lparr>ln_world := w'\<rparr>)"
| open_ends: "serial_use L flagged s \<Longrightarrow> ln_opening s p = Some path \<Longrightarrow>
    sl_set_exclusive L p False (ln_world s) = (Inr u, w') \<Longrightarrow>
    serial_use L flagged (s\<lparr>ln_world := w', ln_opening := (ln_opening s)(p := None)\<rparr>)"
| open_fails: "serial_use L flagged s \<Longrightarrow> ln_opening s p = Some path \<Longrightarrow>
    sl_set_exclusive L p False (ln_world s) = (Inl e, w') \<Longrightarrow>
    serial_use L flagged (s\<lparr>ln_world := sl_close L p w', ln_opening := (ln_opening s)(p := None),
      ln_left := insert path (ln_left s)\<rparr>)"
| open_killed: "serial_use L flagged s \<Longrightarrow> ln_opening s p = Some path \<Longrightarrow>
    serial_use L flagged (s\<lparr>ln_world := sl_close L p (ln_world s), ln_opening := (ln_opening s)(p := None),
      ln_left := insert path (ln_left s)\<rparr>)"
| clones: "serial_use L flagged s \<Longrightarrow> sl_try_clone L p (ln_world s) = (r, w') \<Longrightarrow>
    serial_use L flagged (s\<lparr>ln_world := w'\<rparr>)"
| retimes: "serial_use L flagged s \<Longrightarrow> sl_set_timeout L p ms (ln_world s) = (r, w') \<Longrightarrow>
    serial_use L flagged (s\<lparr>ln_world := w'\<rparr>)"
| closes: "serial_use L flagged s \<Longrightarrow> ln_opening s p = None \<Longrightarrow>
    serial_use L flagged (s\<lparr>ln_world := sl_close L p (ln_world s)\<rparr>)"

definition flag_inv ::
    "('w \<Rightarrow> string \<Rightarrow> bool) \<Rightarrow> ('w \<Rightarrow> int \<Rightarrow> string option) \<Rightarrow> 'w lines \<Rightarrow> bool" where
  "flag_inv flagged holds s \<longleftrightarrow>
     (\<forall>p t. ln_opening s p = Some t \<longrightarrow> holds (ln_world s) p = Some t) \<and>
     (\<forall>t. flagged (ln_world s) t \<longrightarrow> t \<in> ln_left s \<or> (\<exists>p. ln_opening s p = Some t))"

lemma flag_inv_other:
  "flag_inv flagged holds s \<Longrightarrow> flagged (ln_world s) t \<Longrightarrow> ln_opening s p \<noteq> Some t \<Longrightarrow>
    t \<in> ln_left s \<or> (\<exists>q. q \<noteq> p \<and> ln_opening s q = Some t)"
  unfolding flag_inv_def by metis

subsection \<open>Terminals\<close>

text \<open>The laws of the serial library over a terminal's exclusive flag, the open handles and their
  timeouts.  That an open which fails leaves the flag as it was is an idealisation: it takes the crate
  to set the flag last, or to undo it.\<close>

locale tty_service =
  fixes L :: "'w serial_lib"
    and flagged :: "'w \<Rightarrow> string \<Rightarrow> bool"              \<comment> \<open>\<open>TIOCEXCL\<close>\<close>
    and holds :: "'w \<Rightarrow> int \<Rightarrow> string option"
    and waits :: "'w \<Rightarrow> int \<Rightarrow> nat"
  assumes opened: "sl_open_native L path baud timeout w = (Inr p, w') \<Longrightarrow>
      \<not> flagged w path \<and> holds w p = None \<and> holds w' = (holds w)(p \<mapsto> path) \<and>
      flagged w' = (flagged w)(path := True) \<and> waits w' = (waits w)(p := timeout)"
    and not_opened: "sl_open_native L path baud timeout w = (Inl e, w') \<Longrightarrow>
      holds w' = holds w \<and> flagged w' = flagged w \<and> waits w' = waits w"
    and released: "sl_set_exclusive L p False w = (Inr u, w') \<Longrightarrow> holds w p = Some tty \<Longrightarrow>
      holds w' = holds w \<and> flagged w' = (flagged w)(tty := False) \<and> waits w' = waits w"
    and not_released: "sl_set_exclusive L p False w = (Inl e, w') \<Longrightarrow>
      holds w' = holds w \<and> flagged w' = flagged w \<and> waits w' = waits w"
    and cloned: "sl_try_clone L p w = (Inr q, w') \<Longrightarrow>
      holds w q = None \<and> holds w' = (holds w)(q := holds w p) \<and> flagged w' = flagged w \<and>
      waits w' = (waits w)(q := waits w p)"
    and not_cloned: "sl_try_clone L p w = (Inl e, w') \<Longrightarrow>
      holds w' = holds w \<and> flagged w' = flagged w \<and> waits w' = waits w"
    and timed: "sl_set_timeout L p ms w = (Inr v, w') \<Longrightarrow>
      holds w' = holds w \<and> flagged w' = flagged w \<and> waits w' = (waits w)(p := ms)"
    and not_timed: "sl_set_timeout L p ms w = (Inl e, w') \<Longrightarrow>
      holds w' = holds w \<and> flagged w' = flagged w \<and> waits w' = waits w"
    and closed: "holds (sl_close L p w) = (holds w)(p := None)"
      "flagged (sl_close L p w) tty \<longleftrightarrow> flagged w tty \<and> (\<exists>q. holds (sl_close L p w) q = Some tty)"
begin

text \<open>\<open>open\<close>, on both of its ends.\<close>

lemma open_effect:
  assumes "serial_open L path baud timeout w = (r, w')"
  shows "case r of
      Inr ch \<Rightarrow> ch_name ch = path \<and> \<not> flagged w path \<and> holds w (ch_port ch) = None \<and>
        holds w' = (holds w)(ch_port ch \<mapsto> path) \<and> flagged w' = flagged w \<and> waits w' (ch_port ch) = timeout
    | Inl e \<Rightarrow> holds w' = holds w"
proof -
  obtain o1 w1 where op: "sl_open_native L path baud timeout w = (o1, w1)" by fastforce
  show ?thesis
  proof (cases o1)
    case (Inl e)
    with assms op not_opened show ?thesis by (auto simp: serial_open_def)
  next
    case (Inr p)
    note o = opened [OF op [unfolded Inr]]
    obtain o2 w2 where ex: "sl_set_exclusive L p False w1 = (o2, w2)" by fastforce
    show ?thesis
    proof (cases o2)
      case (Inl e)
      have "(holds w)(p := None) = holds w" using o by (simp add: fun_upd_idem)
      with assms op Inr ex Inl o closed(1) not_released [OF ex [unfolded Inl]] show ?thesis
        by (auto simp: serial_open_def)
    next
      fix u
      assume u: "o2 = Inr u"
      have "(flagged w)(path := False) = flagged w" using o by (simp add: fun_upd_idem)
      with assms op Inr ex u o released [OF ex [unfolded u], of path] show ?thesis
        by (auto simp: serial_open_def from_port_def)
    qed
  qed
qed

text \<open>A demultiplexer holds the line twice, each handle with a timeout of its own, or not at all.\<close>

lemma demux_effect:
  assumes "demux_open L ch timeout w = (r, w')" and "holds w (ch_port ch) = Some tty"
  shows "case r of
      Inr h \<Rightarrow> dh_reader h = ch \<and> ch_port (dh_writer h) \<noteq> ch_port ch \<and> holds w (ch_port (dh_writer h)) = None \<and>
        holds w' = (holds w)(ch_port (dh_writer h) \<mapsto> tty) \<and>
        waits w' (ch_port ch) = POLL \<and> waits w' (ch_port (dh_writer h)) = waits w (ch_port ch)
    | Inl e \<Rightarrow> holds w' = (holds w)(ch_port ch := None)"
proof -
  obtain o1 w1 where dup: "sl_try_clone L (ch_port ch) w = (o1, w1)" by fastforce
  show ?thesis
  proof (cases o1)
    case (Inl e)
    with assms dup not_cloned closed(1) show ?thesis by (auto simp: demux_open_def serial_try_clone_def)
  next
    case (Inr q)
    note c = cloned [OF dup [unfolded Inr]]
    with assms(2) have ne: "q \<noteq> ch_port ch" by auto
    obtain o2 w2 where tm: "sl_set_timeout L (ch_port ch) POLL w1 = (o2, w2)" by fastforce
    show ?thesis
    proof (cases o2)
      case (Inl e)
      have "(holds w)(q := None) = holds w" using c by (simp add: fun_upd_idem)
      with assms dup Inr tm Inl c closed(1) not_timed [OF tm [unfolded Inl]] ne show ?thesis
        by (auto simp: demux_open_def serial_try_clone_def serial_set_timeout_def fun_upd_twist)
    next
      fix u
      assume u: "o2 = Inr u"
      with assms dup Inr tm c timed [OF tm [unfolded u]] ne show ?thesis
        by (auto simp: demux_open_def serial_try_clone_def serial_set_timeout_def)
    qed
  qed
qed

lemma serial_use_inv: "serial_use L flagged s \<Longrightarrow> flag_inv flagged holds s"
proof (induction rule: serial_use.induct)
  case (begin_use w)
  then show ?case by (simp add: flag_inv_def)
next
  case (open_begins s path baud ms p w')
  note o = opened [OF open_begins.hyps(2)]
  then have free: "ln_opening s p = None"
    using open_begins.IH by (cases "ln_opening s p") (auto simp: flag_inv_def)
  have "t \<in> ln_left s \<or> (\<exists>q. q \<noteq> p \<and> ln_opening s q = Some t)" if "flagged (ln_world s) t" for t
    by (rule flag_inv_other [OF open_begins.IH that]) (simp add: free)
  then show ?case using o open_begins.IH by (fastforce simp: flag_inv_def)
next
  case (open_refused s path baud ms e w')
  with not_opened [OF open_refused.hyps(2)] show ?case by (simp add: flag_inv_def)
next
  case (open_ends s p path u w')
  have "holds (ln_world s) p = Some path" using open_ends.IH open_ends.hyps(2) by (simp add: flag_inv_def)
  note r = released [OF open_ends.hyps(3) this]
  have "t \<in> ln_left s \<or> (\<exists>q. q \<noteq> p \<and> ln_opening s q = Some t)" if "flagged (ln_world s) t" "t \<noteq> path" for t
    using flag_inv_other [OF open_ends.IH that(1), of p] open_ends.hyps(2) that(2) by simp
  with open_ends.IH r show ?case by (fastforce simp: flag_inv_def)
next
  case (open_fails s p path e w')
  note n = not_released [OF open_fails.hyps(3)]
  have "t \<in> insert path (ln_left s) \<or> (\<exists>q. q \<noteq> p \<and> ln_opening s q = Some t)" if "flagged (ln_world s) t" for t
    using flag_inv_other [OF open_fails.IH that, of p] open_fails.hyps(2) by (cases "t = path") auto
  with open_fails.IH n show ?case by (fastforce simp: flag_inv_def closed)
next
  case (open_killed s p path)
  have "t \<in> insert path (ln_left s) \<or> (\<exists>q. q \<noteq> p \<and> ln_opening s q = Some t)" if "flagged (ln_world s) t" for t
    using flag_inv_other [OF open_killed.IH that, of p] open_killed.hyps(2) by (cases "t = path") auto
  with open_killed.IH show ?case by (fastforce simp: flag_inv_def closed)
next
  case (clones s p r w')
  show ?case
  proof (cases r)
    case (Inl e)
    with clones not_cloned show ?thesis by (auto simp: flag_inv_def)
  next
    case (Inr q)
    with clones cloned [OF clones.hyps(2) [unfolded Inr]] show ?thesis
      by (auto simp: flag_inv_def)
  qed
next
  case (retimes s p ms r w')
  then show ?case
    by (cases r) (auto simp: flag_inv_def dest!: timed not_timed)
next
  case (closes s p)
  then show ?case by (auto simp: flag_inv_def closed)
qed

text \<open>\<open>SerialChannel::open\<close> is one of these steps, or two.\<close>

lemma open_steps:
  assumes used: "serial_use L flagged s" and run: "serial_open L path baud timeout (ln_world s) = (r, w')"
  obtains s' where "serial_use L flagged s'" "ln_world s' = w'" "ln_opening s' = ln_opening s"
    "ln_left s' = (case r of Inl (ClearExclusive _ _) \<Rightarrow> insert path (ln_left s) | _ \<Rightarrow> ln_left s)"
proof -
  obtain o1 w1 where op: "sl_open_native L path baud timeout (ln_world s) = (o1, w1)" by fastforce
  show thesis
  proof (cases o1)
    case (Inl e)
    with run op have "r = Inl (OpenPort path e)" "w' = w1" by (simp_all add: serial_open_def)
    with that open_refused [OF used op [unfolded Inl]] show thesis by simp
  next
    case (Inr p)
    let ?s = "s\<lparr>ln_world := w1, ln_opening := (ln_opening s)(p \<mapsto> path)\<rparr>"
    have half: "serial_use L flagged ?s" by (rule open_begins [OF used op [unfolded Inr]])
    have "ln_opening s p = None"
      using serial_use_inv [OF used] opened [OF op [unfolded Inr]] by (cases "ln_opening s p") (auto simp: flag_inv_def)
    then have undone: "((ln_opening s)(p \<mapsto> path))(p := None) = ln_opening s" by (simp add: fun_upd_idem)
    obtain o2 w2 where ex: "sl_set_exclusive L p False w1 = (o2, w2)" by fastforce
    show thesis
    proof (cases o2)
      case (Inl e)
      with run op Inr ex have "r = Inl (ClearExclusive path e)" "w' = sl_close L p w2" by (simp_all add: serial_open_def)
      with that open_fails [OF half, of p path e w2] ex Inl undone show thesis by simp
    next
      fix u
      assume u: "o2 = Inr u"
      with run op Inr ex have "r = Inr (from_port p path)" "w' = w2" by (simp_all add: serial_open_def)
      with that open_ends [OF half, of p path u w2] ex u undone show thesis by simp
    qed
  qed
qed

end

subsection \<open>A table of terminals\<close>

record tty_table =
  tt_ports :: "(int \<times> string \<times> nat) list"
  tt_flags :: "string list"

definition tty_of :: "tty_table \<Rightarrow> int \<Rightarrow> string option" where
  "tty_of w p = map_option fst (map_of (tt_ports w) p)"

definition timeout_of :: "tty_table \<Rightarrow> int \<Rightarrow> nat" where
  "timeout_of w p = (case map_of (tt_ports w) p of None \<Rightarrow> 0 | Some (t, ms) \<Rightarrow> ms)"

definition tty_flagged :: "tty_table \<Rightarrow> string \<Rightarrow> bool" where
  "tty_flagged w t \<longleftrightarrow> t \<in> set (tt_flags w)"

definition free_port :: "tty_table \<Rightarrow> int" where
  "free_port w = int (sum_list (map (\<lambda>e. nat \<bar>fst e\<bar>) (tt_ports w))) + 1"

definition set_port :: "int \<Rightarrow> string \<times> nat \<Rightarrow> tty_table \<Rightarrow> tty_table" where
  "set_port p e w = w\<lparr>tt_ports := AList.update p e (tt_ports w)\<rparr>"

definition table_lib :: "tty_table serial_lib" where
  "table_lib =
    \<lparr>sl_open_native = (\<lambda>path baud ms w.
       if path \<in> set (tt_flags w) then (Inl ''Device or resource busy'', w)
       else (Inr (free_port w), (set_port (free_port w) (path, ms) w)\<lparr>tt_flags := path # tt_flags w\<rparr>)),
     sl_set_exclusive = (\<lambda>p b w. case tty_of w p of
         None \<Rightarrow> (Inl ''Bad file descriptor'', w)
       | Some t \<Rightarrow> (Inr (), w\<lparr>tt_flags := (if b then t # tt_flags w else removeAll t (tt_flags w))\<rparr>)),
     sl_read = (\<lambda>p n w. (Inl ''Operation timed out'', w)), sl_write = (\<lambda>p bs w. (Inr (length bs), w)),
     sl_flush = (\<lambda>p w. (Inr (), w)),
     sl_try_clone = (\<lambda>p w. case map_of (tt_ports w) p of
         None \<Rightarrow> (Inl ''Bad file descriptor'', w) | Some e \<Rightarrow> (Inr (free_port w), set_port (free_port w) e w)),
     sl_set_timeout = (\<lambda>p ms w. case tty_of w p of
         None \<Rightarrow> (Inl ''Bad file descriptor'', w) | Some t \<Rightarrow> (Inr (), set_port p (t, ms) w)),
     sl_name = (\<lambda>p w. (tty_of w p, w)), sl_pair = (\<lambda>w. (Inl ''no pty left'', w)),
     sl_close = (\<lambda>p w. let ports = AList.delete p (tt_ports w)
       in w\<lparr>tt_ports := ports,
            tt_flags := filter (\<lambda>t. list_ex (\<lambda>(q, _). map_option fst (map_of ports q) = Some t) ports) (tt_flags w)\<rparr>)\<rparr>"

lemma free_port_fresh: "map_of (tt_ports w) (free_port w) = None"
proof -
  have "fst e \<noteq> free_port w" if "e \<in> set (tt_ports w)" for e
  proof -
    have "nat \<bar>fst e\<bar> \<le> sum_list (map (\<lambda>e. nat \<bar>fst e\<bar>) (tt_ports w))"
      by (rule member_le_sum_list) (use that in simp_all)
    then show ?thesis unfolding free_port_def by linarith
  qed
  then show ?thesis by (fastforce simp: map_of_eq_None_iff)
qed

lemma table_simps [simp]:
  "tty_of (set_port p (t, ms) w) = (tty_of w)(p \<mapsto> t)" "timeout_of (set_port p (t, ms) w) = (timeout_of w)(p := ms)"
  "tty_flagged (set_port p e w) = tty_flagged w" "tty_of (w\<lparr>tt_flags := fs\<rparr>) = tty_of w"
  "timeout_of (w\<lparr>tt_flags := fs\<rparr>) = timeout_of w" "tty_flagged (w\<lparr>tt_flags := fs\<rparr>) = (\<lambda>t. t \<in> set fs)"
  "tty_of w (free_port w) = None" "tt_flags (set_port p e w) = tt_flags w"
  by (auto simp: tty_of_def timeout_of_def tty_flagged_def set_port_def update_conv' free_port_fresh)

interpretation table_ttys: tty_service table_lib tty_flagged tty_of timeout_of
proof
  show "tty_of (sl_close table_lib p w) = (tty_of w)(p := None)" for p w
    by (rule ext) (simp add: table_lib_def Let_def tty_of_def delete_conv)
  show "tty_flagged (sl_close table_lib p w) tty \<longleftrightarrow>
      tty_flagged w tty \<and> (\<exists>q. tty_of (sl_close table_lib p w) q = Some tty)" for p w tty
    by (auto simp: table_lib_def Let_def tty_of_def tty_flagged_def list_ex_iff dest: map_of_SomeD)
qed (auto simp: table_lib_def tty_flagged_def tty_of_def timeout_of_def free_port_fresh split: if_splits option.splits)

subsection \<open>Properties\<close>


text \<open>C31: the port is free again when the demultiplexer has been dropped.  Taking a channel over leaves two
  handles on its line, the reader's polling and the client's as before, or none; \<open>drop\<close> returns whatever
  the reader is doing, and then neither is open, so that the reconnect after a deploy can open the line.\<close>
theorem demux_releases_port:
  assumes "tty_service L flagged holds waits" and "demux_open L ch timeout w = (r, w')"
    and "holds w (ch_port ch) = Some tty"
  shows "case r of
      Inl e \<Rightarrow> holds w' = (holds w)(ch_port ch := None)
    | Inr h \<Rightarrow> holds w' (ch_port (dh_reader h)) = Some tty \<and> holds w' (ch_port (dh_writer h)) = Some tty \<and>
        waits w' (ch_port (dh_reader h)) = POLL \<and> waits w' (ch_port (dh_writer h)) = waits w (ch_port ch) \<and>
        (\<forall>p turn. snd (fst (demux_drop L h p turn w')) \<noteq> Polling \<and>
          holds (snd (demux_drop L h p turn w')) = (holds w)(ch_port ch := None))"
proof (cases r)
  case (Inl e)
  with tty_service.demux_effect [OF assms] show ?thesis by simp
next
  case (Inr h)
  note e = tty_service.demux_effect [OF assms, unfolded Inr sum.case]
  have "holds (snd (demux_drop L h p turn w')) = (holds w)(ch_port ch := None)" for p turn
    using e tty_service.closed(1) [OF assms(1)] by (auto simp: demux_drop_def Let_def)
  with Inr e assms(3) show ?thesis by (auto simp: reader_ends)
qed

subsection \<open>Witnesses\<close>


definition open_table :: "string list \<Rightarrow> tty_table" where
  "open_table flags = \<lparr>tt_ports = [(1, ''/dev/ttyACM0'', 10000)], tt_flags = flags\<rparr>"



theorem demux_releases_port_witness:
  "\<exists>h w'. demux_open table_lib (from_port 1 ''/dev/ttyACM0'') 10000 (open_table []) = (Inr h, w') \<and>
    timeout_of w' (ch_port (dh_reader h)) = 250 \<and>
    tty_of (snd (demux_drop table_lib h pump_start None w')) = Map.empty"
proof -
  obtain h w' where run: "demux_open table_lib (from_port 1 ''/dev/ttyACM0'') 10000 (open_table []) = (Inr h, w')"
    by (simp add: demux_open_def serial_try_clone_def serial_set_timeout_def table_lib_def open_table_def from_port_def
        tty_of_def set_port_def update_conv')
  have "(tty_of (open_table []))(1 := None) = Map.empty" "tty_of (open_table []) 1 = Some ''/dev/ttyACM0''"
    by (auto simp: open_table_def tty_of_def)
  with demux_releases_port [OF table_ttys.tty_service_axioms run] run show ?thesis
    by (auto simp: from_port_def POLL_def)
qed

end
