(* ===== verification/Log_Channel.thy ===== *)
theory Log_Channel
  imports Can_Transport Serial_Port Flash
begin

text \<open>
  The thread that prints the log channel: \<open>pump_logs\<close> of \<open>crates/runtt/src/flash.rs\<close> from opening the
  channel on either bearer to its last read, and the end of the thread in \<open>stay_resident\<close>.  \<open>Can_Transport\<close>
  has the loop over what the reads return, \<open>Serial_Port\<close> and \<open>Can_Transport\<close> have the two streams.
\<close>

definition LOG_TIMEOUT :: nat where "LOG_TIMEOUT = 3600 * 1000"

text \<open>The capacity of a \<open>BufReader\<close>.\<close>

definition BUFFER_SIZE :: nat where "BUFFER_SIZE = 8192"

datatype log_stream = SerialLog channel | CanLog can_log_reader

datatype log_error = NoSerialLog serial_error | NoCanLog string nat can_error

definition log_open :: "'w serial_lib \<Rightarrow> 'w sockets \<Rightarrow> log_source_kind \<Rightarrow> 'w \<Rightarrow> (log_error + log_stream) \<times> 'w" where
  "log_open L K source w =
     (case source of
        LogSerial path \<Rightarrow>
          (case serial_open L path BAUD LOG_TIMEOUT w of
             (Inl e, w1) \<Rightarrow> (Inl (NoSerialLog e), w1)
           | (Inr ch, w1) \<Rightarrow> (Inr (SerialLog ch), w1))
      | LogCan iface ident \<Rightarrow>
          (case can_log_open K iface (of_nat ident) LOG_TIMEOUT w of
             (Inl e, w1) \<Rightarrow> (Inl (NoCanLog iface ident e), w1)
           | (Inr r, w1) \<Rightarrow> (Inr (CanLog r), w1)))"

text \<open>One read of the \<open>BufReader\<close>; \<open>kind\<close> is the kind of an error of the crate \<open>serialport\<close>.\<close>

definition log_read ::
    "'w serial_lib \<Rightarrow> 'w sockets \<Rightarrow> (string \<Rightarrow> read_kind) \<Rightarrow> log_stream \<Rightarrow> 'w \<Rightarrow> chunk \<times> log_stream \<times> 'w" where
  "log_read L K kind stream w =
     (case stream of
        SerialLog ch \<Rightarrow>
          (case serial_read L ch BUFFER_SIZE w of
             (Inl e, w1) \<Rightarrow> (Failed (kind e), stream, w1)
           | (Inr bs, w1) \<Rightarrow> (Chunk bs, stream, w1))
      | CanLog r \<Rightarrow>
          (case can_log_read K BUFFER_SIZE r w of
             (Inl e, r', w1) \<Rightarrow> (Failed (if e = EINTR then KInterrupted else KOther), CanLog r', w1)
           | (Inr bs, r', w1) \<Rightarrow> (Chunk bs, CanLog r', w1)))"

definition log_close :: "'w serial_lib \<Rightarrow> 'w sockets \<Rightarrow> log_stream \<Rightarrow> 'w \<Rightarrow> 'w" where
  "log_close L K stream w =
     (case stream of SerialLog ch \<Rightarrow> sl_close L (ch_port ch) w | CanLog r \<Rightarrow> snd (sk_close K (lr_fd r) w))"

text \<open>The loop over its next \<open>k\<close> reads: it has ended before, or is still waiting.\<close>

fun log_loop ::
    "'w serial_lib \<Rightarrow> 'w sockets \<Rightarrow> (string \<Rightarrow> read_kind) \<Rightarrow> nat \<Rightarrow> log_pump \<Rightarrow> log_stream \<Rightarrow> 'w
      \<Rightarrow> log_pump \<times> log_end \<times> 'w" where
  "log_loop L K kind 0 p stream w = (p, LogWaiting, w)"
| "log_loop L K kind (Suc k) p stream w =
     (case log_read L K kind stream w of
        (c, stream', w1) \<Rightarrow>
          (case pump_logs p [c] of
             (p', LogWaiting) \<Rightarrow> log_loop L K kind k p' stream' w1
           | (p', ending) \<Rightarrow> (p', ending, log_close L K stream' w1)))"

text \<open>What the thread printed, and the error it reports on its way out.\<close>

definition log_thread ::
    "'w serial_lib \<Rightarrow> 'w sockets \<Rightarrow> (string \<Rightarrow> read_kind) \<Rightarrow> nat \<Rightarrow> log_source_kind \<Rightarrow> 'w
      \<Rightarrow> (log_error + log_pump \<times> log_end) \<times> 'w" where
  "log_thread L K kind k source w =
     (case log_open L K source w of
        (Inl e, w1) \<Rightarrow> (Inl e, w1)
      | (Inr stream, w1) \<Rightarrow>
          (case log_loop L K kind k \<lparr>lp_line = [], lp_out = []\<rparr> stream w1 of
             (p, ending, w2) \<Rightarrow> (Inr (p, ending), w2)))"

subsection \<open>The loop and the script of its reads\<close>

text \<open>What the bearer gives, read by read.\<close>

fun bearer_reads ::
    "'w serial_lib \<Rightarrow> 'w sockets \<Rightarrow> (string \<Rightarrow> read_kind) \<Rightarrow> log_stream \<Rightarrow> nat \<Rightarrow> 'w \<Rightarrow> chunk list \<times> 'w" where
  "bearer_reads L K kind stream 0 w = ([], w)"
| "bearer_reads L K kind stream (Suc k) w =
     (case (case stream of
              SerialLog ch \<Rightarrow> apfst (\<lambda>r. case r of Inl e \<Rightarrow> Failed (kind e) | Inr bs \<Rightarrow> Chunk bs) (sl_read L (ch_port ch) BUFFER_SIZE w)
            | CanLog r \<Rightarrow> apfst can_chunk (sk_read_frame K (lr_fd r) w)) of
        (c, w1) \<Rightarrow> apfst ((#) c) (bearer_reads L K kind stream k w1))"

text \<open>A reader between two frames.\<close>

fun drained :: "log_stream \<Rightarrow> bool" where
  "drained (SerialLog ch) \<longleftrightarrow> True"
| "drained (CanLog r) \<longleftrightarrow> unread r = [] \<and> lr_at r \<le> length (lr_pending r)"

fun same_bearer :: "log_stream \<Rightarrow> log_stream \<Rightarrow> bool" where
  "same_bearer (SerialLog ch) (SerialLog ch') \<longleftrightarrow> ch' = ch"
| "same_bearer (CanLog r) (CanLog r') \<longleftrightarrow> lr_fd r' = lr_fd r"
| "same_bearer _ _ \<longleftrightarrow> False"

definition frames_fit :: "'w sockets \<Rightarrow> bool" where
  "frames_fit K \<longleftrightarrow> (\<forall>fd w f w'. sk_read_frame K fd w = (Inr f, w') \<longrightarrow> length (frame_data f) = 8)"

lemma bearer_reads_same: "same_bearer stream stream' \<Longrightarrow> bearer_reads L K kind stream' = bearer_reads L K kind stream"
proof (intro ext)
  fix k w assume "same_bearer stream stream'"
  then show "bearer_reads L K kind stream' k w = bearer_reads L K kind stream k w"
    by (induction k arbitrary: w) (cases stream; cases stream'; auto split: prod.split)+
qed

lemma log_read_bearer:
  assumes "drained stream" and "frames_fit K" and "bearer_reads L K kind stream (Suc 0) w = ([c], w')"
  shows "\<exists>stream'. log_read L K kind stream w = (c, stream', w') \<and> drained stream' \<and> same_bearer stream stream'"
proof (cases stream)
  case (SerialLog ch)
  with assms(3) show ?thesis
    by (auto simp: log_read_def serial_read_def split: prod.splits sum.splits)
next
  case (CanLog r)
  obtain a w1 where read: "sk_read_frame K (lr_fd r) w = (a, w1)" by fastforce
  with assms(3) CanLog have [simp]: "w' = w1" "c = can_chunk a" by auto
  have "8 \<le> BUFFER_SIZE" by (simp add: BUFFER_SIZE_def)
  from can_log_read_chunk [OF _ _ this read] assms(1,2) CanLog read obtain r' where
    "can_log_read K BUFFER_SIZE r w = (map_sum id frame_payload a, r', w1)" "unread r' = []" "lr_at r' \<le> length (lr_pending r')"
    unfolding frames_fit_def by fastforce
  moreover have "lr_fd r' = lr_fd r"
    using calculation(1) by (auto simp: can_log_read_def Let_def split: if_splits sum.splits prod.splits)
  ultimately show ?thesis using CanLog by (cases a) (auto simp: log_read_def can_chunk_def)
qed

text \<open>The loop does with the reads what \<open>pump_logs\<close> does with their script.\<close>

lemma pump_logs_step:
  "pump_logs p (c # script) =
    (case pump_logs p [c] of (p', LogWaiting) \<Rightarrow> pump_logs p' script | r \<Rightarrow> r)"
proof (cases c)
  case (Chunk bs)
  then show ?thesis by (simp split: prod.split)
next
  case (Failed e)
  then show ?thesis by (cases e) simp_all
qed

lemma log_loop_script:
  assumes "frames_fit K"
  shows "drained stream \<Longrightarrow> bearer_reads L K kind stream k w = (script, w') \<Longrightarrow> pump_logs p script = (p', ending) \<Longrightarrow>
    \<exists>w''. log_loop L K kind k p stream w = (p', ending, w'') \<and> (ending = LogWaiting \<longrightarrow> w'' = w')"
proof (induction k arbitrary: p stream w script)
  case (Suc k)
  obtain c w1 where one: "bearer_reads L K kind stream (Suc 0) w = ([c], w1)"
    by (auto simp: prod_eq_iff split: prod.split)
  then obtain script' where rest: "bearer_reads L K kind stream k w1 = (script', w')" and script: "script = c # script'"
    using Suc.prems(2) by (auto simp: prod_eq_iff split: prod.splits)
  obtain stream' where read: "log_read L K kind stream w = (c, stream', w1)" "drained stream'" "same_bearer stream stream'"
    using log_read_bearer [OF Suc.prems(1) assms one] by blast
  obtain p1 e1 where step: "pump_logs p [c] = (p1, e1)" by fastforce
  show ?case
  proof (cases "e1 = LogWaiting")
    case True
    have "pump_logs p1 script' = (p', ending)"
      using Suc.prems(3) step True by (simp add: script pump_logs_step [of p c script'])
    moreover have "bearer_reads L K kind stream' k w1 = (script', w')" using rest by (simp add: bearer_reads_same [OF read(3)])
    ultimately show ?thesis using Suc.IH [OF read(2)] True step read(1) by simp
  next
    case False
    then have "(p', ending) = (p1, e1)"
      using Suc.prems(3) step by (cases e1) (simp_all add: script pump_logs_step [of p c script'])
    with False read(1) step show ?thesis by (cases e1) simp_all
  qed
qed simp

lemma log_open_drained: "log_open L K source w = (Inr stream, w') \<Longrightarrow> drained stream"
  by (auto simp: log_open_def can_log_open_def closing_def unread_def
      split: log_source_kind.splits sum.splits prod.splits if_splits)

subsection \<open>What the reads amount to\<close>

text \<open>The bytes between two events of the stream, and the event: the end of the stream, an expired timeout, an
  error, or none yet.  Interruptions do not count.\<close>

datatype span_end = Holds | Expires | Ends | Breaks

fun spans :: "bytes \<Rightarrow> chunk list \<Rightarrow> (bytes \<times> span_end) list" where
  "spans bs [] = [(bs, Holds)]"
| "spans bs (Chunk new # script) = (if new = [] then (bs, Ends) # spans [] script else spans (bs @ new) script)"
| "spans bs (Failed KTimedOut # script) = (bs, Expires) # spans [] script"
| "spans bs (Failed KInterrupted # script) = spans bs script"
| "spans bs (Failed KOther # script) = [(bs, Breaks)]"

text \<open>The lines of a span are printed, up to the first that is not UTF-8, which ends the thread.  What follows the
  last newline is held, dropped by a timeout, printed as a line of its own at the end of the stream, where the
  thread only stops if there is nothing of it.\<close>

fun log_of :: "bytes list \<Rightarrow> (bytes \<times> span_end) list \<Rightarrow> log_pump \<times> log_end" where
  "log_of out [] = (\<lparr>lp_line = [], lp_out = out\<rparr>, LogWaiting)"
| "log_of out ((bs, e) # further) =
     (case split_lines bs of
        (ls, rest) \<Rightarrow>
          let out' = out @ map strip_cr (takeWhile utf8_line ls) in
          if \<not> list_all utf8_line ls then (\<lparr>lp_line = [], lp_out = out'\<rparr>, LogBadUtf8)
          else
            (case e of
               Holds \<Rightarrow> (\<lparr>lp_line = rest, lp_out = out'\<rparr>, LogWaiting)
             | Expires \<Rightarrow> log_of out' further
             | Breaks \<Rightarrow> (\<lparr>lp_line = rest, lp_out = out'\<rparr>, LogReadFailed)
             | Ends \<Rightarrow>
                 if rest = [] then (\<lparr>lp_line = [], lp_out = out'\<rparr>, LogClosed)
                 else if utf8_line rest then log_of (out' @ [rest]) further
                 else (\<lparr>lp_line = [], lp_out = out'\<rparr>, LogBadUtf8)))"

lemma spans_first: "\<exists>new e further. \<forall>bs. spans bs script = (bs @ new, e) # further"
proof (induction script)
  case (Cons c script)
  then obtain new e further where rest: "\<And>bs. spans bs script = (bs @ new, e) # further" by blast
  show ?case
  proof (cases c)
    case (Chunk b)
    show ?thesis
    proof (cases "b = []")
      case True
      with Chunk show ?thesis by (intro exI [of _ "[]"] exI [of _ Ends] exI [of _ "spans [] script"]) simp
    next
      case False
      with Chunk rest show ?thesis by (intro exI [of _ "b @ new"] exI [of _ e] exI [of _ further]) simp
    qed
  next
    case (Failed k)
    show ?thesis
    proof (cases k)
      case KTimedOut
      with Failed show ?thesis by (intro exI [of _ "[]"] exI [of _ Expires] exI [of _ "spans [] script"]) simp
    next
      case KInterrupted
      with Failed rest show ?thesis by simp
    next
      case KOther
      with Failed show ?thesis by (intro exI [of _ "[]"] exI [of _ Breaks] exI [of _ "[]"]) simp
    qed
  qed
qed (intro exI [of _ "[]"] exI [of _ Holds], simp)

lemma takeWhile_utf8: "list_all utf8_line ls \<Longrightarrow> takeWhile utf8_line ls = ls"
  by (simp add: list_all_iff)

text \<open>The complete lines of a span can be printed before the rest of it has come.\<close>

lemma log_of_early:
  assumes "split_lines bs = (ls, rest)"
  shows "log_of out (spans bs script) =
    (if list_all utf8_line ls then log_of (out @ map strip_cr ls) (spans rest script)
     else (\<lparr>lp_line = [], lp_out = out @ map strip_cr (takeWhile utf8_line ls)\<rparr>, LogBadUtf8))"
proof -
  obtain new e further where first: "\<And>bs. spans bs script = (bs @ new, e) # further" using spans_first by blast
  obtain ls2 rest2 where later: "split_lines (rest @ new) = (ls2, rest2)" by fastforce
  have whole: "split_lines (bs @ new) = (ls @ ls2, rest2)"
    using split_lines_append [OF assms, of new] later by simp
  show ?thesis
  proof (cases "list_all utf8_line ls")
    case True
    then have "takeWhile utf8_line (ls @ ls2) = ls @ takeWhile utf8_line ls2" by (simp add: list_all_iff)
    with True show ?thesis by (cases e) (simp_all add: first whole later Let_def)
  next
    case False
    then obtain l where "l \<in> set ls" "\<not> utf8_line l" by (auto simp: list_all_iff)
    then have "takeWhile utf8_line (ls @ ls2) = takeWhile utf8_line ls" by (rule takeWhile_append1)
    with False show ?thesis by (simp add: first whole Let_def)
  qed
qed

lemma pump_logs_spans:
  "10 \<notin> set (lp_line p) \<Longrightarrow> pump_logs p script = log_of (lp_out p) (spans (lp_line p) script)"
proof (induction p script rule: pump_logs.induct)
  case (1 p)
  then show ?case by (cases p) (simp add: split_lines_no_newline)
next
  case (2 p bs script)
  show ?case
  proof (cases "bs = []")
    case True
    with 2 show ?thesis by (cases p) (auto simp: split_lines_no_newline Let_def)
  next
    case False
    obtain ls rest where split: "split_lines (lp_line p @ bs) = (ls, rest)" by fastforce
    note line = log_bytes_split [OF 2(3) split]
    have "10 \<notin> set rest" by (rule split_lines_rest_no_newline [OF split])
    with False line 2(2) [OF False] log_of_early [OF split, of "lp_out p" script] show ?thesis by auto
  qed
next
  case (3 p script)
  then show ?case by (simp add: split_lines_no_newline Let_def)
next
  case (5 p script)
  then show ?case by (cases p) (simp add: split_lines_no_newline Let_def)
qed simp

subsection \<open>Properties\<close>

text \<open>C33: what the log thread prints of what the reads return.  On either bearer and whatever its reads return, from
  opening the channel on: the bytes between two events of the stream are printed as their lines, however they were
  cut into reads and however often a read was interrupted; an expired timeout drops the line begun, and the end of
  the stream prints it and goes on; a line that is not UTF-8, any other error and an end of stream with nothing begun
  end the thread, with the lines before printed.  (A frame without payload is such an end; and what the kernel
  did not deliver was not read.)\<close>
theorem log_thread_prints:
  assumes "frames_fit K" and "log_open L K source w = (Inr stream, w1)"
    and "bearer_reads L K kind stream k w1 = (script, w2)"
  shows "\<exists>w3. log_thread L K kind k source w = (Inr (log_of [] (spans [] script)), w3) \<and>
    (snd (log_of [] (spans [] script)) = LogWaiting \<longrightarrow> w3 = w2)"
proof -
  obtain p ending where ref: "log_of [] (spans [] script) = (p, ending)" by fastforce
  then have "pump_logs \<lparr>lp_line = [], lp_out = []\<rparr> script = (p, ending)"
    using pump_logs_spans [of "\<lparr>lp_line = [], lp_out = []\<rparr>" script] by simp
  from log_loop_script [OF assms(1) log_open_drained [OF assms(2)] assms(3) this] assms(2) ref show ?thesis
    by (auto simp: log_thread_def)
qed

subsection \<open>Witness\<close>

text \<open>A bus on which these frames are delivered, on a host without serial ports.\<close>

definition bus :: "can_frame list sockets" where
  "bus = \<lparr>sk_if_nametoindex = (\<lambda>name w. (if name = ''can0'' then Inr 3 else Inl 19, w)),
     sk_socket = (\<lambda>family kind protocol w. (Inr 5, w)), sk_bind = (\<lambda>fd addr w. (Inr (), w)),
     sk_setsockopt = (\<lambda>fd level name opt w. (Inr (), w)), sk_read = (\<lambda>fd n w. (Inl EAGAIN, w)),
     sk_read_frame = (\<lambda>fd w. case w of [] \<Rightarrow> (Inl EINTR, []) | f # w' \<Rightarrow>
       (if length (frame_data f) = 8 then Inr f else Inl EINTR, w')),
     sk_write = (\<lambda>fd bs w. (Inr (length bs), w)), sk_close = (\<lambda>fd w. ((), w))\<rparr>"

definition no_serial :: "can_frame list serial_lib" where
  "no_serial = \<lparr>sl_open_native = (\<lambda>path baud ms w. (Inl ''no such device'', w)),
     sl_set_exclusive = (\<lambda>p b w. (Inl ''closed'', w)), sl_read = (\<lambda>p n w. (Inl ''closed'', w)),
     sl_write = (\<lambda>p bs w. (Inl ''closed'', w)), sl_flush = (\<lambda>p w. (Inl ''closed'', w)),
     sl_try_clone = (\<lambda>p w. (Inl ''closed'', w)), sl_set_timeout = (\<lambda>p ms w. (Inl ''closed'', w)),
     sl_name = (\<lambda>p w. (None, w)), sl_pair = (\<lambda>w. (Inl ''no pty left'', w)), sl_close = (\<lambda>p w. w)\<rparr>"

text \<open>Two lines in three frames, then one of no payload: the end.\<close>

lemma log_thread_prints_witness:
  "\<exists>w. log_thread no_serial bus (\<lambda>_. KOther) 4 (LogCan ''can0'' 0x44)
      [text_frame 0x44 [104, 105, 13, 10, 111], text_frame 0x44 [107, 10], text_frame 0x44 [], text_frame 0x44 [120]] =
    (Inr (\<lparr>lp_line = [], lp_out = [[104, 105], [111, 107]]\<rparr>, LogClosed), w)"
proof -
  let ?frames = "[text_frame 0x44 [104, 105, 13, 10, 111], text_frame 0x44 [107, 10], text_frame 0x44 [], text_frame 0x44 [120]]"
  have fit: "frames_fit bus"
    by (auto simp: frames_fit_def bus_def split: list.splits if_splits)
  have op: "log_open no_serial bus (LogCan ''can0'' 0x44) ?frames =
      (Inr (CanLog \<lparr>lr_fd = 5, lr_pending = [], lr_at = 0\<rparr>), ?frames)"
    by (simp add: log_open_def can_log_open_def closing_def if_nametoindex_def set_read_timeout_def bus_def)
  let ?script = "[Chunk [104, 105, 13, 10, 111], Chunk [107, 10], Chunk [], Chunk [120]]"
  have reads: "bearer_reads no_serial bus (\<lambda>_. KOther) (CanLog \<lparr>lr_fd = 5, lr_pending = [], lr_at = 0\<rparr>) 4 ?frames = (?script, [])"
  proof -
    have "bearer_reads no_serial bus (\<lambda>_. KOther) (CanLog \<lparr>lr_fd = 5, lr_pending = [], lr_at = 0\<rparr>) (Suc (Suc (Suc (Suc 0)))) ?frames =
        (?script, [])"
      by (simp add: bus_def can_chunk_def text_frame_def frame_payload_def EINTR_def)
    then show ?thesis by (simp add: eval_nat_numeral)
  qed
  have "log_of [] (spans [] ?script) = (\<lparr>lp_line = [], lp_out = [[104, 105], [111, 107]]\<rparr>, LogClosed)"
    by (simp add: utf8_line_def strip_cr_def Let_def)
  with log_thread_prints [OF fit op reads] show ?thesis by auto
qed

end
