(* ===== verification/Describe.thy ===== *)
theory Describe
  imports Server Flash
begin

text \<open>
  The describe command (\<open>crates/runtt-smp/src/describe.rs\<close>) from the request to the record: what \<open>McuMgrCommand\<close>
  says of it, and the deserialisation derived for \<open>Describe\<close>, against the board of \<open>Server\<close> that answers it.
  The exchange itself is \<open>mcumgr-toolkit\<close>; CBOR is \<open>ciborium\<close>.
\<close>

subsection \<open>The command\<close>

definition CMD_DESCRIBE :: byte where "CMD_DESCRIBE = 0"

record command_type =
  ct_write :: bool          \<comment> \<open>\<open>is_write_operation\<close>\<close>
  ct_group :: u16
  ct_command :: byte
  ct_data :: cbor

definition describe_command :: command_type where
  "describe_command = \<lparr>ct_write = False, ct_group = GROUP_PERUSER, ct_command = CMD_DESCRIBE, ct_data = Map []\<rparr>"

text \<open>The request the toolkit makes of a command.\<close>

definition request_of :: "(cbor \<Rightarrow> bytes) \<Rightarrow> byte \<Rightarrow> command_type \<Rightarrow> frame" where
  "request_of cenc seq_no t =
     \<lparr>fr_op = (if ct_write t then OP_WRITE else OP_READ), fr_version = 1, fr_flags = 0, fr_group = ct_group t,
      fr_seq = seq_no, fr_cmd = ct_command t, fr_payload = cenc (ct_data t)\<rparr>"

subsection \<open>Deserialisation\<close>

datatype field_error = MissingField string | DuplicateField string | WrongType string

text \<open>A field that occurs twice is refused, one the type does not have is ignored.\<close>

definition field_values :: "(cbor \<times> cbor) list \<Rightarrow> string \<Rightarrow> cbor list" where
  "field_values m key = map snd (filter (\<lambda>(k, _). k = Text key) m)"

definition field :: "(cbor \<Rightarrow> 'a option) \<Rightarrow> field_error + 'a \<Rightarrow> (cbor \<times> cbor) list \<Rightarrow> string \<Rightarrow> field_error + 'a" where
  "field read absent m key =
     (case field_values m key of
        [] \<Rightarrow> absent
      | [v] \<Rightarrow> ok_or (WrongType key) (read v)
      | _ \<Rightarrow> Inl (DuplicateField key))"

definition required :: "(cbor \<Rightarrow> 'a option) \<Rightarrow> (cbor \<times> cbor) list \<Rightarrow> string \<Rightarrow> field_error + 'a" where
  "required read m key = field read (Inl (MissingField key)) m key"

text \<open>\<open>#[serde(default)]\<close> on an \<open>Option\<close>; \<open>is_null\<close> tells the null among the values that are not named.\<close>

definition optional ::
    "(nat \<Rightarrow> bool) \<Rightarrow> (cbor \<Rightarrow> 'a option) \<Rightarrow> (cbor \<times> cbor) list \<Rightarrow> string \<Rightarrow> field_error + 'a option" where
  "optional is_null read m key =
     field (\<lambda>v. case v of OtherValue n \<Rightarrow> (if is_null n then Some None else map_option Some (read v))
                        | _ \<Rightarrow> map_option Some (read v)) (Inr None) m key"

fun as_text :: "cbor \<Rightarrow> string option" where
  "as_text (Text t) = Some t" | "as_text _ = None"

fun as_bool :: "cbor \<Rightarrow> bool option" where
  "as_bool (Bool b) = Some b" | "as_bool _ = None"

fun as_u32 :: "cbor \<Rightarrow> nat option" where
  "as_u32 (Integer i) = (if 0 \<le> i \<and> i < 2 ^ 32 then Some (nat i) else None)" | "as_u32 _ = None"

definition decode_describe :: "(nat \<Rightarrow> bool) \<Rightarrow> (cbor \<times> cbor) list \<Rightarrow> field_error + describe" where
  "decode_describe is_null m =
     bind_result (required as_text m ''contract'') (\<lambda>contract.
     bind_result (required as_text m ''board'') (\<lambda>board.
     bind_result (required as_text m ''app_version'') (\<lambda>app_version.
     bind_result (required as_u32 m ''channels'') (\<lambda>channels.
     bind_result (optional is_null as_bool m ''img'') (\<lambda>img.
     bind_result (optional is_null as_bool m ''idle'') (\<lambda>idle.
     bind_result (optional is_null as_bool m ''app_healthy'') (\<lambda>app_healthy.
     bind_result (optional is_null as_bool m ''provisioned'') (\<lambda>provisioned.
     bind_result (optional is_null as_text m ''serial'') (\<lambda>serial.
     bind_result (optional is_null as_u32 m ''can_node_id'') (\<lambda>can_node_id.
       Inr \<lparr>de_contract = contract, de_board = board, de_app_version = app_version, de_channels = channels,
            de_img = img, de_idle = idle, de_app_healthy = app_healthy, de_provisioned = provisioned,
            de_serial = serial, de_can_node_id = can_node_id\<rparr>))))))))))"

subsection \<open>Properties\<close>

text \<open>What the mock says of itself, read back.\<close>

definition mock_describe :: "string \<Rightarrow> describe" where
  "mock_describe contract =
     \<lparr>de_contract = contract, de_board = ''runtt-mock'', de_app_version = ''0.1.0'', de_channels = 2, de_img = Some True,
      de_idle = Some False, de_app_healthy = None, de_provisioned = None, de_serial = None, de_can_node_id = None\<rparr>"

definition describe_map :: "string \<Rightarrow> (cbor \<times> cbor) list" where
  "describe_map contract =
     [(Text ''contract'', Text contract), (Text ''board'', Text ''runtt-mock''), (Text ''app_version'', Text ''0.1.0''),
      (Text ''channels'', Integer 2), (Text ''img'', Bool True), (Text ''idle'', Bool False)]"

lemma decode_mock: "decode_describe is_null (describe_map contract) = Inr (mock_describe contract)"
  by (simp add: describe_map_def decode_describe_def required_def optional_def field_def field_values_def ok_or_def mock_describe_def)

lemma dispatch_describe:
  "\<exists>resp. dispatch L s (request_of (lib_cenc L) seq_no describe_command) = Some (Some resp, s) \<and>
    fr_op resp = OP_READ_RSP \<and> fr_seq resp = seq_no \<and>
    fr_payload resp = lib_cenc L (Map (describe_map (sv_contract s)))"
  by (simp add: describe_map_def dispatch_def dispatch_payload_def request_of_def describe_command_def smp_ids CMD_DESCRIBE_def
      response_op_def OP_READ_RSP_def cbor_map_def)

text \<open>The host's side, when the toolkit hands on what it deserialised.\<close>

lemma set_limits_ok: "\<exists>s'. set_limits H c timeout retries s = (Inr (), s')"
  by (auto simp: set_limits_def and_then_def perform_def split: prod.split)

lemma client_describe_ok:
  assumes "\<And>w. \<exists>ms w'. h_describe H (cl_inner c) w = (Inr d, ms, w')"
  shows "\<exists>s'. client_describe H c s = (Inr d, s')"
proof -
  obtain ms w' where "h_describe H (cl_inner c) (rt_world s) = (Inr d, ms, w')" using assms by blast
  then show ?thesis by (simp add: client_describe_def in_context_def and_then_def perform_def raise_io_def ok_def)
qed

lemma confirm_verdict:
  assumes "\<And>w. \<exists>ms w'. h_describe H (cl_inner c) w = (Inr d, ms, w')"
  shows "is_ok (fst (confirm_contract_matches H c t)) \<longleftrightarrow> contract_major d = Some CONTRACT_MAJOR"
proof -
  obtain t1 where t1: "set_limits H c PROBE_TIMEOUT 1 t = (Inr (), t1)" using set_limits_ok by blast
  obtain t2 where t2: "client_describe H c t1 = (Inr d, t2)" using client_describe_ok [OF assms] by blast
  obtain t3 where "set_limits H c (cl_timeout c) DEFAULT_RETRIES t2 = (Inr (), t3)" using set_limits_ok by blast
  with t1 t2 show ?thesis
    by (auto simp: confirm_contract_matches_def probe_settings_def and_then_def attempt_def ok_def fail_def is_ok_def
        split: option.splits)
qed

subsection \<open>Properties\<close>

text \<open>C36: the host reads off a board what the board says of itself, and judges it by the major number only.
  The describe command is answered by \<open>Server\<close>, without touching it, and the answer deserialises to the
  contract the server was built with, present fields as they are and absent ones as unknown; a host that
  is handed that record goes on exactly when the contract's first number is the runtime's own.\<close>
theorem describe_reads_board:
  assumes "lib_cdec L (lib_cenc L (Map (describe_map (sv_contract s)))) = Some (Map (describe_map (sv_contract s)))"
    and "dispatch L s (request_of (lib_cenc L) seq_no describe_command) = Some (Some resp, s')"
    and "\<And>w. \<exists>ms w'. h_describe H (cl_inner c) w =
      (map_sum show_error id (decode_describe is_null (decode_map (lib_cdec L) (fr_payload resp))), ms, w')"
  shows "s' = s \<and> fr_op resp = OP_READ_RSP \<and> fr_seq resp = seq_no \<and>
    decode_describe is_null (decode_map (lib_cdec L) (fr_payload resp)) = Inr (mock_describe (sv_contract s)) \<and>
    (is_ok (fst (confirm_contract_matches H c t)) \<longleftrightarrow>
      parse_u32 (hd (split_on (CHR ''.'') (sv_contract s))) = Some CONTRACT_MAJOR)"
proof -
  obtain resp' where "dispatch L s (request_of (lib_cenc L) seq_no describe_command) = Some (Some resp', s)"
    and r: "fr_op resp' = OP_READ_RSP" "fr_seq resp' = seq_no"
      "fr_payload resp' = lib_cenc L (Map (describe_map (sv_contract s)))"
    using dispatch_describe [of L s seq_no] by blast
  with assms(2) have eq: "resp = resp'" "s' = s" by simp_all
  have d: "decode_describe is_null (decode_map (lib_cdec L) (fr_payload resp)) = Inr (mock_describe (sv_contract s))"
    by (simp add: eq r decode_map_def assms(1) decode_mock)
  have "\<exists>ms w'. h_describe H (cl_inner c) w = (Inr (mock_describe (sv_contract s)), ms, w')" for w
    using assms(3) [of w] d by simp
  from confirm_verdict [OF this, of t] d eq r show ?thesis
    by (simp add: contract_major_def mock_describe_def)
qed

definition describe_libs :: libs where
  "describe_libs = echo_libs\<lparr>lib_cenc := (\<lambda>v. [161]), lib_cdec := (\<lambda>bs. Some (Map (describe_map ''2.0.0'')))\<rparr>"

text \<open>A host whose toolkit answers describe and nothing else.\<close>

definition describing_host :: "string + describe \<Rightarrow> unit host" where
  "describing_host answer =
    \<lparr>h_read_file = (\<lambda>path w. (Inl ''not found'', 0, w)), h_open_serial = (\<lambda>path baud ms w. (Inl ''busy'', 0, w)),
     h_demux = (\<lambda>n ms w. (Inl ''closed'', 0, w)), h_open_isotp = (\<lambda>iface node ms w. (Inl ''no such interface'', 0, w)),
     h_close = (\<lambda>n w. ((), 0, w)), h_set_timeout = (\<lambda>n ms w. (Inr (), 0, w)), h_set_retries = (\<lambda>n k w. ((), 0, w)),
     h_auto_frame = (\<lambda>n w. (Inr (), 0, w)), h_echo = (\<lambda>n t w. (Inl ''timeout'', 2000, w)),
     h_describe = (\<lambda>n w. (answer, 3, w)), h_image_state = (\<lambda>n w. (Inl ''timeout'', 2000, w)),
     h_upload = (\<lambda>n img sha w. ((Inl ''timeout'', []), 2000, w)), h_reset = (\<lambda>n w. (Inl ''timeout'', 2000, w)),
     h_set_state = (\<lambda>n h confirm w. (Inl ''timeout'', 2000, w)), h_sleep = (\<lambda>ms w. ((), 0, w)),
     h_stop = (\<lambda>w. (False, 0, w))\<rparr>"

theorem describe_reads_board_witness:
  "\<exists>resp s' H. dispatch describe_libs (se_server (mock_serving [] False))
      (request_of (lib_cenc describe_libs) 7 describe_command) = Some (Some resp, s') \<and> fr_seq resp = 7 \<and>
    decode_describe (\<lambda>n. n = 0) (decode_map (lib_cdec describe_libs) (fr_payload resp)) = Inr (mock_describe ''2.0.0'') \<and>
    is_ok (fst (confirm_contract_matches (H :: unit host) \<lparr>cl_inner = 0, cl_timeout = 10000\<rparr>
      \<lparr>rt_world = (), rt_now = 0, rt_trace = [], rt_opened = 1\<rparr>))"
proof -
  let ?s = "se_server (mock_serving [] False)"
  have contract: "sv_contract ?s = ''2.0.0''" by (simp add: mock_serving_def)
  obtain resp where resp: "dispatch describe_libs ?s (request_of (lib_cenc describe_libs) 7 describe_command) = Some (Some resp, ?s)"
    using dispatch_describe by blast
  let ?H = "describing_host (map_sum (\<lambda>e. ''deserialize error'') id
    (decode_describe (\<lambda>n. n = 0) (decode_map (lib_cdec describe_libs) (fr_payload resp))))"
  have handed: "\<exists>ms w'. h_describe ?H n w = (map_sum (\<lambda>e. ''deserialize error'') id
      (decode_describe (\<lambda>n. n = 0) (decode_map (lib_cdec describe_libs) (fr_payload resp))), ms, w')" for n w
    by (simp add: describing_host_def)
  have two: "parse_u32 (hd (split_on (CHR ''.'') ''2.0.0'')) = Some CONTRACT_MAJOR"
    by (simp add: CONTRACT_MAJOR_def parse_unsigned_def digit_value_def Let_def)
  have "lib_cdec describe_libs (lib_cenc describe_libs (Map (describe_map (sv_contract ?s)))) = Some (Map (describe_map (sv_contract ?s)))"
    by (simp add: describe_libs_def contract)
  from describe_reads_board [OF this resp handed,
      of "\<lparr>cl_inner = 0, cl_timeout = 10000\<rparr>" "\<lparr>rt_world = (), rt_now = 0, rt_trace = [], rt_opened = 1\<rparr>"]
    resp contract two show ?thesis by auto
qed

end
