(* ===== verification/Mock_Main.thy ===== *)
theory Mock_Main
  imports Server Serial_Port
begin

text \<open>
  The emulated board as a process (\<open>crates/runtt-mock/src/main.rs\<close>): its arguments, the pseudo terminal it
  allocates and announces, and the server it runs there.  The pseudo terminal is the crate \<open>serialport\<close>
  (\<open>serial_lib\<close>); the record \<open>mock_os\<close> is what else is called on the system.
\<close>

subsection \<open>Arguments\<close>

datatype fault_arg =
    FaultNone | FaultDisconnectMidUpload | FaultBadHash | FaultRestartUpload | FaultTimeout | FaultRevertOnBoot
  | FaultDigestAlreadyFailed

record mock_args =
  ma_fault :: fault_arg
  ma_after_chunks :: nat
  ma_at_offset :: nat
  ma_timeout_group :: u16
  ma_timeout_cmd :: byte
  ma_symlink :: "string option"
  ma_chatter :: "string option"

definition default_args :: mock_args where
  "default_args = \<lparr>ma_fault = FaultNone, ma_after_chunks = 2, ma_at_offset = 512, ma_timeout_group = 0,
     ma_timeout_cmd = 0, ma_symlink = None, ma_chatter = None\<rparr>"

definition chosen_fault :: "mock_args \<Rightarrow> fault" where
  "chosen_fault a =
     (case ma_fault a of
        FaultNone \<Rightarrow> NoFault
      | FaultDisconnectMidUpload \<Rightarrow> DisconnectMidUpload (ma_after_chunks a)
      | FaultBadHash \<Rightarrow> BadHash
      | FaultRestartUpload \<Rightarrow> RestartUpload (ma_at_offset a)
      | FaultTimeout \<Rightarrow> Timeout (ma_timeout_group a) (ma_timeout_cmd a)
      | FaultRevertOnBoot \<Rightarrow> RevertOnBoot
      | FaultDigestAlreadyFailed \<Rightarrow> DigestAlreadyFailed)"

subsection \<open>Coming up\<close>

record 'w mock_os =
  mo_remove_file :: "string \<Rightarrow> 'w \<Rightarrow> (string + unit) \<times> 'w"
  mo_symlink :: "string \<Rightarrow> string \<Rightarrow> 'w \<Rightarrow> (string + unit) \<times> 'w"    \<comment> \<open>target, link\<close>
  mo_println :: "string \<Rightarrow> 'w \<Rightarrow> 'w"
  mo_flush :: "'w \<Rightarrow> (string + unit) \<times> 'w"
  mo_now :: "'w \<Rightarrow> nat \<times> 'w"

datatype mock_error = PtyPair string | PtyUnnamed | Symlink string string string

text \<open>The stable path, when one is asked for.\<close>

definition link_pty :: "'w mock_os \<Rightarrow> string option \<Rightarrow> string \<Rightarrow> 'w \<Rightarrow> (mock_error + unit) \<times> 'w" where
  "link_pty M symlink slave_path w =
     (case symlink of
        None \<Rightarrow> (Inr (), w)
      | Some link \<Rightarrow>
          let w1 = snd (mo_remove_file M link w)
          in (case mo_symlink M slave_path link w1 of
                (Inl e, w2) \<Rightarrow> (Inl (Symlink link slave_path e), w2)
              | (Inr _, w2) \<Rightarrow> (Inr (), mo_println M (''runtt-mock symlink: '' @ link @ '' -> '' @ slave_path) w2)))"

text \<open>\<open>show_fault\<close> is the derived \<open>Debug\<close>.  \<open>None\<close>: the provisioned image does not parse in finite time.\<close>

definition announce :: "'w mock_os \<Rightarrow> (fault \<Rightarrow> string) \<Rightarrow> string \<Rightarrow> fault \<Rightarrow> 'w \<Rightarrow> 'w" where
  "announce M show_fault slave_path f w =
     (let w1 = mo_println M (''runtt-mock connected to pseudotty: '' @ slave_path) w;
          w2 = mo_println M (''runtt-mock fault: '' @ show_fault f) w1
      in snd (mo_flush M w2))"

definition mock_server ::
    "'w mock_os \<Rightarrow> usize_cfg \<Rightarrow> (bytes \<Rightarrow> bytes) \<Rightarrow> fault \<Rightarrow> string option \<Rightarrow> 'w \<Rightarrow> (server \<times> 'w) option" where
  "mock_server M c sha f chatter w =
     (case mo_now M w of (now, w1) \<Rightarrow>
       (case server_new c sha now f of
          None \<Rightarrow> None
        | Some s \<Rightarrow> Some (case chatter of None \<Rightarrow> s | Some t \<Rightarrow> with_chatter s t, w1)))"

text \<open>\<open>main\<close> up to the loop: the port it serves on, the slave it keeps open, and the server.\<close>

definition mock_main ::
    "'w serial_lib \<Rightarrow> 'w mock_os \<Rightarrow> (fault \<Rightarrow> string) \<Rightarrow> usize_cfg \<Rightarrow> (bytes \<Rightarrow> bytes) \<Rightarrow> mock_args \<Rightarrow> 'w
      \<Rightarrow> ((mock_error + int \<times> int \<times> server) \<times> 'w) option" where
  "mock_main L M show_fault c sha a w =
     (case sl_pair L w of
        (Inl e, w1) \<Rightarrow> Some (Inl (PtyPair e), w1)
      | (Inr (master, slave), w1) \<Rightarrow>
          (case sl_name L slave w1 of
             (None, w2) \<Rightarrow> Some (Inl PtyUnnamed, w2)
           | (Some slave_path, w2) \<Rightarrow>
               (case link_pty M (ma_symlink a) slave_path w2 of
                  (Inl e, w3) \<Rightarrow> Some (Inl e, w3)
                | (Inr _, w3) \<Rightarrow>
                    let f = chosen_fault a;
                        w4 = announce M show_fault slave_path f w3;
                        w5 = snd (sl_set_timeout L master 50 w4)
                    in map_option (\<lambda>(s, w6). (Inr (master, slave, s), w6)) (mock_server M c sha f (ma_chatter a) w5))))"

definition serving_start :: "server \<Rightarrow> serving" where
  "serving_start s = \<lparr>se_server = s, se_line = [], se_pending = [], se_out = []\<rparr>"

lemma mock_main_server:
  assumes "mock_main L M show_fault c sha a w = Some (Inr (master, slave, s), w')"
  obtains now s0 where "server_new c sha now (chosen_fault a) = Some s0"
    "s = (case ma_chatter a of None \<Rightarrow> s0 | Some t \<Rightarrow> with_chatter s0 t)"
  using assms
  by (auto simp: mock_main_def mock_server_def Let_def split: sum.splits prod.splits option.splits)

subsection \<open>Properties\<close>

text \<open>A board that has been announced answers.  Whatever the arguments, the server that \<open>main\<close> runs has the
  fault asked for and a freshly provisioned board; without application output the first request that
  fault does not withhold, sent in any cut, is answered by exactly what the dispatcher answers.\<close>
theorem announced_board_answers:
  assumes "mock_main P M show_fault (lib_cfg L) (lib_sha L) a w = Some (Inr (master, slave, s), w')"
    and "base64_engine (lib_b64 L) (lib_unb64 L)" and "sendable req"
    and "encode (lib_crc L) (lib_b64 L) req m = Inr wire" and "connected script" and "taken [] script = (wire, [])"
    and "ma_chatter a = None" and "\<not> withheld (chosen_fault a) req" and "dispatch L s req = Some (out, s')"
  shows "dev_reachable (lib_cfg L) (lib_sha L) (chosen_fault a) (sv_dev s) \<and>
    (\<exists>st'. serve L (serving_start s) script = Some (Inr st') \<and> se_out st' = answer_wire L out \<and>
      sv_dev (se_server st') = sv_dev s')"
proof -
  obtain now where "server_new (lib_cfg L) (lib_sha L) now (chosen_fault a) = Some s"
    using mock_main_server [OF assms(1)] assms(7) by (metis option.case(1))
  then obtain d where d: "provisioned (lib_cfg L) (lib_sha L) (chosen_fault a) = Some d"
    and s: "sv_dev s = d" "\<not> sv_silent s" "sv_chatter s = None"
    by (auto simp: server_new_def)
  have "dev_fault (sv_dev s) = chosen_fault a" using provisioned_inv [OF d] s(1) by simp
  then show ?thesis
    using serve_request [OF assms(2-5), of "serving_start s" "[]" out s'] assms(6,8,9) s dev_reachable.start [OF d]
    by (auto simp: serving_start_def)
qed

definition one_pty :: "tty_table serial_lib" where
  "one_pty = table_lib\<lparr>sl_pair := (\<lambda>w. (Inr (3, 4), w)), sl_name := (\<lambda>p w. (Some ''/dev/pts/7'', w))\<rparr>"

definition quiet_system :: "tty_table mock_os" where
  "quiet_system = \<lparr>mo_remove_file = (\<lambda>p w. (Inl ''not found'', w)), mo_symlink = (\<lambda>t l w. (Inr (), w)),
     mo_println = (\<lambda>t w. w), mo_flush = (\<lambda>w. (Inr (), w)), mo_now = (\<lambda>w. (0, w))\<rparr>"

theorem announced_board_answers_witness:
  "\<exists>master slave s w' st'. mock_main one_pty quiet_system (\<lambda>f. ''None'') (lib_cfg echo_libs) (lib_sha echo_libs)
      (default_args\<lparr>ma_symlink := Some ''/tmp/board''\<rparr>) bare_table = Some (Inr (master, slave, s), w') \<and>
    serve echo_libs (serving_start s) echo_script = Some (Inr st') \<and>
    se_out st' = answer_wire echo_libs (Some echo_response)"
proof -
  let ?a = "default_args\<lparr>ma_symlink := Some ''/tmp/board''\<rparr>"
  have fault: "chosen_fault ?a = NoFault" "ma_chatter ?a = None" by (simp_all add: chosen_fault_def default_args_def)
  obtain s w' where run: "mock_main one_pty quiet_system (\<lambda>f. ''None'') (lib_cfg echo_libs) (lib_sha echo_libs) ?a bare_table =
      Some (Inr (3, 4, s), w')"
    using fault
    by (auto simp: mock_main_def one_pty_def quiet_system_def link_pty_def default_args_def mock_server_def server_new_def
        factory_provisioned echo_libs_def Let_def)
  have "dispatch echo_libs s echo_request = Some (Some echo_response, s)"
    by (simp add: dispatch_def dispatch_payload_def smp_ids echo_libs_def decode_map_def get_str_def lookup_def cbor_map_def
        echo_response_def response_op_def OP_WRITE_def OP_WRITE_RSP_def echo_request_def)
  with announced_board_answers [OF run echo_engine echo_sendable echo_encode echo_script(1) echo_script(2)] fault run
  show ?thesis by (fastforce simp: withheld_def)
qed

end
