(* ===== verification/Trace.thy ===== *)
theory Trace
  imports System
begin

text \<open>
  Invocation tracing (\<open>crates/runtt/src/trace.rs\<close>, \<open>trace::record\<close>): one line of JSON per event, appended to the
  file named by \<open>--mcu-trace\<close> or \<open>RUNTT_TRACE\<close>; and where the log of \<open>main.rs\<close> goes.  \<open>serde_json\<close> hands the
  formatter its output in pieces, and each piece is a write of its own on the unbuffered file: the
  rendering is the parameter \<open>render\<close>, the list of those pieces.
\<close>

subsection \<open>The path\<close>

text \<open>\<open>TRACE_PATH\<close>, a cell that is set once.\<close>

definition trace_init :: "string option \<Rightarrow> string option \<Rightarrow> string option option \<Rightarrow> string option option" where
  "trace_init flag env cell =
     (let resolved = (case flag of Some p \<Rightarrow> Some p | None \<Rightarrow> env)
      in case cell of None \<Rightarrow> Some resolved | Some _ \<Rightarrow> cell)"

definition trace_path :: "string option option \<Rightarrow> string option" where
  "trace_path cell = (case cell of None \<Rightarrow> None | Some o1 \<Rightarrow> o1)"

subsection \<open>A record\<close>

record trace_event =
  te_event :: string
  te_pid :: nat
  te_ppid :: nat
  te_uid :: nat
  te_argv :: "string list"
  te_cwd :: "string option"
  te_extra :: "(string \<times> string) list"

record 'w trace_os =
  to_process :: "'w \<Rightarrow> nat \<times> nat \<times> nat \<times> string option"             \<comment> \<open>pid, parent, user, directory\<close>
  to_args :: "string list option"                                    \<comment> \<open>\<open>None\<close>: an argument is not Unicode\<close>
  to_append :: "string \<Rightarrow> 'w \<Rightarrow> (string + int) \<times> 'w"                  \<comment> \<open>create, append\<close>
  to_chmod :: "int \<Rightarrow> nat \<Rightarrow> 'w \<Rightarrow> (string + unit) \<times> 'w"
  to_write_all :: "int \<Rightarrow> bytes \<Rightarrow> 'w \<Rightarrow> (string + unit) \<times> 'w"
  to_close :: "int \<Rightarrow> 'w \<Rightarrow> 'w"

text \<open>\<open>write_fmt\<close>: the pieces one after the other, up to the first error.\<close>

fun write_fmt :: "'w trace_os \<Rightarrow> int \<Rightarrow> bytes list \<Rightarrow> 'w \<Rightarrow> (string + unit) \<times> 'w" where
  "write_fmt T fd [] w = (Inr (), w)"
| "write_fmt T fd (piece # pieces) w =
     (case to_write_all T fd piece w of
        (Inl e, w') \<Rightarrow> (Inl e, w')
      | (Inr _, w') \<Rightarrow> write_fmt T fd pieces w')"

text \<open>\<open>writeln!\<close>: the value, then the line feed of the format string.\<close>

definition line_pieces :: "(trace_event \<Rightarrow> bytes list) \<Rightarrow> trace_event \<Rightarrow> bytes list" where
  "line_pieces render ev = render ev @ [[10]]"

text \<open>\<open>std::env::args\<close> panics on an argument that is not Unicode; every other failure is dropped.\<close>

datatype recording = Recorded | RecordPanicked

definition trace_record ::
    "'w trace_os \<Rightarrow> (trace_event \<Rightarrow> bytes list) \<Rightarrow> string option option \<Rightarrow> string \<Rightarrow> (string \<times> string) list
      \<Rightarrow> 'w \<Rightarrow> recording \<times> 'w" where
  "trace_record T render cell event extra w =
     (case trace_path cell of
        None \<Rightarrow> (Recorded, w)
      | Some path \<Rightarrow>
          (case to_process T w of (pid, ppid, uid, cwd) \<Rightarrow>
             case to_args T of
               None \<Rightarrow> (RecordPanicked, w)
             | Some argv \<Rightarrow>
                 let ev = \<lparr>te_event = event, te_pid = pid, te_ppid = ppid, te_uid = uid, te_argv = argv, te_cwd = cwd,
                           te_extra = extra\<rparr>
                 in case to_append T path w of
                      (Inl e, w1) \<Rightarrow> (Recorded, w1)
                    | (Inr fd, w1) \<Rightarrow>
                        let w2 = snd (to_chmod T fd 438 w1);            \<comment> \<open>\<open>0o666\<close>\<close>
                            w3 = snd (write_fmt T fd (line_pieces render ev) w2)
                        in (Recorded, to_close T fd w3)))"

subsection \<open>The log\<close>

text \<open>What \<open>init_logging\<close> chooses from the global options: the file \<open>--log\<close> names if it can be opened, else
  standard error.\<close>

record global_opts =
  go_debug :: bool
  go_log :: "string option"
  go_log_format :: "string option"

datatype log_sink = LogFile int | StdErr

definition log_level :: "string option \<Rightarrow> global_opts \<Rightarrow> string" where
  "log_level env global =
     (case env of Some f \<Rightarrow> f | None \<Rightarrow> if go_debug global then ''debug'' else ''info'')"

definition init_logging ::
    "'w trace_os \<Rightarrow> string option \<Rightarrow> global_opts \<Rightarrow> 'w \<Rightarrow> (log_sink \<times> string \<times> bool) \<times> 'w" where
  "init_logging T env global w =
     (let settings = (\<lambda>sink. (sink, log_level env global, go_log_format global = Some ''json''))
      in case go_log global of
           None \<Rightarrow> (settings StdErr, w)
         | Some path \<Rightarrow> (case to_append T path w of
             (Inl _, w') \<Rightarrow> (settings StdErr, w') | (Inr fd, w') \<Rightarrow> (settings (LogFile fd), w')))"

subsection \<open>The command line, traced\<close>

text \<open>\<open>main\<close>, with its records; \<open>show\<close> is the error as \<open>{e:#}\<close> prints it.  A panic, in a print or in a record, is
  exit code 101.  \<open>create\<close> makes one more record, of the spec it has parsed, which is left out.\<close>

definition traced_main ::
    "'w trace_os \<Rightarrow> (trace_event \<Rightarrow> bytes list) \<Rightarrow> (verb_error \<Rightarrow> string) \<Rightarrow> 'w os \<Rightarrow> json \<Rightarrow> global_opts
      \<Rightarrow> string option \<Rightarrow> string option \<Rightarrow> string option \<Rightarrow> string option \<Rightarrow> standard_cmd \<Rightarrow> 'w \<Rightarrow> (int \<times> 'w) option" where
  "traced_main T render show S J global filter_env flag trace_env root_flag cmd w =
     (let (_, w1) = init_logging T filter_env global w;
          cell = trace_init flag trace_env None
      in case trace_record T render cell ''invoked'' [] w1 of
           (RecordPanicked, w2) \<Rightarrow> Some (101, w2)
         | (Recorded, w2) \<Rightarrow>
             (case real_main S J root_flag cmd w2 of
                None \<Rightarrow> None
              | Some (Inr _, w3) \<Rightarrow> Some (0, w3)
              | Some (Inl (PrintPanicked _), w3) \<Rightarrow> Some (101, w3)
              | Some (Inl e, w3) \<Rightarrow>
                  (case os_eprint S (ascii_bytes (''runtt: '' @ show e)) w3 of
                     (Inl _, w4) \<Rightarrow> Some (101, w4)
                   | (Inr _, w4) \<Rightarrow>
                       (case trace_record T render cell ''error'' [(''error'', show e)] w4 of
                          (RecordPanicked, w5) \<Rightarrow> Some (101, w5)
                        | (Recorded, w5) \<Rightarrow> Some (1, w5)))))"

subsection \<open>What a record does to the files\<close>

locale trace_files =
  fixes T :: "'w trace_os" and contents :: "'w \<Rightarrow> string list \<Rightarrow> bytes"
    and names :: "'w \<Rightarrow> int \<Rightarrow> string list option"     \<comment> \<open>files by the components of their path\<close>
  assumes opened: "to_append T p w = (Inr fd, w') \<Longrightarrow>
      contents w' = contents w \<and> names w' = (names w)(fd \<mapsto> path_components p)"
    and not_opened: "to_append T p w = (Inl e, w') \<Longrightarrow> contents w' = contents w"
    and chmod: "contents (snd (to_chmod T fd mode w)) = contents w" "names (snd (to_chmod T fd mode w)) = names w"
    and written: "to_write_all T fd b w = (r, w') \<Longrightarrow> names w fd = Some q \<Longrightarrow> names w' = names w \<and>
      (\<exists>done. prefix done b \<and> (is_ok r \<longrightarrow> done = b) \<and> contents w' = (contents w)(q := contents w q @ done))"
    and closed: "contents (to_close T fd w) = contents w"
begin

lemma write_fmt_effect:
  "write_fmt T fd pieces w = (r, w') \<Longrightarrow> names w fd = Some p \<Longrightarrow>
    \<exists>done. prefix done (concat pieces) \<and> (is_ok r \<longrightarrow> done = concat pieces) \<and>
      contents w' = (contents w)(p := contents w p @ done)"
proof (induction pieces arbitrary: w)
  case Nil
  then have "w' = w" by simp
  then show ?case by (intro exI [of _ "[]"]) simp
next
  case (Cons b pieces)
  obtain q w1 where wr: "to_write_all T fd b w = (q, w1)" by fastforce
  obtain d where d: "names w1 = names w" "prefix d b" "is_ok q \<longrightarrow> d = b" "contents w1 = (contents w)(p := contents w p @ d)"
    using written [OF wr Cons.prems(2)] by blast
  show ?case
  proof (cases q)
    case (Inl e)
    with Cons.prems(1) wr d show ?thesis by (intro exI [of _ d]) (auto simp: is_ok_def prefix_def)
  next
    case (Inr u)
    with Cons.prems wr have "write_fmt T fd pieces w1 = (r, w')" by simp
    moreover have "names w1 fd = Some p" using d(1) Cons.prems(2) by simp
    ultimately obtain d' where
      "prefix d' (concat pieces)" "is_ok r \<longrightarrow> d' = concat pieces" "contents w' = (contents w1)(p := contents w1 p @ d')"
      using Cons.IH by blast
    with d Inr show ?thesis by (intro exI [of _ "b @ d'"]) (auto simp: is_ok_def)
  qed
qed

lemma trace_effect:
  assumes "trace_record T render cell event extra w = (u, w')"
  shows "case trace_path cell of
      None \<Rightarrow> w' = w
    | Some p \<Rightarrow> \<exists>ev done. te_event ev = event \<and> te_extra ev = extra \<and> prefix done (concat (line_pieces render ev)) \<and>
        contents w' = (contents w)(path_components p := contents w (path_components p) @ done)"
proof (cases "trace_path cell")
  case None
  with assms show ?thesis by (simp add: trace_record_def)
next
  case (Some p)
  obtain pid ppid uid cwd where proc: "to_process T w = (pid, ppid, uid, cwd)" by (cases "to_process T w")
  let ?ev = "\<lambda>argv. \<lparr>te_event = event, te_pid = pid, te_ppid = ppid, te_uid = uid, te_argv = argv, te_cwd = cwd, te_extra = extra\<rparr>"
  obtain o1 w1 where op: "to_append T p w = (o1, w1)" by fastforce
  have "\<exists>argv done. prefix done (concat (line_pieces render (?ev argv))) \<and>
      contents w' = (contents w)(path_components p := contents w (path_components p) @ done)"
  proof (cases "to_args T = None \<or> (\<exists>e. o1 = Inl e)")
    case True
    with assms Some proc op not_opened show ?thesis
      by (intro exI [of _ "the (to_args T)"] exI [of _ "[]"]) (auto simp: trace_record_def split: option.splits)
  next
    case False
    then obtain argv fd where argv: "to_args T = Some argv" and Inr: "o1 = Inr fd" by (cases o1) auto
    define w2 where "w2 = snd (to_chmod T fd 438 w1)"
    obtain q w3 where wr: "write_fmt T fd (line_pieces render (?ev argv)) w2 = (q, w3)" by fastforce
    have w2: "contents w2 = contents w" "names w2 fd = Some (path_components p)"
      using opened [OF op [unfolded Inr]] chmod by (simp_all add: w2_def)
    from write_fmt_effect [OF wr w2(2)] obtain d where
      "prefix d (concat (line_pieces render (?ev argv)))" "contents w3 = (contents w)(path_components p := contents w (path_components p) @ d)"
      unfolding w2(1) by blast
    moreover have "w' = to_close T fd w3"
      using assms Some proc op argv Inr wr by (simp add: trace_record_def Let_def w2_def)
    ultimately show ?thesis by (auto simp: closed)
  qed
  then obtain argv where "\<exists>done. prefix done (concat (line_pieces render (?ev argv))) \<and>
      contents w' = (contents w)(path_components p := contents w (path_components p) @ done)" by blast
  then have "\<exists>ev done. te_event ev = event \<and> te_extra ev = extra \<and> prefix done (concat (line_pieces render ev)) \<and>
      contents w' = (contents w)(path_components p := contents w (path_components p) @ done)" by (intro exI [of _ "?ev argv"]) simp
  with Some show ?thesis by simp
qed

end

subsection \<open>Processes that record at the same time\<close>

text \<open>Each process writes the pieces of its record; a write on a file opened for appending goes to the end.\<close>

record tracers =
  tc_file :: bytes
  tc_left :: "nat \<Rightarrow> bytes list"
  tc_begun :: "trace_event list"

inductive tracing :: "(trace_event \<Rightarrow> bytes list) \<Rightarrow> tracers \<Rightarrow> bool" for render :: "trace_event \<Rightarrow> bytes list" where
  no_records: "tracing render \<lparr>tc_file = [], tc_left = (\<lambda>_. []), tc_begun = []\<rparr>"
| begins: "tracing render s \<Longrightarrow> tc_left s i = [] \<Longrightarrow>
    tracing render (s\<lparr>tc_left := (tc_left s)(i := line_pieces render ev), tc_begun := tc_begun s @ [ev]\<rparr>)"
| writes: "tracing render s \<Longrightarrow> tc_left s i = b # bs \<Longrightarrow>
    tracing render (s\<lparr>tc_file := tc_file s @ b, tc_left := (tc_left s)(i := bs)\<rparr>)"

lemma writes_all:
  "tracing render s \<Longrightarrow> tc_left s i = bs @ cs \<Longrightarrow>
    tracing render (s\<lparr>tc_file := tc_file s @ concat bs, tc_left := (tc_left s)(i := cs)\<rparr>)"
proof (induction bs arbitrary: s)
  case Nil
  then have "(tc_left s)(i := cs) = tc_left s" by (simp add: fun_upd_idem)
  with Nil show ?case by (cases s) simp
next
  case (Cons b bs)
  have "((tc_left s)(i := bs @ cs))(i := cs) = (tc_left s)(i := cs)" by (rule fun_upd_upd)
  with Cons.IH [OF writes [OF Cons.prems(1), of i b "bs @ cs"]] Cons.prems(2) show ?case by (simp add: fun_upd_same del: fun_upd_apply)
qed

subsection \<open>Properties\<close>

text \<open>What is traced by flag stops at the proxy.  The command line \<open>create\<close> gives the proxy carries no
  \<open>--mcu-trace\<close> unless one of the caller's own strings is that word, and \<open>RUNTT_TRACE\<close> only if the variable
  was set for \<open>create\<close>; where the path came from the flag alone, the proxy records nothing.\<close>
theorem trace_flag_stops_at_proxy:
  "\<exists>trace w1 cmd w2. os_env S ''RUNTT_TRACE'' w = (trace, w1) \<and>
    spawn S root cid target firmware skip log_target lock_fd w = io_try (os_spawn S cmd) w2 \<and>
    map_of (cmd_env cmd) ''RUNTT_TRACE'' = trace \<and>
    (''--mcu-trace'' \<notin> {root, cid, target, firmware} \<and> log_target \<noteq> Some ''--mcu-trace'' \<longrightarrow>
       ''--mcu-trace'' \<notin> set (cmd_args cmd)) \<and>
    trace_path (trace_init None trace None) = trace"
proof -
  obtain trace w1 where t: "os_env S ''RUNTT_TRACE'' w = (trace, w1)" by fastforce
  obtain log w2 where l: "os_env S ''RUST_LOG'' w1 = (log, w2)" by fastforce
  let ?cmd = "\<lparr>cmd_args = spawn_args root cid target firmware skip log_target,
    cmd_env = [(''PATH'', ''/usr/sbin:/usr/bin:/sbin:/bin''), (LOCK_FD_ENV, int_string lock_fd)] @
      inherited ''RUNTT_TRACE'' trace @ inherited ''RUST_LOG'' log\<rparr>"
  have "spawn S root cid target firmware skip log_target lock_fd w = io_try (os_spawn S ?cmd) w2"
    using t l by (simp add: spawn_def io_run)
  moreover have "map_of (cmd_env ?cmd) ''RUNTT_TRACE'' = trace"
    by (cases trace; cases log) (simp_all add: inherited_def LOCK_FD_ENV_def)
  moreover have "''--mcu-trace'' \<notin> {root, cid, target, firmware} \<and> log_target \<noteq> Some ''--mcu-trace'' \<longrightarrow>
      ''--mcu-trace'' \<notin> set (cmd_args ?cmd)"
    by (cases log_target) (auto simp: spawn_args_def PROXY_SUBCOMMAND_def)
  moreover have "trace_path (trace_init None trace None) = trace" by (simp add: trace_init_def trace_path_def)
  ultimately show ?thesis using t by blast
qed

text \<open>Two processes that record at the same time can garble the file.  A record is at least two writes, and
  the engine's commands and the proxies record concurrently: a state is reachable in which both records
  have been written in full and neither line of the file is a record.\<close>
theorem concurrent_records_mix:
  "\<exists>s. tracing render s \<and> tc_begun s = [ev1, ev2] \<and> (\<forall>i. tc_left s i = []) \<and>
    tc_file s = concat (render ev1) @ concat (render ev2) @ [10, 10]"
proof -
  let ?s1 = "\<lparr>tc_file = [], tc_left = (\<lambda>_. [])(0 := line_pieces render ev1), tc_begun = [ev1]\<rparr>"
  have "tracing render ?s1" using begins [OF no_records, of 0 render ev1] by simp
  from begins [OF this, of 1 ev2]
  have "tracing render (?s1\<lparr>tc_left := (tc_left ?s1)(1 := line_pieces render ev2), tc_begun := [ev1, ev2]\<rparr>)" by simp
  from writes_all [OF this, of 0 "render ev1" "[[10]]"]
  have "tracing render \<lparr>tc_file = concat (render ev1),
      tc_left = (\<lambda>_. [])(0 := [[10]], 1 := line_pieces render ev2), tc_begun = [ev1, ev2]\<rparr>"
    by (simp add: line_pieces_def fun_upd_twist)
  from writes_all [OF this, of 1 "line_pieces render ev2" "[]"]
  have "tracing render \<lparr>tc_file = concat (render ev1) @ concat (render ev2) @ [10],
      tc_left = (\<lambda>_. [])(0 := [[10]], 1 := []), tc_begun = [ev1, ev2]\<rparr>"
    by (simp add: line_pieces_def)
  from writes [OF this, of 0 "[10]" "[]"] show ?thesis by (intro exI) (auto simp: fun_upd_def)
qed

end
