(* ===== verification/Liveness.thy ===== *)
theory Liveness
  imports System
begin

text \<open>
  The verbs (\<open>crates/runtt/src/verbs.rs\<close>) on a host that does not let them down: where the calls of the
  operating system succeed, so do they, and a container goes through its whole life.
\<close>

definition stays :: "('w \<Rightarrow> bool) \<Rightarrow> 'w \<Rightarrow> 'w \<Rightarrow> bool" where
  "stays good w w' \<longleftrightarrow> (good w \<longrightarrow> good w')"

text \<open>\<open>good\<close>: there is room on the disk, the directories are ours, and so on; no call of a verb ends that.\<close>

locale obliging_host = runtime_host S content events alive + ticking S clock
  for S :: "'w os" and content :: "'w \<Rightarrow> string list \<Rightarrow> bytes option" and events :: "'w \<Rightarrow> process_event list"
    and alive :: "'w \<Rightarrow> int \<Rightarrow> bool" and clock :: "'w \<Rightarrow> nat" +
  fixes good :: "'w \<Rightarrow> bool"
  assumes works: "good w \<Longrightarrow> is_ok (fst (os_create_dir_all S p w))" "good w \<Longrightarrow> is_ok (fst (os_write_file S p b w))"
      "good w \<Longrightarrow> is_ok (fst (os_remove_dir_all S p w))" "good w \<Longrightarrow> is_ok (fst (os_spawn S command w))"
    and reads: "good w \<Longrightarrow> content w (path_components p) = Some b \<Longrightarrow> fst (os_read_file S p w) = Inr b"
    and renames: "good w \<Longrightarrow> content w (path_components p) \<noteq> None \<Longrightarrow> is_ok (fst (os_rename S p q w))"
    and signals: "good w \<Longrightarrow> alive w pid \<Longrightarrow> is_ok (fst (os_kill S pid sig w))"
    and stays_good: "reading_keeps S (stays good)" "writing_keeps S (stays good)" "waiting_keeps S pid (stays good)"
      "stays good w (snd (os_kill S pid sig w))" "stays good w (snd (os_spawn S command w))"
      "stays good w (snd (os_env S name w))"
    and reading_lives: "reading_keeps S (\<lambda>w w'. alive w' = alive w)"
    and probing_lives: "alive (snd (os_kill S pid 0 w)) = alive w"
begin

lemma stays_order: "reflp (stays good)" "transp (stays good)"
  by (auto simp: stays_def intro: reflpI transpI)

lemma outcome: "is_ok (fst (c w)) \<Longrightarrow> \<exists>a w'. c w = (Inr a, w')"
  by (cases "c w"; cases "fst (c w)") (auto simp: is_ok_def)

lemma read_succeeds:
  assumes "good w" and "stored J content root w cid = Some st"
  obtains w1 where "state_read S J root cid w = (Inr st, w1)" "good w1" "alive w1 = alive w"
    "stored J content root w1 = stored J content root w"
proof -
  obtain b where v: "validate_container_id cid = Inr ()" and b: "js_state_in J b = Inr st"
    "content w (path_components root @ [cid, ''state.json'']) = Some b"
    using assms(2) by (auto simp: stored_def split: if_splits option.splits sum.splits)
  obtain w1 where "os_read_file S (state_file root cid) w = (Inr b, w1)"
    using reads [OF assms(1), of "state_file root cid" b] b(2) by (cases "os_read_file S (state_file root cid) w")
      (auto simp: state_components [OF v])
  then have run: "state_read S J root cid w = (Inr st, w1)" by (simp add: state_read_def io_run v b(1))
  moreover have "good w1" using keepingD [OF state_read_keeps [OF stays_good(1)] run] assms(1) by (simp add: stays_def)
  moreover have "alive w1 = alive w" by (rule keepingD [OF state_read_keeps [OF reading_lives] run])
  ultimately show thesis using that read_effect [OF run] by blast
qed

lemma write_succeeds:
  assumes "good w" and "validate_container_id (cs_id st) = Inr ()" and "is_ok (js_state_out J st)"
  obtains w' where "state_write S J root st w = (Inr (), w')" "good w'"
proof -
  let ?tmp = "state_tmp root (cs_id st)"
  have good_writing: "good (snd (os_create_dir_all S p w))" "good (snd (os_write_file S p b w))" if "good w" for p b w
    using stays_good(2) that by (auto simp: writing_keeps_def stays_def)
  obtain b where b: "js_state_out J st = Inr b" using assms(3) by (cases "js_state_out J st") (auto simp: is_ok_def)
  obtain w1 where mk: "os_create_dir_all S (state_dir root (cs_id st)) w = (Inr (), w1)"
    using outcome [of "os_create_dir_all S (state_dir root (cs_id st))", OF works(1) [OF assms(1)]] by auto
  then have g1: "good w1" using good_writing(1) [OF assms(1), of "state_dir root (cs_id st)"] by simp
  obtain w2 where wr: "os_write_file S ?tmp b w1 = (Inr (), w2)"
    using outcome [of "os_write_file S ?tmp b", OF works(2) [OF g1]] by auto
  then have g2: "good w2" using good_writing(2) [OF g1, of ?tmp b] by simp
  have "content w2 (path_components ?tmp) \<noteq> None" using write_done [OF wr] by simp
  then obtain w3 where mv: "os_rename S ?tmp (state_file root (cs_id st)) w2 = (Inr (), w3)"
    using outcome [of "os_rename S ?tmp (state_file root (cs_id st))", OF renames [OF g2]] by auto
  have run: "state_write S J root st w = (Inr (), w3)"
    using mk wr mv by (simp add: state_write_def io_run assms(2) b)
  moreover have "good w3"
    using keepingD [OF state_write_keeps [OF stays_good(1,2)] run] assms(1) by (simp add: stays_def)
  ultimately show thesis by (rule that)
qed

lemma signal_succeeds:
  assumes "good w" and "alive w p"
  obtains w' where "signal_proxy S p sig w = (Inr (), w')" "good w'"
proof -
  obtain w' where k: "os_kill S p sig w = (Inr (), w')"
    using outcome [of "os_kill S p sig", OF signals [OF assms]] by auto
  have "good w'" using stays_good(4) [of w p sig] assms(1) k by (simp add: stays_def)
  with k show thesis using that by (simp add: signal_proxy_def io_run)
qed

lemma probe_succeeds:
  assumes "good w"
  obtains w' where "is_alive S p w = (Inr (0 < p \<and> alive w p), w')" "good w'" "alive w' = alive w"
proof -
  obtain r w' where a: "is_alive S p w = (r, w')" by fastforce
  have "good w'"
    using keepingD [OF is_alive_keeps [OF stays_order stays_good(4)] a] assms by (simp add: stays_def)
  moreover have "alive w' = alive w"
    by (rule keepingD [OF is_alive_keeps a]) (auto intro!: reflpI transpI simp: probing_lives)
  ultimately show thesis using that a probe_event [OF a] by blast
qed

subsection \<open>The verbs\<close>

lemma create_succeeds:
  assumes "read_request S J bundle w = (Inr (target, firmware, log_target, skip), w1)"
    and "acquire S root target w1 = (Inr fd, w2)" and "good w2" and "validate_container_id cid = Inr ()"
    and "\<And>pid. is_ok (js_state_out J (created_state cid bundle pid target firmware))"
  shows "\<exists>w'. create S J root cid bundle pid_file w = (Inr (), w')"
proof -
  obtain r w3 where sp: "spawn S root cid target firmware skip log_target fd w2 = (r, w3)" by fastforce
  have "keeping (stays good) (spawn S root cid target firmware skip log_target fd)"
    unfolding spawn_def by (intro keeps_intros stays_order stays_good)
  from keepingD [OF this sp] have g3: "good w3" using assms(3) by (simp add: stays_def)
  obtain pid where r: "r = Inr pid"
    using sp stays_good(6) assms(3) works(4)
    by (auto simp: spawn_def io_run is_ok_def stays_def split: prod.splits sum.splits) (metis fst_conv snd_conv sum.simps(5))
  obtain w4 where wr: "state_write S J root (created_state cid bundle pid target firmware) w3 = (Inr (), w4)" "good w4"
    using write_succeeds [OF g3 _ assms(5)] assms(4) created_well_formed [of cid "bundle" pid target firmware]
    by (metis well_formed_def)
  have "\<exists>w5. record_created S J root cid bundle pid_file target firmware pid w3 = (Inr (), w5)"
  proof (cases pid_file)
    case (Some p)
    obtain w5 where "os_write_file S p (ascii_bytes (int_string pid)) w4 = (Inr (), w5)"
      using outcome [of "os_write_file S p (ascii_bytes (int_string pid))", OF works(2) [OF wr(2)]] by auto
    with Some wr(1) show ?thesis by (simp add: record_created_def io_run)
  qed (use wr(1) in \<open>simp add: record_created_def io_run\<close>)
  then show ?thesis using assms(1,2,4) sp r by (auto simp: create_def io_run guarded_def)
qed

lemma start_succeeds:
  assumes "good w" and "stored J content root w cid = Some st" and "well_formed cid st" and "reads_back J"
    and "cs_status st = Created" and "cs_pid st = Some p" and "alive w p"
    and "is_ok (js_state_out J (st\<lparr>cs_status := Running\<rparr>))"
  shows "\<exists>w'. start S J root cid w = (Inr (), w') \<and> stored J content root w' cid = Some (st\<lparr>cs_status := Running\<rparr>)"
proof -
  have v: "validate_container_id (cs_id (st\<lparr>cs_status := Running\<rparr>)) = Inr ()"
    using assms(2,3) by (auto simp: stored_def well_formed_def split: if_splits)
  obtain w1 where rd: "state_read S J root cid w = (Inr st, w1)" "good w1" "alive w1 = alive w"
    using read_succeeds [OF assms(1,2)] by blast
  obtain w2 where sg: "signal_proxy S p SIGUSR1 w1 = (Inr (), w2)" "good w2"
    using signal_succeeds [OF rd(2), of p] rd(3) assms(7) by auto
  obtain w3 where wr: "state_write S J root (st\<lparr>cs_status := Running\<rparr>) w2 = (Inr (), w3)"
    using write_succeeds [OF sg(2) v assms(8)] by blast
  have "stored J content root w3 cid = Some (st\<lparr>cs_status := Running\<rparr>)"
    using write_status [OF wr assms(4) status_well_formed [OF assms(3)]] by simp
  moreover have "start S J root cid w = (Inr (), w3)" using rd(1) sg(1) wr assms(5,6) by (simp add: start_def io_run)
  ultimately show ?thesis by blast
qed

lemma kill_succeeds:
  assumes "good w" and "stored J content root w cid = Some st" and "well_formed cid st" and "reads_back J"
    and "parse_signal sig_name = Inr sig" and "is_ok (js_state_out J (st\<lparr>cs_status := Stopped\<rparr>))"
  shows "\<exists>w'. kill S J root cid sig_name w = (Inr (), w') \<and>
    (sig \<in> {SIGKILL, SIGTERM, SIGINT} \<longrightarrow> stored J content root w' cid = Some (st\<lparr>cs_status := Stopped\<rparr>))"
proof -
  have v: "validate_container_id (cs_id (st\<lparr>cs_status := Stopped\<rparr>)) = Inr ()"
    using assms(2,3) by (auto simp: stored_def well_formed_def split: if_splits)
  obtain p where p: "cs_pid st = Some p" using assms(3) by (auto simp: well_formed_def)
  obtain w1 where rd: "state_read S J root cid w = (Inr st, w1)" "good w1" using read_succeeds [OF assms(1,2)] by blast
  obtain w2 where al: "is_alive S p w1 = (Inr (0 < p \<and> alive w1 p), w2)" "good w2" "alive w2 = alive w1"
    using probe_succeeds [OF rd(2)] by blast
  obtain w3 where sg: "(if 0 < p \<and> alive w1 p then io_context (SignalProxy p) (signal_proxy S p sig) else io_ok ()) w2 =
      (Inr (), w3)" "good w3"
  proof (cases "0 < p \<and> alive w1 p")
    case True
    then have "alive w2 p" using al(3) by simp
    then obtain w3 where "signal_proxy S p sig w2 = (Inr (), w3)" "good w3" using signal_succeeds [OF al(2)] by blast
    with that [of w3] True show ?thesis by (simp add: io_context_def)
  next
    case False
    with that [of w2] al(2) show ?thesis by auto
  qed
  obtain w4 where wr: "state_write S J root (st\<lparr>cs_status := Stopped\<rparr>) w3 = (Inr (), w4)"
    using write_succeeds [OF sg(2) v assms(6)] by blast
  have "stored J content root w4 cid = Some (st\<lparr>cs_status := Stopped\<rparr>)"
    using write_status [OF wr assms(4) status_well_formed [OF assms(3)]] by simp
  moreover have "kill S J root cid sig_name w = (if sig = SIGKILL \<or> sig = SIGTERM \<or> sig = SIGINT
      then state_write S J root (st\<lparr>cs_status := Stopped\<rparr>) else io_ok ()) w3"
    using rd(1) al(1) sg(1) assms(5) p by (simp add: kill_def io_bind_def io_result_def)
  ultimately show ?thesis using wr by auto
qed

lemma delete_succeeds:
  assumes "good w" and "stored J content root w cid = Some st" and "well_formed cid st"
    and "force \<or> cs_status st \<noteq> Running \<or> (\<forall>p. cs_pid st = Some p \<longrightarrow> \<not> alive w p)"
  shows "\<exists>w'. delete S J root cid force w = Some (Inr (), w') \<and> stored J content root w' cid = None"
proof -
  have v: "validate_container_id cid = Inr ()" using assms(2) by (auto simp: stored_def split: if_splits)
  obtain p where p: "cs_pid st = Some p" using assms(3) by (auto simp: well_formed_def)
  obtain w1 where rd: "state_read S J root cid w = (Inr st, w1)" "good w1" "alive w1 = alive w"
    using read_succeeds [OF assms(1,2)] by blast
  obtain w2 where al: "is_alive S p w1 = (Inr (0 < p \<and> alive w1 p), w2)" "good w2"
    using probe_succeeds [OF rd(2)] by blast
  have removed: "\<exists>w'. state_remove S root cid w3 = (Inr (), w') \<and> stored J content root w' cid = None" if "good w3" for w3
  proof -
    obtain there w4 where ex: "os_exists S (state_dir root cid) w3 = (there, w4)" by fastforce
    have "good w4" using stays_good(1) that ex by (auto simp: reading_keeps_def stays_def) (metis snd_conv)
    from outcome [of "os_remove_dir_all S (state_dir root cid)", OF works(3) [OF this]]
    obtain w5 where "os_remove_dir_all S (state_dir root cid) w4 = (Inr (), w5)" by auto
    with ex v obtain w' where "state_remove S root cid w3 = (Inr (), w')"
      by (cases there) (auto simp: state_remove_def io_run)
    with remove_effect [OF this, of J] show ?thesis by blast
  qed
  have "\<exists>w3. good w3 \<and> remove_container S root cid (Some p) up w2 = Some (state_remove S root cid w3)" for up
  proof (cases up)
    case True
    define w3 where "w3 = snd (signal_proxy S p SIGKILL w2)"
    have "keeping (stays good) (signal_proxy S p SIGKILL)"
      unfolding signal_proxy_def by (intro keeps_intros stays_order stays_good)
    then have g3: "good w3" using al(2) by (simp add: keeping_def stays_def w3_def)
    obtain b w4 where w4: "await_exit S p 5000 w3 = Some (b, w4)" using await_exit_ends by blast
    have "good w4" using await_exit_keeps [OF w4 stays_good(3)] g3 by (simp add: stays_def)
    with True w4 show ?thesis by (auto simp: remove_container_def w3_def)
  qed (use al(2) in \<open>auto simp: remove_container_def\<close>)
  moreover have "delete S J root cid force w = remove_container S root cid (Some p) (0 < p \<and> alive w1 p) w2"
    using rd al(1) p assms(4) by (auto simp: delete_def Let_def)
  ultimately show ?thesis using removed by metis
qed

end

subsection \<open>Properties\<close>

text \<open>A bundle that is well-formed, on a board nobody has claimed, gets its container.  Where the host's calls
  succeed and the state can be serialised, \<open>create\<close> fails only for what it was asked: the id, the spec, the
  firmware, the labels, or a claimed board.\<close>
theorem create_succeeds_when_asked_well:
  assumes "obliging_host S content events alive clock good" and "validate_container_id cid = Inr ()"
    and "read_request S J bundle w = (Inr (target, firmware, log_target, skip), w1)"
    and "acquire S root target w1 = (Inr fd, w2)" and "good w2"
    and "\<And>pid. is_ok (js_state_out J (created_state cid bundle pid target firmware))"
  shows "\<exists>w'. create S J root cid bundle pid_file w = (Inr (), w')"
  by (rule obliging_host.create_succeeds [OF assms(1,3,4,5,2,6)])

text \<open>C6: a recorded container can always be taken through the rest of its life.  On such a host, \<open>start\<close> of one that is
  created and whose proxy lives succeeds and leaves it running; \<open>kill\<close> with any signal the grammar knows
  succeeds, whether the proxy lives or not, and a terminating one leaves it stopped; \<open>delete\<close> succeeds and
  leaves no record, unforced where it neither runs nor its proxy lives, and forced in every state.\<close>
theorem recorded_containers_progress:
  assumes "obliging_host S content events alive clock good" and "reads_back J" and "good w"
    and "stored J content root w cid = Some st" and "well_formed cid st"
    and "is_ok (js_state_out J (st\<lparr>cs_status := Running\<rparr>))" and "is_ok (js_state_out J (st\<lparr>cs_status := Stopped\<rparr>))"
  shows "(cs_status st = Created \<and> (\<exists>p. cs_pid st = Some p \<and> alive w p) \<longrightarrow>
      (\<exists>w'. start S J root cid w = (Inr (), w') \<and> stored J content root w' cid = Some (st\<lparr>cs_status := Running\<rparr>))) \<and>
    (\<forall>sig. parse_signal sig_name = Inr sig \<longrightarrow>
      (\<exists>w'. kill S J root cid sig_name w = (Inr (), w') \<and>
        (sig \<in> {SIGKILL, SIGTERM, SIGINT} \<longrightarrow> stored J content root w' cid = Some (st\<lparr>cs_status := Stopped\<rparr>)))) \<and>
    (force \<or> cs_status st \<noteq> Running \<or> (\<forall>p. cs_pid st = Some p \<longrightarrow> \<not> alive w p) \<longrightarrow>
      (\<exists>w'. delete S J root cid force w = Some (Inr (), w') \<and> stored J content root w' cid = None))"
  using obliging_host.start_succeeds [OF assms(1,3,4,5,2)] obliging_host.kill_succeeds [OF assms(1,3,4,5,2)]
    obliging_host.delete_succeeds [OF assms(1,3,4,5)] assms(6,7) by blast

end
