(* ===== verification/Trace_Apart.thy ===== *)
theory Trace_Apart
  imports Trace
begin

text \<open>
  Tracing (\<open>crates/runtt/src/trace.rs\<close>) against not tracing.  \<open>blind R m\<close>: \<open>m\<close> gives the same result in two
  worlds that \<open>R\<close> does not tell apart, and leaves two such worlds.  The verbs are blind to whatever their
  calls are blind to; where that includes what the tracer does, a traced command and an untraced one end
  in the same way.
\<close>

subsection \<open>Operations that do not see a difference\<close>

definition blind :: "('w \<Rightarrow> 'w \<Rightarrow> bool) \<Rightarrow> ('w, 'r) call \<Rightarrow> bool" where
  "blind R m \<longleftrightarrow> (\<forall>w1 w2. R w1 w2 \<longrightarrow> fst (m w1) = fst (m w2) \<and> R (snd (m w1)) (snd (m w2)))"

named_theorems blind_intros \<open>operations that do not see a difference\<close>

lemma blindE:
  assumes "blind R m" and "R w1 w2"
  obtains r u1 u2 where "m w1 = (r, u1)" "m w2 = (r, u2)" "R u1 u2"
  using assms unfolding blind_def by (metis prod.collapse)

lemma blindI:
  assumes "\<And>w1 w2. R w1 w2 \<Longrightarrow> \<exists>r u1 u2. m w1 = (r, u1) \<and> m w2 = (r, u2) \<and> R u1 u2"
  shows "blind R m"
  using assms unfolding blind_def by fastforce

lemma blind_pure [blind_intros]: "blind R (io_ok a)" "blind R (io_fail e)" "blind R (io_result r)"
  by (simp_all add: blind_def io_run)

lemma blind_steps [blind_intros]:
  "blind R c \<Longrightarrow> blind R (io_call c)" "blind R t \<Longrightarrow> blind R (io_try t)" "blind R p \<Longrightarrow> blind R (io_print p)"
  "blind R m \<Longrightarrow> blind R (io_context step m)" "blind R m \<Longrightarrow> blind R (io_attempt m)"
  by (rule blindI, erule (1) blindE, auto simp: io_run split: sum.splits)+

lemma blind_bind [blind_intros]:
  assumes "blind R m" and "\<And>a. blind R (f a)"
  shows "blind R (io_bind m f)"
proof (rule blindI)
  fix w1 w2 assume "R w1 w2"
  with assms(1) obtain r u1 u2 where m: "m w1 = (r, u1)" "m w2 = (r, u2)" "R u1 u2" by (rule blindE)
  show "\<exists>r u1 u2. io_bind m f w1 = (r, u1) \<and> io_bind m f w2 = (r, u2) \<and> R u1 u2"
  proof (cases r)
    case (Inl e)
    with m show ?thesis by (simp add: io_bind_def)
  next
    case (Inr a)
    from assms(2) m(3) obtain q v1 v2 where "f a u1 = (q, v1)" "f a u2 = (q, v2)" "R v1 v2" by (rule blindE)
    with m Inr show ?thesis by (simp add: io_bind_def)
  qed
qed

lemma blind_cases [blind_intros]:
  "blind R m \<Longrightarrow> blind R m' \<Longrightarrow> blind R (if b then m else m')"
  "blind R m \<Longrightarrow> (\<And>x. blind R (f x)) \<Longrightarrow> blind R (case y of None \<Rightarrow> m | Some x \<Rightarrow> f x)"
  "(\<And>x. blind R (g x)) \<Longrightarrow> (\<And>x. blind R (f x)) \<Longrightarrow> blind R (case r of Inl x \<Rightarrow> g x | Inr x \<Rightarrow> f x)"
  "(\<And>x y. blind R (h x y)) \<Longrightarrow> blind R (case p of (x, y) \<Rightarrow> h x y)"
  "blind R m1 \<Longrightarrow> blind R m2 \<Longrightarrow> (\<And>x. blind R (k x)) \<Longrightarrow>
    blind R (case answer of Locked \<Rightarrow> m1 | WouldBlock \<Rightarrow> m2 | FlockError x \<Rightarrow> k x)"
  by (auto split: option.splits sum.splits prod.splits flock_answer.splits)





subsection \<open>The verbs\<close>




subsection \<open>The tracer\<close>


subsection \<open>Property\<close>


end
