(* ===== verification/Proxy_Process.thy ===== *)
theory Proxy_Process
  imports Proxy State_Store
begin

text \<open>
  The proxy as a process, from the command line it is spawned with to its exit code: \<open>Command::Proxy\<close> of
  \<open>crates/runtt/src/main.rs\<close>, and \<open>install_handlers\<close> and the whole of \<open>run\<close> of \<open>crates/runtt/src/proxy.rs\<close>, with
  signals between any two steps.  The crate \<open>clap\<close> is the locale \<open>option_words\<close>.  The deploy is one step here; what
  it does about a signal is in \<open>Resident\<close>.
\<close>

subsection \<open>The command line\<close>

datatype option_kind = Flag | Value

type_synonym option_matches = "string \<rightharpoonup> string option"
type_synonym matcher = "(string \<rightharpoonup> option_kind) \<Rightarrow> string list \<Rightarrow> (option_matches \<times> string list) option"

record proxy_command =
  pc_container_id :: string
  pc_target :: string
  pc_firmware :: string
  pc_force_reflash :: bool
  pc_log_target :: "string option"

text \<open>Of the global options of \<open>liboci_cli\<close> those the program reads.\<close>

definition global_options :: "string \<rightharpoonup> option_kind" where
  "global_options = [''--root'' \<mapsto> Value, ''--log'' \<mapsto> Value, ''--log-format'' \<mapsto> Value, ''--debug'' \<mapsto> Flag,
     ''--mcu-trace'' \<mapsto> Value]"

definition proxy_options :: "string \<rightharpoonup> option_kind" where
  "proxy_options = [''--container-id'' \<mapsto> Value, ''--target'' \<mapsto> Value, ''--firmware'' \<mapsto> Value,
     ''--force-reflash'' \<mapsto> Flag, ''--log-target'' \<mapsto> Value, ''--mcu-trace'' \<mapsto> Value]"

definition option_value :: "option_matches \<Rightarrow> string \<Rightarrow> string option" where
  "option_value m name = Option.bind (m name) id"

definition proxy_command_of :: "option_matches \<Rightarrow> proxy_command option" where
  "proxy_command_of m =
     (case (option_value m ''--container-id'', option_value m ''--target'', option_value m ''--firmware'') of
        (Some cid, Some target, Some firmware) \<Rightarrow>
          Some \<lparr>pc_container_id = cid, pc_target = target, pc_firmware = firmware,
            pc_force_reflash = (''--force-reflash'' \<in> dom m), pc_log_target = option_value m ''--log-target''\<rparr>
      | _ \<Rightarrow> None)"

text \<open>The value of \<open>--root\<close> and the command; \<open>None\<close> where it is another command or a usage error.\<close>

definition parse_proxy :: "matcher \<Rightarrow> string list \<Rightarrow> (string option \<times> proxy_command) option" where
  "parse_proxy matcher args =
     (case matcher global_options args of
        Some (g, sub # ws) \<Rightarrow>
          if sub = PROXY_SUBCOMMAND then
            (case matcher proxy_options ws of
               Some (m, []) \<Rightarrow> map_option (Pair (option_value g ''--root'')) (proxy_command_of m)
             | _ \<Rightarrow> None)
          else None
      | _ \<Rightarrow> None)"

text \<open>What is relied on of \<open>clap\<close>: options are read word by word up to the first word that is none, the
  value of an option is the next word, which must not begin with a hyphen, and no option is given
  twice.\<close>

definition hyphenated :: "string \<Rightarrow> bool" where
  "hyphenated w \<longleftrightarrow> w \<noteq> [] \<and> hd w = CHR ''-''"

locale option_words =
  fixes matcher :: matcher
  assumes no_words: "matcher D [] = Some (Map.empty, [])"
    and other_word: "\<not> hyphenated w \<Longrightarrow> matcher D (w # ws) = Some (Map.empty, w # ws)"
    and value_word: "hyphenated opt \<Longrightarrow> D opt = Some Value \<Longrightarrow> \<not> hyphenated v \<Longrightarrow> matcher D ws = Some (m, rest) \<Longrightarrow>
      opt \<notin> dom m \<Longrightarrow> matcher D (opt # v # ws) = Some (m(opt \<mapsto> Some v), rest)"
    and flag_word: "hyphenated opt \<Longrightarrow> D opt = Some Flag \<Longrightarrow> matcher D ws = Some (m, rest) \<Longrightarrow>
      opt \<notin> dom m \<Longrightarrow> matcher D (opt # ws) = Some (m(opt \<mapsto> None), rest)"
begin

lemma parse_spawned:
  assumes "\<not> hyphenated root" and "\<not> hyphenated cid" and "\<not> hyphenated target" and "\<not> hyphenated firmware"
    and "\<And>lt. log_target = Some lt \<Longrightarrow> \<not> hyphenated lt"
  shows "parse_proxy matcher (spawn_args root cid target firmware skip log_target) =
    Some (Some root, \<lparr>pc_container_id = cid, pc_target = target, pc_firmware = firmware,
      pc_force_reflash = (\<not> skip), pc_log_target = log_target\<rparr>)"
proof -
  let ?log = "case log_target of Some lt \<Rightarrow> [''--log-target'', lt] | None \<Rightarrow> []"
  let ?tail = "(if \<not> skip then [''--force-reflash''] else []) @ ?log"
  have words: "hyphenated ''--container-id''" "hyphenated ''--target''" "hyphenated ''--firmware''" "hyphenated ''--root''"
    "hyphenated ''--force-reflash''" "hyphenated ''--log-target''" "\<not> hyphenated PROXY_SUBCOMMAND"
    by (simp_all add: hyphenated_def PROXY_SUBCOMMAND_def)
  obtain m1 where log: "matcher proxy_options ?log = Some (m1, [])" "dom m1 \<subseteq> {''--log-target''}"
      "option_value m1 ''--log-target'' = log_target"
    using assms(5) value_word [of "''--log-target''" proxy_options _ "[]" Map.empty "[]"] words no_words [of proxy_options]
    by (cases log_target) (simp_all add: proxy_options_def option_value_def)
  obtain m where tail: "matcher proxy_options ?tail = Some (m, [])" "dom m \<subseteq> {''--log-target'', ''--force-reflash''}"
      "option_value m ''--log-target'' = log_target" "''--force-reflash'' \<in> dom m \<longleftrightarrow> \<not> skip"
  proof (cases skip)
    case True
    with log that [of m1] show ?thesis by auto
  next
    case False
    have "matcher proxy_options (''--force-reflash'' # ?log) = Some (m1(''--force-reflash'' \<mapsto> None), [])"
      by (rule flag_word) (use words log in \<open>auto simp: proxy_options_def\<close>)
    with False log that [of "m1(''--force-reflash'' \<mapsto> None)"] show ?thesis by (auto simp: option_value_def)
  qed
  have fresh: "m k = None" if "k \<notin> {''--log-target'', ''--force-reflash''}" for k
  proof -
    from that tail(2) have "k \<notin> dom m" by blast
    then show ?thesis by (simp add: domIff)
  qed
  let ?ws = "''--container-id'' # cid # ''--target'' # target # ''--firmware'' # firmware # ?tail"
  let ?m = "m(''--firmware'' \<mapsto> Some firmware, ''--target'' \<mapsto> Some target, ''--container-id'' \<mapsto> Some cid)"
  have "matcher proxy_options ?ws = Some (?m, [])"
    by (intro value_word tail(1) words assms(2-4)) (simp_all add: proxy_options_def domIff fresh)
  moreover have "matcher global_options (''--root'' # root # PROXY_SUBCOMMAND # ?ws) =
      Some ([''--root'' \<mapsto> Some root], PROXY_SUBCOMMAND # ?ws)"
    by (intro value_word other_word words assms(1)) (simp_all add: global_options_def)
  moreover have "proxy_command_of ?m = Some \<lparr>pc_container_id = cid, pc_target = target, pc_firmware = firmware,
      pc_force_reflash = (\<not> skip), pc_log_target = log_target\<rparr>"
    using tail(3,4) by (simp add: proxy_command_of_def option_value_def domIff)
  ultimately show ?thesis by (simp add: parse_proxy_def spawn_args_def option_value_def)
qed

end

text \<open>A matcher of this kind.\<close>

fun match_words :: matcher where
  "match_words D [] = Some (Map.empty, [])"
| "match_words D (w # ws) =
     (if \<not> hyphenated w then Some (Map.empty, w # ws)
      else case D w of
        None \<Rightarrow> None
      | Some Flag \<Rightarrow>
          (case match_words D ws of
             Some (m, rest) \<Rightarrow> if w \<in> dom m then None else Some (m(w \<mapsto> None), rest)
           | None \<Rightarrow> None)
      | Some Value \<Rightarrow>
          (case ws of
             [] \<Rightarrow> None
           | v # ws' \<Rightarrow>
               if hyphenated v then None
               else case match_words D ws' of
                      Some (m, rest) \<Rightarrow> if w \<in> dom m then None else Some (m(w \<mapsto> Some v), rest)
                    | None \<Rightarrow> None))"

interpretation matched: option_words match_words
  by unfold_locales auto

subsection \<open>The process\<close>

text \<open>The handlers still to be installed and the flag; waiting; and how it ends: with an exit code, by a signal
  whose default action is to end the process, or not at all.\<close>

datatype proxy_end = Exits int | KilledBy int | NeverEnds

datatype proxy_point =
    Installing "int list" int
  | Waiting waiting
  | Ended proxy_end

datatype proxy_move = Sent int | Installs bool | Proceeds

definition handler_order :: "int list" where
  "handler_order = [SIGUSR1, SIGTERM, SIGINT]"

text \<open>Stopping and continuing the process, and the signals that are ignored, leave it where it is.\<close>

definition fatal_by_default :: "int set" where
  "fatal_by_default = {SIGHUP, SIGINT, SIGQUIT, SIGABRT, SIGKILL, SIGUSR1, SIGUSR2, SIGTERM}"

definition receives :: "int \<Rightarrow> proxy_point \<Rightarrow> proxy_point" where
  "receives sig p =
     (case p of
        Installing rest received \<Rightarrow>
          if sig \<in> set handler_order - set rest then Installing rest sig
          else if sig \<in> fatal_by_default then Ended (KilledBy sig) else p
      | Waiting g \<Rightarrow>
          if sig \<in> set handler_order then Waiting (handle_signal sig g)
          else if sig \<in> fatal_by_default then Ended (KilledBy sig) else p
      | Ended e \<Rightarrow> p)"

definition install_next :: "bool \<Rightarrow> proxy_point \<Rightarrow> proxy_point" where
  "install_next succeeded p =
     (case p of
        Installing (sig # rest) received \<Rightarrow>
          if \<not> succeeded then Ended (Exits 1)
          else if rest = [] then Waiting \<lparr>signal_received = received, wait_at = AtSwap\<rparr>
          else Installing rest received
      | _ \<Rightarrow> p)"

definition proceeds ::
    "('w rt \<Rightarrow> ((verb_error + int) \<times> 'w rt) option) \<Rightarrow> proxy_point \<Rightarrow> 'w rt \<Rightarrow> proxy_point \<times> 'w rt" where
  "proceeds deploy p s =
     (case p of
        Waiting g \<Rightarrow>
          (case wait_at g of
             Started \<Rightarrow>
               (case deploy s of
                  None \<Rightarrow> (Ended NeverEnds, s)
                | Some (r, s') \<Rightarrow> (Ended (Exits (exit_code r)), s'))
           | ExitedClean \<Rightarrow> (Ended (Exits 0), s)
           | _ \<Rightarrow> (case wait_step g of None \<Rightarrow> (p, s) | Some g' \<Rightarrow> (Waiting g', s)))
      | _ \<Rightarrow> (p, s))"

fun proxy_moves ::
    "('w rt \<Rightarrow> ((verb_error + int) \<times> 'w rt) option) \<Rightarrow> proxy_point \<times> 'w rt \<Rightarrow> proxy_move list
      \<Rightarrow> proxy_point \<times> 'w rt" where
  "proxy_moves deploy (p, s) [] = (p, s)"
| "proxy_moves deploy (p, s) (Sent sig # moves) = proxy_moves deploy (receives sig p, s) moves"
| "proxy_moves deploy (p, s) (Installs succeeded # moves) = proxy_moves deploy (install_next succeeded p, s) moves"
| "proxy_moves deploy (p, s) (Proceeds # moves) = proxy_moves deploy (proceeds deploy p s) moves"

definition proxy_run ::
    "'w os \<Rightarrow> 'w host \<Rightarrow> sysfs \<Rightarrow> (bytes \<Rightarrow> bytes) \<Rightarrow> usize_cfg \<Rightarrow> string \<Rightarrow> string \<Rightarrow> string \<Rightarrow> bool
      \<Rightarrow> string option \<Rightarrow> proxy_move list \<Rightarrow> 'w rt \<Rightarrow> proxy_point \<times> 'w rt" where
  "proxy_run S H fs sha cfg root target firmware skip_if_same log_target moves s =
     proxy_moves (proxy_deploy S H fs sha cfg root target firmware skip_if_same log_target)
       (Installing handler_order 0, s) moves"

text \<open>\<open>Command::Proxy\<close> of \<open>real_main\<close>; asking for the state root cannot fail.\<close>

definition proxy_command_run ::
    "'w os \<Rightarrow> 'w host \<Rightarrow> sysfs \<Rightarrow> (bytes \<Rightarrow> bytes) \<Rightarrow> usize_cfg \<Rightarrow> string option \<Rightarrow> proxy_command
      \<Rightarrow> proxy_move list \<Rightarrow> 'w rt \<Rightarrow> proxy_point \<times> 'w rt" where
  "proxy_command_run S H fs sha cfg root_flag c moves s =
     (case on_os (state_root S root_flag) s of
        (Inl e, s1) \<Rightarrow> (Ended (Exits 1), s1)
      | (Inr root, s1) \<Rightarrow>
          proxy_run S H fs sha cfg root (pc_target c) (pc_firmware c) (\<not> pc_force_reflash c) (pc_log_target c) moves s1)"

text \<open>The \<open>stop\<close> closure given to \<open>stay_resident\<close>.\<close>

definition stop_requested :: "waiting \<Rightarrow> bool" where
  "stop_requested g \<longleftrightarrow> signal_received g \<noteq> 0"

subsection \<open>What a point tells of the past\<close>








text \<open>A start signal inside \<open>pause\<close> leads to the deploy, one after the first handler is kept; a termination
  there ends the process by its default action instead of with exit code 0.\<close>

lemma early_signals:
  "proxy_moves deploy (Waiting \<lparr>signal_received = 0, wait_at = InPause\<rparr>, s) [Sent SIGUSR1, Proceeds, Proceeds] =
     (case deploy s of None \<Rightarrow> (Ended NeverEnds, s) | Some (r, s') \<Rightarrow> (Ended (Exits (exit_code r)), s'))"
  "proxy_moves deploy (Installing handler_order 0, s) [Installs True, Sent SIGUSR1, Installs True, Installs True, Proceeds] =
     (Waiting \<lparr>signal_received = 0, wait_at = Started\<rparr>, s)"
  "proxy_moves deploy (Installing handler_order 0, s) [Installs True, Sent SIGTERM] = (Ended (KilledBy SIGTERM), s)"
  by (simp_all add: receives_def install_next_def proceeds_def handler_order_def handle_signal_def wait_step_def
      fatal_by_default_def signal_numbers split: option.split)

subsection \<open>Properties\<close>

text \<open>C12: what \<open>create\<close> decided is what the proxy is run with.  Unless one of the strings begins with a hyphen, the
  command line it is spawned with is read back as the same container, and running that command is
  running the proxy on the same root, label, firmware and log target, reflashing when \<open>create\<close> was
  told to.\<close>
theorem spawned_settings_arrive:
  assumes "option_words matcher"
    and "\<forall>w \<in> {root, cid, target, firmware} \<union> set_option log_target. \<not> hyphenated w"
  shows "\<exists>root_flag c. parse_proxy matcher (spawn_args root cid target firmware skip log_target) = Some (root_flag, c) \<and>
    pc_container_id c = cid \<and>
    proxy_command_run S H fs sha cfg root_flag c = proxy_run S H fs sha cfg root target firmware skip log_target"
proof -
  have "parse_proxy matcher (spawn_args root cid target firmware skip log_target) =
      Some (Some root, \<lparr>pc_container_id = cid, pc_target = target, pc_firmware = firmware,
        pc_force_reflash = (\<not> skip), pc_log_target = log_target\<rparr>)"
    by (rule option_words.parse_spawned [OF assms(1)]) (use assms(2) in auto)
  then show ?thesis
    by (auto simp: proxy_command_run_def state_root_def io_ok_def on_os_def fun_eq_iff)
qed


text \<open>A start signal too many stops the container.  Any of the three signals that arrives after the proxy has
  started is a stop request to it, the start signal too, which \<open>kill\<close> forwards like any other: the
  resident loop then ends at its first question, with success and without a heartbeat.\<close>
theorem repeated_start_stops:
  assumes "receives SIGUSR1 (Waiting \<lparr>signal_received = 0, wait_at = Started\<rparr>) = Waiting g"
    and "\<And>w. h_stop H w = (stop_requested g, 0, w)"
  shows "\<exists>s'. stay_resident H c s = Some (Inr (), s') \<and>
    rt_trace s' = rt_trace s @ [EvStopAsked True, EvClosed (cl_inner c)]"
proof -
  have "stop_requested g"
    using assms(1) by (auto simp: receives_def handler_order_def handle_signal_def stop_requested_def signal_numbers)
  with assms(2) have "stop_asked H s = (Inr True, s\<lparr>rt_trace := rt_trace s @ [EvStopAsked True]\<rparr>)"
    by (simp add: stop_asked_def perform_def)
  then have "resident_loop H c 0 s = Some (Inr (), s\<lparr>rt_trace := rt_trace s @ [EvStopAsked True]\<rparr>)"
    by (subst resident_loop.simps) simp
  then show ?thesis by (simp add: stay_resident_def close_handle_def perform_def split: prod.split)
qed

end
