(* ===== verification/Stop_Request.thy ===== *)
theory Stop_Request
  imports Proxy_Process Lifecycle Deploy_Safety
begin

text \<open>
  A stop request on a running proxy (\<open>stop\<close> of \<open>crates/runtt/src/proxy.rs\<close>, read by \<open>stay_resident\<close> of
  \<open>crates/runtt/src/flash.rs\<close>): when it arrives is part of the world, before, during or after the deploy.
  The deploy never looks at it; what is shown is when it is honoured, and that it then is within a bound.
\<close>

subsection \<open>The contract\<close>

text \<open>\<open>left w\<close> bounds the number of sleeps until the handler has noted a signal; 0 means that it has.  No call
  takes the note back, and the closure reads it.\<close>

locale stop_request =
  fixes H :: "'w host" and left :: "'w \<Rightarrow> nat"
  assumes read_file: "left (snd (snd (h_read_file H path w))) \<le> left w"
    and open_serial: "left (snd (snd (h_open_serial H path baud ms w))) \<le> left w"
    and demux: "left (snd (snd (h_demux H n ms w))) \<le> left w"
    and open_isotp: "left (snd (snd (h_open_isotp H iface node ms w))) \<le> left w"
    and closing: "left (snd (snd (h_close H n w))) \<le> left w"
    and set_timeout: "left (snd (snd (h_set_timeout H n ms w))) \<le> left w"
    and set_retries: "left (snd (snd (h_set_retries H n k w))) \<le> left w"
    and auto_frame: "left (snd (snd (h_auto_frame H n w))) \<le> left w"
    and echoed: "left (snd (snd (h_echo H n payload w))) \<le> left w"
    and described: "left (snd (snd (h_describe H n w))) \<le> left w"
    and image_state: "left (snd (snd (h_image_state H n w))) \<le> left w"
    and upload: "left (snd (snd (h_upload H n img digest w))) \<le> left w"
    and resetting: "left (snd (snd (h_reset H n w))) \<le> left w"
    and set_state: "left (snd (snd (h_set_state H n hash confirm w))) \<le> left w"
    and sleeping: "left (snd (snd (h_sleep H ms w))) \<le> left w - 1"
    and asked: "fst (h_stop H w) \<longleftrightarrow> left w = 0" "left (snd (snd (h_stop H w))) \<le> left w"

subsection \<open>No operation puts it off\<close>

definition nearer :: "('w \<Rightarrow> nat) \<Rightarrow> ('w, 'a) rtm \<Rightarrow> bool" where
  "nearer left m \<longleftrightarrow> (\<forall>s. left (rt_world (snd (m s))) \<le> left (rt_world s))"

named_theorems nearers \<open>operations that do not put a stop request off\<close>

lemma nearerI: "(\<And>s r s'. m s = (r, s') \<Longrightarrow> left (rt_world s') \<le> left (rt_world s)) \<Longrightarrow> nearer left m"
  by (auto simp: nearer_def) (metis prod.collapse)

lemma nearer_pair: "nearer left m \<Longrightarrow> m s = (r, s') \<Longrightarrow> left (rt_world s') \<le> left (rt_world s)"
  by (auto simp: nearer_def dest: spec [of _ s])

lemma nearer_basic [nearers]:
  "nearer left (ok a)" "nearer left (fail e)" "nearer left (say p)" "nearer left (raise_io x)"
  by (auto simp: nearer_def ok_def fail_def say_def raise_io_def split: sum.splits)

lemma nearer_perform [nearers]: "(\<And>w. left (snd (snd (call w))) \<le> left w) \<Longrightarrow> nearer left (perform call ev)"
  by (rule nearerI) (auto simp: perform_def split: prod.splits, metis snd_conv)

lemma nearer_open [nearers]: "(\<And>w. left (snd (snd (call w))) \<le> left w) \<Longrightarrow> nearer left (open_handle call c)"
  by (rule nearerI) (auto simp: open_handle_def Let_def split: prod.splits sum.splits, (metis snd_conv)+)

lemma nearer_and_then [nearers]:
  "nearer left m \<Longrightarrow> (\<And>a. nearer left (f a)) \<Longrightarrow> nearer left (and_then m f)"
  by (rule nearerI) (auto simp: and_then_def split: prod.splits sum.splits dest!: nearer_pair intro: order_trans)

lemma nearer_in_context [nearers]: "nearer left m \<Longrightarrow> nearer left (in_context c m)"
  by (rule nearerI) (auto simp: in_context_def split: prod.splits sum.splits dest!: nearer_pair)

lemma nearer_attempt [nearers]: "nearer left m \<Longrightarrow> nearer left (attempt m)"
  by (rule nearerI) (auto simp: attempt_def split: prod.splits dest!: nearer_pair)

lemma nearer_cases [nearers]:
  "(\<And>x. nearer left (f x)) \<Longrightarrow> (\<And>y. nearer left (g y)) \<Longrightarrow> nearer left (case r of Inl x \<Rightarrow> f x | Inr y \<Rightarrow> g y)"
  "nearer left m \<Longrightarrow> nearer left m' \<Longrightarrow> nearer left (if b then m else m')"
  "nearer left m \<Longrightarrow> (\<And>x. nearer left (f x)) \<Longrightarrow> nearer left (case y of None \<Rightarrow> m | Some x \<Rightarrow> f x)"
  "(\<And>a b. nearer left (h a b)) \<Longrightarrow> nearer left (case p of (a, b) \<Rightarrow> h a b)"
  "(\<And>path log. nearer left (u path log)) \<Longrightarrow> (\<And>iface node log. nearer left (v iface node log)) \<Longrightarrow>
    nearer left (case res of SerialPort path log \<Rightarrow> u path log | CanNode iface node log \<Rightarrow> v iface node log)"
  "nearer left m1 \<Longrightarrow> nearer left m2 \<Longrightarrow> nearer left m3 \<Longrightarrow>
    nearer left (case st of NothingToDo \<Rightarrow> m1 | WroteRunningSlot \<Rightarrow> m2 | TestMarked \<Rightarrow> m3)"
  by (auto split: sum.splits option.splits prod.splits resolved.splits staged.splits)

definition heartbeats :: "event list \<Rightarrow> nat" where
  "heartbeats tr = length (filter (\<lambda>e. \<exists>n answered. e = EvEcho n ''hb'' answered) tr)"

subsection \<open>A deploy neither asks for a stop nor sends heartbeats\<close>

fun resident_event :: "event \<Rightarrow> bool" where
  "resident_event (EvStopAsked _) = True"
| "resident_event (EvEcho _ payload _) = (payload = ''hb'')"
| "resident_event _ = False"

definition calm :: "event list \<Rightarrow> bool" where
  "calm tr \<longleftrightarrow> list_all (\<lambda>e. \<not> resident_event e) tr"

lemma calm_simps [simp]:
  "calm []" "calm (e # tr) \<longleftrightarrow> \<not> resident_event e \<and> calm tr" "calm (tr @ u) \<longleftrightarrow> calm tr \<and> calm u"
  "calm (map EvPrint ps)" "calm (probe_events c d)" "calm (linked c)"
  by (auto simp: calm_def probe_events_def linked_def list_all_iff)

lemma calm_counts: "calm tr \<Longrightarrow> heartbeats tr = 0" "calm tr \<Longrightarrow> EvStopAsked b \<notin> set tr"
  by (auto simp: heartbeats_def calm_def list_all_iff filter_empty_conv)

lemma calm_reconnect: "reconnect_post r tr \<Longrightarrow> calm tr"
proof -
  have failed: "attempt_failed t \<Longrightarrow> calm t" for t by (auto simp: attempt_failed_def link_failed_def)
  have "retries n t \<Longrightarrow> calm t" for n t by (induction rule: retries.induct) (simp_all add: failed)
  then show "reconnect_post r tr \<Longrightarrow> calm tr" by (auto simp: reconnect_post_def)
qed

definition calmly :: "('w, 'a) rtm \<Rightarrow> bool" where
  "calmly m \<longleftrightarrow> yields m (\<lambda>r. calm)"

named_theorems calms \<open>operations that neither ask for a stop nor send heartbeats\<close>

lemma calmly_weaken: "yields m Q \<Longrightarrow> (\<And>r tr. Q r tr \<Longrightarrow> calm tr) \<Longrightarrow> calmly m"
  unfolding calmly_def by (rule yields_weaken)

lemma calmly_basic [calms]:
  "calmly (ok a)" "calmly (fail e)" "calmly (say p)" "calmly (raise_io x)" "calmly (sleep H ms)" "calmly (close_handle H n)"
  "calmly (open_handle call c)" "(\<And>x. calm (ev x)) \<Longrightarrow> calmly (perform f ev)"
  by (rule calmly_weaken [OF yields_ok] calmly_weaken [OF yields_fail] calmly_weaken [OF yields_say]
      calmly_weaken [OF yields_raise] calmly_weaken [OF yields_sleep] calmly_weaken [OF yields_close]
      calmly_weaken [OF yields_open] calmly_weaken [OF yields_perform], auto)+

lemma calmly_join [calms]:
  "calmly m \<Longrightarrow> (\<And>a. calmly (f a)) \<Longrightarrow> calmly (and_then m f)" "calmly m \<Longrightarrow> calmly (in_context x m)"
  "calmly m \<Longrightarrow> calmly (attempt m)" "calmly m \<Longrightarrow> calmly (owning H n m)" "calmly m \<Longrightarrow> calmly (dropping H n m)"
  unfolding calmly_def
  by (rule yields_weaken [OF yields_and_then] yields_weaken [OF yields_in_context] yields_weaken [OF yields_attempt]
      yields_weaken [OF yields_owning] yields_weaken [OF yields_dropping], assumption+, auto)+

lemma calmly_cases [calms]:
  "(\<And>x. calmly (f x)) \<Longrightarrow> (\<And>y. calmly (g y)) \<Longrightarrow> calmly (case r of Inl x \<Rightarrow> f x | Inr y \<Rightarrow> g y)"
  "calmly m \<Longrightarrow> calmly m' \<Longrightarrow> calmly (if b then m else m')"
  "calmly m \<Longrightarrow> (\<And>x. calmly (f x)) \<Longrightarrow> calmly (case y of None \<Rightarrow> m | Some x \<Rightarrow> f x)"
  "(\<And>a b. calmly (h a b)) \<Longrightarrow> calmly (case p of (a, b) \<Rightarrow> h a b)"
  "calmly m1 \<Longrightarrow> calmly m2 \<Longrightarrow> calmly m3 \<Longrightarrow>
    calmly (case st of NothingToDo \<Rightarrow> m1 | WroteRunningSlot \<Rightarrow> m2 | TestMarked \<Rightarrow> m3)"
  by (auto split: sum.splits option.splits prod.splits staged.splits)

lemma calmly_client [calms]:
  "payload \<noteq> ''hb'' \<Longrightarrow> calmly (echo H c payload)" "calmly (client_describe H c)" "calmly (image_list H c)"
  "calmly (client_reset H c)" "calmly (client_set_state H c h b)" "calmly (flash H sha c img f)"
  "calmly (connect H resolved)" "calmly (reconnect H resolved)" "calmly (set_limits H c t n)"
  by (rule calmly_weaken [OF yields_echo] calmly_weaken [OF yields_describe] calmly_weaken [OF yields_image_list]
      calmly_weaken [OF yields_reset] calmly_weaken [OF yields_set_state] calmly_weaken [OF yields_flash]
      calmly_weaken [OF yields_connect] calmly_weaken [OF yields_reconnect] calmly_weaken [OF yields_set_limits],
      auto simp: link_failed_def calm_reconnect)+

lemma calmly_deploy: "calmly (deploy_run H sha cfg D)"
proof -
  have image: "calmly (read_image H cfg path)" for path
    unfolding read_image_def
    by (intro calms) (auto intro!: calms split: option.split outcome.split sum.split)
  have probe: "calmly m \<Longrightarrow> calmly (probe_settings H c t k m)" for c t k and m :: "('a, 'b) rtm"
    unfolding probe_settings_def by (intro calms)
  have "calmly (identify H c)" "calmly (confirm_contract_matches H c)" for c
    unfolding identify_def report_def when_do_def confirm_contract_matches_def by (intro calms probe)+
  then have "calmly (stage_image H sha D c img digest)" "calmly (confirm_image H c digest)" for c img digest
    unfolding stage_image_def mark_landed_def confirm_image_def by (intro calms; simp)+
  then show ?thesis unfolding deploy_run_def by (intro calms image)
qed

text \<open>What a run of the proxy may have done when \<open>n\<close> calls were left until the stop request.\<close>

definition resident_bound :: "nat \<Rightarrow> verb_error + int \<Rightarrow> event list \<Rightarrow> bool" where
  "resident_bound n r tr \<longleftrightarrow> heartbeats tr \<le> n - 1 \<and> (n = 0 \<longrightarrow> EvStopAsked False \<notin> set tr) \<and>
     (\<forall>code. r = Inr code \<longrightarrow> code = 0 \<and> (\<exists>t m. tr = t @ [EvStopAsked True, EvClosed m]))"

lemma resident_bound_failed: "calm tr \<Longrightarrow> resident_bound n (Inl e) tr"
  by (simp add: resident_bound_def calm_counts)

lemma heartbeats_append: "heartbeats (tr @ u) = heartbeats tr + heartbeats u"
  by (simp add: heartbeats_def)

context stop_request
begin

lemmas calls = read_file open_serial demux open_isotp closing set_timeout set_retries auto_frame echoed described
  image_state upload resetting set_state asked(2)

lemma nearer_close [nearers]: "nearer left (close_handle H n)"
  unfolding close_handle_def by (intro nearers calls)

lemma nearer_owning: "nearer left m \<Longrightarrow> nearer left (owning H n m)"
  by (rule nearerI) (auto simp: owning_def split: prod.splits sum.splits
      dest!: nearer_pair nearer_pair [OF nearer_close] intro: order_trans)

lemma nearer_dropping: "nearer left m \<Longrightarrow> nearer left (dropping H n m)"
  by (rule nearerI) (auto simp: dropping_def split: prod.splits
      dest!: nearer_pair intro: order_trans [OF nearer_close [unfolded nearer_def, rule_format]])

lemma slept: "left (rt_world (snd (sleep H ms s))) \<le> left (rt_world s) - 1"
  using sleeping [of ms "rt_world s"] by (auto simp: sleep_def split: prod.splits)

lemma nearer_client [nearers]:
  "nearer left (client_new H n t)" "nearer left (tune_frame_size H c)" "nearer left (set_limits H c t k)"
  "nearer left (echo H c p)" "nearer left (client_describe H c)" "nearer left (image_list H c)"
  "nearer left (client_reset H c)" "nearer left (client_set_state H c h b)" "nearer left (flash H sha c img f)"
  unfolding client_new_def tune_frame_size_def set_limits_def echo_def client_describe_def image_list_def
    client_reset_def client_set_state_def flash_def
  by (intro nearers nearer_owning calls)+

lemma nearer_probe [nearers]: "nearer left m \<Longrightarrow> nearer left (probe_settings H c t k m)"
  unfolding probe_settings_def by (intro nearers)

lemma nearer_connect [nearers]: "nearer left (connect H resolved)"
  unfolding connect_def connect_serial_def connect_can_def
  by (intro nearers nearer_owning calls)

lemma nearer_connect_and_echo: "nearer left (connect_and_echo H resolved)"
  unfolding connect_and_echo_def by (intro nearers nearer_owning)

lemma nearer_reconnect [nearers]: "nearer left (reconnect H resolved)"
proof -
  have loop: "left (rt_world (snd (reconnect_loop H resolved deadline e s))) \<le> left (rt_world s)" for deadline e s
  proof (induction "deadline - rt_now s" arbitrary: e s rule: less_induct)
    case less
    let ?s = "snd (sleep H 500 s)"
    obtain r s1 where once: "connect_and_echo H resolved ?s = (r, s1)" by fastforce
    then have step: "left (rt_world s1) \<le> left (rt_world s)"
      using nearer_pair [OF nearer_connect_and_echo once] slept [of 500 s] by linarith
    have "rt_now s + 500 \<le> rt_now s1" by (rule connect_after_sleep [OF once])
    then have "left (rt_world (snd (reconnect_loop H resolved deadline e s1))) \<le> left (rt_world s)"
      if "rt_now s < deadline" for e
      using less.hyps [of s1 e] step that by linarith
    with step once show ?case
      by (subst reconnect_loop.simps) (auto split: sum.split option.split)
  qed
  then show ?thesis by (simp add: nearer_def reconnect_def)
qed

lemma nearer_identify [nearers]: "nearer left (identify H c)" "nearer left (confirm_contract_matches H c)"
  unfolding identify_def report_def when_do_def confirm_contract_matches_def by (intro nearers)+

lemma nearer_stage [nearers]: "nearer left (stage_image H sha D c img digest)" "nearer left (confirm_image H c digest)"
  unfolding stage_image_def mark_landed_def confirm_image_def by (intro nearers)+

lemma nearer_deploy: "nearer left (deploy_run H sha cfg D)"
proof -
  have "nearer left (read_image H cfg path)" for path
    unfolding read_image_def by (intro nearers calls) (auto intro!: nearers split: option.split outcome.split sum.split)
  then show ?thesis
    unfolding deploy_run_def by (intro nearers nearer_owning nearer_dropping)
qed

subsection \<open>The resident loop ends\<close>

text \<open>One turn of the loop.\<close>

lemma resident_turn:
  obtains (first_question) s' where "left (rt_world s) = 0" "resident_loop H c failures s = Some (Inr (), s')"
      "rt_trace s' = rt_trace s @ [EvStopAsked True]"
  | (second_question) s' where "left (rt_world s) \<noteq> 0" "resident_loop H c failures s = Some (Inr (), s')"
      "rt_trace s' = rt_trace s @ [EvStopAsked False, EvSleep HEARTBEAT_INTERVAL, EvStopAsked True]"
  | (beat) answered s' where "2 \<le> left (rt_world s)" "left (rt_world s') \<le> left (rt_world s) - 1"
      "rt_trace s' = rt_trace s @ [EvStopAsked False, EvSleep HEARTBEAT_INTERVAL, EvStopAsked False,
        EvEcho (cl_inner c) ''hb'' answered]"
      "resident_loop H c failures s = (if answered then resident_loop H c 0 s'
        else if 2 \<le> failures + 1 then Some (Inl (LostContact (failures + 1)), s') else resident_loop H c (failures + 1) s')"
proof -
  have ask: "\<exists>s1. stop_asked H s = (Inr (left (rt_world s) = 0), s1) \<and> left (rt_world s1) \<le> left (rt_world s) \<and>
      rt_trace s1 = rt_trace s @ [EvStopAsked (left (rt_world s) = 0)]" for s
    using asked [of "rt_world s"] by (auto simp: stop_asked_def perform_def split: prod.splits)
  obtain s1 where s1: "stop_asked H s = (Inr (left (rt_world s) = 0), s1)" "left (rt_world s1) \<le> left (rt_world s)"
    "rt_trace s1 = rt_trace s @ [EvStopAsked (left (rt_world s) = 0)]" using ask by blast
  let ?s = "snd (sleep H HEARTBEAT_INTERVAL s1)"
  have closer: "left (rt_world ?s) \<le> left (rt_world s) - 1" using slept [of HEARTBEAT_INTERVAL s1] s1(2) by linarith
  obtain s2 where s2: "stop_asked H ?s = (Inr (left (rt_world ?s) = 0), s2)" "left (rt_world s2) \<le> left (rt_world ?s)"
    "rt_trace s2 = rt_trace ?s @ [EvStopAsked (left (rt_world ?s) = 0)]" using ask by blast
  note sofar = s1(3) s2(3) sleep_step [of H HEARTBEAT_INTERVAL s1]
  obtain a s3 where echo: "echo H c ''hb'' s2 = (a, s3)" by fastforce
  have near: "left (rt_world s3) \<le> left (rt_world ?s)" using nearer_pair [OF nearer_client(4) echo] s2(2) by linarith
  show thesis
  proof (cases "left (rt_world s) = 0")
    case True
    with s1 show ?thesis by (intro first_question [of s1]) (simp_all add: resident_loop.simps [of H c failures s])
  next
    case False
    show ?thesis
    proof (cases "left (rt_world ?s) = 0")
      case True
      with False s1 s2 sofar show ?thesis
        by (intro second_question [of s2]) (simp_all add: resident_loop.simps [of H c failures s])
    next
      case last: False
      show ?thesis
        by (rule beat [of s3 "is_ok a"])
          (use False last closer near s1(1) s2(1) echo echo_step [OF echo] sofar in \<open>simp_all add: resident_loop.simps [of H c failures s]\<close>)
    qed
  qed
qed

lemma resident_loop_returns:
  "failures \<le> 1 \<Longrightarrow> \<exists>r s' tr. resident_loop H c failures s = Some (r, s') \<and> rt_trace s' = rt_trace s @ tr \<and>
    heartbeats tr \<le> left (rt_world s) - 1 \<and> (left (rt_world s) = 0 \<longrightarrow> tr = [EvStopAsked True]) \<and>
    (r = Inr () \<longrightarrow> (\<exists>t. tr = t @ [EvStopAsked True]))"
proof (induction "left (rt_world s)" arbitrary: failures s rule: less_induct)
  case less
  show ?case
  proof (cases rule: resident_turn [of s c failures])
    case (beat answered s1)
    let ?tr = "[EvStopAsked False, EvSleep HEARTBEAT_INTERVAL, EvStopAsked False, EvEcho (cl_inner c) ''hb'' answered]"
    have one: "heartbeats (?tr @ tr) = Suc (heartbeats tr)" for tr by (simp add: heartbeats_def)
    show ?thesis
    proof (cases "answered \<or> failures = 0")
      case True
      then obtain failures' where turn: "resident_loop H c failures s = resident_loop H c failures' s1" "failures' \<le> 1"
        using beat(4) by (cases answered) auto
      from less.hyps [OF _ turn(2), of s1] beat(1,2) obtain r s' tr where
        "resident_loop H c failures' s1 = Some (r, s')" "rt_trace s' = rt_trace s1 @ tr"
        "heartbeats tr \<le> left (rt_world s1) - 1" "r = Inr () \<longrightarrow> (\<exists>t. tr = t @ [EvStopAsked True])" by fastforce
      moreover from this(4) have "r = Inr () \<longrightarrow> (\<exists>t. ?tr @ tr = t @ [EvStopAsked True])" by (metis append.assoc)
      ultimately show ?thesis
        using beat(1-3) turn(1) one [of tr] by (intro exI [of _ r] exI [of _ s'] exI [of _ "?tr @ tr"]) simp
    next
      case False
      with less.prems beat(4) have "resident_loop H c failures s = Some (Inl (LostContact 2), s1)" by (simp add: numeral_2_eq_2)
      with beat(1,3) one [of "[]"] show ?thesis by (simp add: heartbeats_def)
    qed
  qed (simp_all add: heartbeats_def)
qed

lemma stay_resident_returns:
  "\<exists>r s' tr. stay_resident H c s = Some (r, s') \<and> rt_trace s' = rt_trace s @ tr \<and>
    heartbeats tr \<le> left (rt_world s) - 1 \<and>
    (left (rt_world s) = 0 \<longrightarrow> tr = [EvStopAsked True, EvClosed (cl_inner c)]) \<and>
    (r = Inr () \<longrightarrow> (\<exists>t. tr = t @ [EvStopAsked True, EvClosed (cl_inner c)]))"
proof -
  obtain r s1 tr where loop: "resident_loop H c 0 s = Some (r, s1)" "rt_trace s1 = rt_trace s @ tr"
    "heartbeats tr \<le> left (rt_world s) - 1" "left (rt_world s) = 0 \<longrightarrow> tr = [EvStopAsked True]"
    "r = Inr () \<longrightarrow> (\<exists>t. tr = t @ [EvStopAsked True])"
    using resident_loop_returns [of 0 c s] by auto
  have "rt_trace (snd (close_handle H (cl_inner c) s1)) = rt_trace s1 @ [EvClosed (cl_inner c)]"
    by (simp add: close_handle_def perform_def split: prod.split)
  with loop show ?thesis
    by (intro exI [of _ r] exI [of _ "snd (close_handle H (cl_inner c) s1)"] exI [of _ "tr @ [EvClosed (cl_inner c)]"])
      (simp add: stay_resident_def heartbeats_def)
qed

lemma proxy_deploy_returns:
  assumes locking: "\<And>name. locking_keeps S root name (\<lambda>w w'. left w' \<le> left w)"
  shows "\<exists>r s' tr. proxy_deploy S H fs sha cfg root target firmware skip log_target s = Some (r, s') \<and>
    rt_trace s' = rt_trace s @ tr \<and> resident_bound (left (rt_world s)) r tr"
proof (cases "resolve_label fs (ResolveTarget target) target")
  case (Inl e)
  then show ?thesis by (simp add: proxy_deploy_def resident_bound_def heartbeats_def)
next
  case (Inr resolved)
  let ?claim = "io_context AlreadyInUse (acquire_resolved S root (lock_key fs resolved))"
  obtain q s1 where claim: "on_os ?claim s = (q, s1)" by fastforce
  have "keeping (\<lambda>w w'. left w' \<le> left w) ?claim"
    unfolding acquire_resolved_def by (intro keeps_intros acquire_named_keeps locking)
  then have s1: "left (rt_world s1) \<le> left (rt_world s)" "rt_trace s1 = rt_trace s"
    using claim by (auto simp: on_os_def dest: keepingD split: prod.splits)
  consider (stops) e where "proxy_deploy S H fs sha cfg root target firmware skip log_target s = Some (Inl e, s1)"
    | (deploys) fd resolved' s2 where "q = Inr fd" "with_log_target fs log_target resolved = Inr resolved'"
      "s2 = (if log_source resolved' = None then snd (say SingleChannel s1) else s1)"
    using Inr claim by (cases q; cases "with_log_target fs log_target resolved") (auto simp: proxy_deploy_def)
  then show ?thesis
  proof cases
    case stops
    with s1(2) show ?thesis by (simp add: resident_bound_def heartbeats_def)
  next
    case deploys
    let ?D = "\<lparr>dp_firmware = firmware, dp_resolved = resolved', dp_skip_if_same = skip\<rparr>"
    have s2: "left (rt_world s2) = left (rt_world s1)" "\<exists>t. rt_trace s2 = rt_trace s @ t \<and> calm t"
      using s1(2) by (auto simp: deploys(3) say_def)
    then obtain t2 where t2: "rt_trace s2 = rt_trace s @ t2" "calm t2" by blast
    obtain d s3 where run: "deploy_run H sha cfg ?D s2 = (d, s3)" by fastforce
    obtain t3 where t3: "rt_trace s3 = rt_trace s2 @ t3" "calm t3"
      using yieldsD [OF calmly_deploy [unfolded calmly_def] run] by blast
    have s3: "left (rt_world s3) \<le> left (rt_world s)"
      using nearer_pair [OF nearer_deploy run] s1(1) s2(1) by linarith
    show ?thesis
    proof (cases d)
      case (Inl e)
      with Inr claim deploys run t2 t3 show ?thesis
        by (simp add: proxy_deploy_def Let_def resident_bound_failed)
    next
      case (Inr c)
      obtain r s4 t4 where res: "stay_resident H c s3 = Some (r, s4)" "rt_trace s4 = rt_trace s3 @ t4"
        "heartbeats t4 \<le> left (rt_world s3) - 1"
        "left (rt_world s3) = 0 \<longrightarrow> t4 = [EvStopAsked True, EvClosed (cl_inner c)]"
        "r = Inr () \<longrightarrow> (\<exists>t. t4 = t @ [EvStopAsked True, EvClosed (cl_inner c)])"
        using stay_resident_returns [of c s3] by auto
      let ?r = "case r of Inl e \<Rightarrow> Inl (DeployFailed e) | Inr _ \<Rightarrow> Inr 0"
      have "heartbeats (t2 @ t3 @ t4) \<le> left (rt_world s) - 1"
        using res(3) s3 t2(2) t3(2) by (simp add: heartbeats_append calm_counts)
      moreover have "left (rt_world s) = 0 \<longrightarrow> EvStopAsked False \<notin> set (t2 @ t3 @ t4)"
        using res(4) s3 t2(2) t3(2) by (auto simp: calm_counts)
      moreover have "\<exists>t m. t2 @ t3 @ t4 = t @ [EvStopAsked True, EvClosed m]" if "r = Inr ()"
        using res(5) that by (metis append.assoc)
      ultimately have "resident_bound (left (rt_world s)) ?r (t2 @ t3 @ t4)"
        by (cases r) (auto simp: resident_bound_def)
      moreover have "proxy_deploy S H fs sha cfg root target firmware skip log_target s = Some (?r, s4)"
        using \<open>resolve_label _ _ _ = _\<close> claim deploys run Inr res(1)
        by (cases r) (simp_all add: proxy_deploy_def Let_def)
      ultimately show ?thesis using t2(1) t3(1) res(2) by (intro exI conjI) (assumption, simp_all)
    qed
  qed
qed

end

subsection \<open>Signals that arrive during the calls\<close>

text \<open>A world with the flag and the signals to come, one for each call on the board or the operating system (0 where
  none arrives), and a termination when they are used up; what the handler does with one is \<open>receives\<close>.\<close>

record 'w signalled =
  sg_world :: 'w
  sg_flag :: int
  sg_coming :: "int list"

definition noted :: "int \<Rightarrow> int \<Rightarrow> int" where
  "noted sig flag =
     (case receives sig (Waiting \<lparr>signal_received = flag, wait_at = Started\<rparr>) of
        Waiting g \<Rightarrow> signal_received g
      | _ \<Rightarrow> flag)"

definition delivers :: "'w signalled \<Rightarrow> 'w signalled" where
  "delivers w =
     (case sg_coming w of
        [] \<Rightarrow> w\<lparr>sg_flag := noted SIGTERM (sg_flag w)\<rparr>
      | sig # rest \<Rightarrow> w\<lparr>sg_flag := (if sig \<in> set handler_order then noted sig (sg_flag w) else sg_flag w), sg_coming := rest\<rparr>)"

definition beneath :: "('w, 'r) step \<Rightarrow> ('w signalled, 'r) step" where
  "beneath call w = (case call (sg_world w) of (r, dt, w') \<Rightarrow> (r, dt, delivers (w\<lparr>sg_world := w'\<rparr>)))"

definition with_signals :: "'w host \<Rightarrow> 'w signalled host" where
  "with_signals H = \<lparr>h_read_file = (\<lambda>path. beneath (h_read_file H path)),
     h_open_serial = (\<lambda>path baud ms. beneath (h_open_serial H path baud ms)),
     h_demux = (\<lambda>n ms. beneath (h_demux H n ms)),
     h_open_isotp = (\<lambda>iface node ms. beneath (h_open_isotp H iface node ms)),
     h_close = (\<lambda>n. beneath (h_close H n)), h_set_timeout = (\<lambda>n ms. beneath (h_set_timeout H n ms)),
     h_set_retries = (\<lambda>n k. beneath (h_set_retries H n k)), h_auto_frame = (\<lambda>n. beneath (h_auto_frame H n)),
     h_echo = (\<lambda>n payload. beneath (h_echo H n payload)), h_describe = (\<lambda>n. beneath (h_describe H n)),
     h_image_state = (\<lambda>n. beneath (h_image_state H n)),
     h_upload = (\<lambda>n img digest. beneath (h_upload H n img digest)), h_reset = (\<lambda>n. beneath (h_reset H n)),
     h_set_state = (\<lambda>n hash confirm. beneath (h_set_state H n hash confirm)),
     h_sleep = (\<lambda>ms. beneath (h_sleep H ms)),
     h_stop = (\<lambda>w. (stop_requested \<lparr>signal_received = sg_flag w, wait_at = Started\<rparr>, 0, w))\<rparr>"


text \<open>The calls left until the flag is set.\<close>

definition calls_left :: "'w signalled \<Rightarrow> nat" where
  "calls_left w =
     (if sg_flag w \<noteq> 0 then 0 else Suc (length (takeWhile (\<lambda>sig. sig \<notin> set handler_order) (sg_coming w))))"

lemma noted_signal: "sig \<in> set handler_order \<Longrightarrow> noted sig flag = sig"
  by (auto simp: noted_def receives_def handle_signal_def handler_order_def)

lemma delivers_nearer: "calls_left (delivers w) \<le> calls_left w - 1"
proof -
  have "0 \<notin> set handler_order" "SIGTERM \<in> set handler_order" by (simp_all add: handler_order_def signal_numbers)
  then show ?thesis
    by (cases "sg_coming w") (auto simp: calls_left_def delivers_def noted_signal)
qed

lemma calls_left_world [simp]: "calls_left (w\<lparr>sg_world := v\<rparr>) = calls_left w"
  by (simp add: calls_left_def)

lemma beneath_nearer: "calls_left (snd (snd (beneath call w))) \<le> calls_left w - 1"
  using delivers_nearer [of "w\<lparr>sg_world := v\<rparr>" for v] by (auto simp: beneath_def split: prod.split)

interpretation signalled: stop_request "with_signals H" calls_left for H
proof
  show "fst (h_stop (with_signals H) w) \<longleftrightarrow> calls_left w = 0" for w
    by (simp add: with_signals_def stop_requested_def calls_left_def)
qed (use beneath_nearer le_trans [OF beneath_nearer diff_le_self] in \<open>simp_all add: with_signals_def\<close>)


subsection \<open>Property\<close>


end
