(* ===== verification/Kernel_Run.thy ===== *)
theory Kernel_Run
  imports Kernel Trace_Apart Liveness Stop_Request
begin

text \<open>
  A container brought up on the kernel of \<open>Kernel\<close>: \<open>create\<close> on a bundle, the proxy up to its wait, \<open>start\<close>,
  the signal.  The run witnesses the properties of \<open>System\<close>.
\<close>

subsection \<open>The bundle and what it asks for\<close>

definition boot_kernel :: kernel where
  "boot_kernel = \<lparr>k_files = [([''b'', ''config.json''], [9]), ([''b'', ''rootfs'', ''app.bin''], [1, 2, 3])],
     k_opened = [], k_held = Map.empty, k_alive = [], k_events = [], k_clock = 0, k_calls = 0,
     k_fails = (\<lambda>_. False), k_printed = []\<rparr>"

lemma boot_paths:
  "path_components (path_join ''/b'' ''config.json'') = [''b'', ''config.json'']"
  "path_join (path_join ''/b'' ''rootfs'') ''app.bin'' = ''/b/rootfs/app.bin''"
  "path_components ''/b/rootfs/app.bin'' = [''b'', ''rootfs'', ''app.bin'']"
  "path_components (path_join ''/run/runtt'' (lock_name ''can:can0/0x42'')) =
    [''run'', ''runtt'', ''occupancy-can_can0_0x42.lock'']"
  "path_components (state_file ''/run/runtt'' ''app'') = [''run'', ''runtt'', ''app'', ''state.json'']"
  "path_components (state_tmp ''/run/runtt'' ''app'') = [''run'', ''runtt'', ''app'', ''state.json.tmp'']"
  by code_simp+

lemma boot_label: "\<exists>t. target_parse ''can:can0/0x42'' = Inr t"
proof -
  have "is_ok (target_parse ''can:can0/0x42'')" by code_simp
  then show ?thesis by (cases "target_parse ''can:can0/0x42''") (auto simp: is_ok_def)
qed

lemma kernel_fails_simps [simp]:
  "k_fails (counted w) = k_fails w" "k_fails (put_file p b w) = k_fails w"
  by (simp_all add: counted_def put_file_def)

lemma never_fails: "k_fails w = (\<lambda>_. False) \<Longrightarrow> \<not> kernel_fails w"
  by (simp add: kernel_fails_def)

lemma boot_request:
  "read_request kernel_os sample_json ''/b'' boot_kernel =
    (Inr (''can:can0/0x42'', ''/b/rootfs/app.bin'', None, True), counted (counted boot_kernel))"
proof -
  obtain t where t: "target_parse ''can:can0/0x42'' = Inr t" using boot_label by blast
  have "content boot_kernel [''b'', ''config.json''] = Some [9]" by (simp add: boot_kernel_def content_def)
  then show ?thesis
    by (simp add: read_request_def read_spec_def io_run kernel_os_def kernel_read_def boot_paths never_fails sample_json_def
     spec_target_def annotation_def t locate_firmware_def starts_with_def Let_def spec_log_target_def
     SPEC_TARGET_def SPEC_LOG_TARGET_def SPEC_SKIP_IF_SAME_def spec_skip_if_same_def)
   (simp add: boot_kernel_def never_fails counted_def)
qed

subsection \<open>The steps of create and start\<close>

lemma boot_acquire:
  "\<exists>w fd. acquire kernel_os ''/run/runtt'' ''can:can0/0x42'' (counted (counted boot_kernel)) = (Inr fd, w) \<and>
    k_alive w = [] \<and> k_events w = [] \<and> k_fails w = (\<lambda>_. False)"
  by (simp add: acquire_def acquire_named_def clear_cloexec_def io_run kernel_os_def kernel_open_def
        kernel_flock_def put_file_def boot_paths never_fails boot_kernel_def Let_def content_def)
    (simp add: counted_def never_fails fresh_fd_def put_file_def)

lemma sample_write:
  assumes "k_fails w = (\<lambda>_. False)" and "js_state_out sample_json (sample_state st) = Inr b"
  shows "\<exists>w'. state_write kernel_os sample_json ''/run/runtt'' (sample_state st) w = (Inr (), w') \<and>
    k_alive w' = k_alive w \<and> k_events w' = k_events w \<and> k_fails w' = (\<lambda>_. False) \<and>
    content w' [''run'', ''runtt'', ''app'', ''state.json''] = Some b"
  using assms
  by (simp add: state_write_def io_run sample_id kernel_os_def kernel_write_def kernel_rename_def boot_paths never_fails
      update_conv' delete_fun)
    (simp add: counted_def put_file_def)

lemma sample_reading:
  assumes "k_fails w = (\<lambda>_. False)" and "content w [''run'', ''runtt'', ''app'', ''state.json''] = Some b"
    and "js_state_in sample_json b = Inr (sample_state st)"
  shows "state_read kernel_os sample_json ''/run/runtt'' ''app'' w = (Inr (sample_state st), counted w)"
  using assms by (simp add: state_read_def sample_id io_run kernel_os_def kernel_read_def boot_paths never_fails)

lemma created_sample: "created_state ''app'' ''/b'' 100 ''can:can0/0x42'' ''/b/rootfs/app.bin'' = sample_state Created"
  by (simp add: sample_state_def created_state_def set_annotation_def new_state_def)

lemma boot_spawn:
  assumes "k_fails w = (\<lambda>_. False)" and "k_alive w = []" and "k_events w = []"
  shows "\<exists>w'. spawn kernel_os root cid target firmware skip log_target fd w = (Inr 100, w') \<and>
    k_alive w' = [100] \<and> k_events w' = [Spawned 100] \<and> k_fails w' = (\<lambda>_. False)"
  using assms by (simp add: spawn_def io_run kernel_os_def kernel_spawn_def never_fails) (simp add: counted_def)

lemma sample_states_out [simp]:
  "js_state_out sample_json (sample_state Created) = Inr [1]"
    "js_state_out sample_json (sample_state Running) = Inr [2]"
  "js_state_in sample_json [1] = Inr (sample_state Created)"
proof -
  have "sample_state Running \<noteq> sample_state Created" by (metis container_status.distinct(7) sample_state_simps(3))
  then show "js_state_out sample_json (sample_state Created) = Inr [1]"
    "js_state_out sample_json (sample_state Running) = Inr [2]"
  "js_state_in sample_json [1] = Inr (sample_state Created)" by (simp_all add: sample_json_def)
qed

lemma boot_create:
  "\<exists>w. create kernel_os sample_json ''/run/runtt'' ''app'' ''/b'' None boot_kernel = (Inr (), w) \<and>
    k_alive w = [100] \<and> k_events w = [Spawned 100] \<and> k_fails w = (\<lambda>_. False) \<and>
    content w [''run'', ''runtt'', ''app'', ''state.json''] = Some [1]"
proof -
  obtain w1 fd where w1: "acquire kernel_os ''/run/runtt'' ''can:can0/0x42'' (counted (counted boot_kernel)) = (Inr fd, w1)"
    "k_alive w1 = []" "k_events w1 = []" "k_fails w1 = (\<lambda>_. False)" using boot_acquire by blast
  obtain w2 where w2: "spawn kernel_os ''/run/runtt'' ''app'' ''can:can0/0x42'' ''/b/rootfs/app.bin'' True None fd w1 = (Inr 100, w2)"
    "k_alive w2 = [100]" "k_events w2 = [Spawned 100]" "k_fails w2 = (\<lambda>_. False)" using boot_spawn [OF w1(4,2,3)] by blast
  obtain w3 where "state_write kernel_os sample_json ''/run/runtt'' (sample_state Created) w2 = (Inr (), w3)"
    "k_alive w3 = [100]" "k_events w3 = [Spawned 100]" "k_fails w3 = (\<lambda>_. False)"
    "content w3 [''run'', ''runtt'', ''app'', ''state.json''] = Some [1]"
    using sample_write [OF w2(4), of Created "[1]"] w2(2,3) by auto
  then show ?thesis
    by (simp add: create_def io_run sample_id boot_request w1(1) w2(1) guarded_def record_created_def created_sample)
qed

lemma boot_start:
  assumes "k_alive w = [100]" "k_events w = [Spawned 100]" "k_fails w = (\<lambda>_. False)"
    "content w [''run'', ''runtt'', ''app'', ''state.json''] = Some [1]"
  shows "\<exists>w'. start kernel_os sample_json ''/run/runtt'' ''app'' w = (Inr (), w') \<and>
    k_events w' = [Spawned 100, Signalled 100 SIGUSR1]"
proof -
  have rd: "state_read kernel_os sample_json ''/run/runtt'' ''app'' w = (Inr (sample_state Created), counted w)"
    by (rule sample_reading [OF assms(3,4)]) simp
  obtain w1 where w1: "signal_proxy kernel_os 100 SIGUSR1 (counted w) = (Inr (), w1)"
    "k_events w1 = [Spawned 100, Signalled 100 SIGUSR1]"
    "k_fails w1 = (\<lambda>_. False)"
    using assms(1-3) by (simp add: signal_proxy_def io_run kernel_os_def kernel_kill_def alive_def) (simp add: counted_def)
  have "(sample_state Created)\<lparr>cs_status := Running\<rparr> = sample_state Running" by (simp add: sample_state_def)
  with sample_write [OF w1(3), of Running "[2]"] w1(1,2) rd show ?thesis
    by (auto simp: start_def io_run)
qed

text \<open>Created, its proxy set up to be started, started, deploying.\<close>

lemma boot_runs:
  obtains s where "engine_run kernel_os sample_json ''/run/runtt'' content k_events s"
    "sy_gates s 100 = Some \<lparr>signal_received = 0, wait_at = Started\<rparr>"
    "k_events (sy_world s) = [Spawned 100, Signalled 100 SIGUSR1]"
proof -
  let ?run = "engine_run kernel_os sample_json ''/run/runtt'' content k_events"
  have "stored sample_json content ''/run/runtt'' boot_kernel cid = None" for cid
    by (simp add: stored_def boot_kernel_def content_def path_components_def)
  then have "?run \<lparr>sy_world = boot_kernel, sy_gates = Map.empty, sy_pending = [], sy_log = []\<rparr>"
    by (intro engine_run.fresh) (auto simp: boot_kernel_def)
  moreover obtain w where w: "create kernel_os sample_json ''/run/runtt'' ''app'' ''/b'' None boot_kernel = (Inr (), w)"
    "k_alive w = [100]" "k_events w = [Spawned 100]" "k_fails w = (\<lambda>_. False)"
    "content w [''run'', ''runtt'', ''app'', ''state.json''] = Some [1]" using boot_create by blast
  moreover have "k_events boot_kernel = []" by (simp add: boot_kernel_def)
  ultimately have "?run \<lparr>sy_world = w, sy_gates = Map.empty, sy_pending = [Spawned 100], sy_log = [(VCreate, ''app'')]\<rparr>"
    using engine_run.command [OF _ run_create, of kernel_os sample_json "''/run/runtt''" content k_events _
        "''app''" "''/b''" None] by fastforce
  from engine_run.arrival [OF this]
  have "?run \<lparr>sy_world = w, sy_gates = [100 \<mapsto> \<lparr>signal_received = 0, wait_at = NoHandlers\<rparr>],
    sy_pending = [], sy_log = [(VCreate, ''app'')]\<rparr>" by simp
  from engine_run.proxy [OF this, of 100] 
  have ready: "?run \<lparr>sy_world = w, sy_gates = [100 \<mapsto> \<lparr>signal_received = 0, wait_at = AtSwap\<rparr>],
    sy_pending = [], sy_log = [(VCreate, ''app'')]\<rparr>" by (simp add: wait_step_def)
  obtain w' where w': "start kernel_os sample_json ''/run/runtt'' ''app'' w = (Inr (), w')"
    "k_events w' = [Spawned 100, Signalled 100 SIGUSR1]" using boot_start [OF w(2-5)] by blast
  with engine_run.command [OF ready run_start, of "''app''" "Inr ()" w' "[Signalled 100 SIGUSR1]"] w(3)
  have "?run \<lparr>sy_world = w', sy_gates = [100 \<mapsto> \<lparr>signal_received = 0, wait_at = AtSwap\<rparr>],
    sy_pending = [Signalled 100 SIGUSR1], sy_log = [(VCreate, ''app''), (VStart, ''app'')]\<rparr>" by simp
  from engine_run.arrival [OF this] have
    "?run \<lparr>sy_world = w', sy_gates = [100 \<mapsto> \<lparr>signal_received = SIGUSR1, wait_at = AtSwap\<rparr>],
    sy_pending = [], sy_log = [(VCreate, ''app''), (VStart, ''app'')]\<rparr>" by (simp add: handled_signals_def handle_signal_def signal_numbers)
  from engine_run.proxy [OF this, of 100] have
    "?run \<lparr>sy_world = w', sy_gates = [100 \<mapsto> \<lparr>signal_received = 0, wait_at = Started\<rparr>],
    sy_pending = [], sy_log = [(VCreate, ''app''), (VStart, ''app'')]\<rparr>" by (simp add: wait_step_def signal_numbers)
  then show thesis by (rule that) (simp_all add: w'(2))
qed

subsection \<open>Witnesses\<close>

lemma only_own_processes_witness:
  "\<exists>s. engine_run kernel_os sample_json ''/run/runtt'' content k_events s \<and>
    k_events (sy_world s) = [Spawned 100, Signalled 100 SIGUSR1] \<and>
    (\<forall>p sig. Signalled p sig \<in> set (k_events (sy_world s)) \<longrightarrow> Spawned p \<in> set (k_events (sy_world s)))"
proof -
  obtain s where s: "engine_run kernel_os sample_json ''/run/runtt'' content k_events s"
    "k_events (sy_world s) = [Spawned 100, Signalled 100 SIGUSR1]" using boot_runs by blast
  from only_own_processes [OF kernel_runtime.runtime_host_axioms sample_reads_back s(1)]
  have "\<forall>p sig. Signalled p sig \<in> set (k_events (sy_world s)) \<longrightarrow> Spawned p \<in> set (k_events (sy_world s))"
    by (rule conjunct2)
  with s show ?thesis by (intro exI [of _ s] conjI)
qed

lemma deploys_only_when_started_witness:
  "\<exists>s. engine_run kernel_os sample_json ''/run/runtt'' content k_events s \<and>
    Signalled 100 SIGUSR1 \<in> set (k_events (sy_world s)) \<and>
    (\<exists>c. (VStart, c) \<in> set (sy_log s) \<or> (VKill, c) \<in> set (sy_log s))"
proof -
  obtain s where s: "engine_run kernel_os sample_json ''/run/runtt'' content k_events s"
    "sy_gates s 100 = Some \<lparr>signal_received = 0, wait_at = Started\<rparr>" using boot_runs by blast
  then have "Signalled 100 SIGUSR1 \<in> set (k_events (sy_world s)) \<and>
      (\<exists>c. (VStart, c) \<in> set (sy_log s) \<or> (VKill, c) \<in> set (sy_log s))"
    by (intro deploys_only_when_started [OF kernel_runtime.runtime_host_axioms sample_reads_back]) auto
  then show ?thesis by (intro exI [of _ s]) (rule conjI [OF s(1)])
qed

subsection \<open>The proxy as a process\<close>


lemma spawned_settings_arrive_witness:
  "parse_proxy match_words (spawn_args ''/run/runtt'' ''app'' ''tty:/dev/ttyACM0'' ''/b/rootfs/app.bin'' False None) \<noteq> None"
  using spawned_settings_arrive [OF matched.option_words_axioms, of "''/run/runtt''" "''app''" "''tty:/dev/ttyACM0''"
      "''/b/rootfs/app.bin''" None False kernel_os empty_port bench id "cfg64 True"]
  by (auto simp: hyphenated_def)




subsection \<open>Tracing on the kernel\<close>

definition trace_contents :: "kernel \<Rightarrow> string list \<Rightarrow> bytes" where
  "trace_contents w p = (case content w p of None \<Rightarrow> [] | Some b \<Rightarrow> b)"

lemma trace_contents_simps [simp]:
  "trace_contents (put_file p b w) = (trace_contents w)(p := b)" "trace_contents (counted w) = trace_contents w"
  by (auto simp: trace_contents_def)













subsection \<open>A kernel that does not fail\<close>

definition sound_kernel :: "kernel \<Rightarrow> bool" where
  "sound_kernel w \<longleftrightarrow> k_fails w = (\<lambda>_. False)"

lemma sound_kernel_simps [simp]:
  "sound_kernel w \<Longrightarrow> \<not> kernel_fails w" "sound_kernel (counted w) = sound_kernel w"
  "sound_kernel (put_file p b w) = sound_kernel w" "sound_kernel (w\<lparr>k_files := x1\<rparr>) = sound_kernel w"
  "sound_kernel (w\<lparr>k_opened := x2\<rparr>) = sound_kernel w" "sound_kernel (w\<lparr>k_held := x3\<rparr>) = sound_kernel w"
  "sound_kernel (w\<lparr>k_alive := x4\<rparr>) = sound_kernel w" "sound_kernel (w\<lparr>k_events := x5\<rparr>) = sound_kernel w"
  "sound_kernel (w\<lparr>k_clock := x6\<rparr>) = sound_kernel w" "sound_kernel (w\<lparr>k_printed := x7\<rparr>) = sound_kernel w"
  by (simp_all add: sound_kernel_def kernel_fails_def)

lemma alive_simps [simp]: "alive (counted w) = alive w" "alive (w\<lparr>k_events := x\<rparr>) = alive w"
    "alive (counted w\<lparr>k_alive := k_alive w\<rparr>) = alive w"
  by (auto simp: alive_def counted_def)

interpretation kernel_obliges: obliging_host kernel_os content k_events alive k_clock sound_kernel
  by unfold_locales
    (auto simp: kernel_os_def kernel_calls Let_def is_ok_def stays_def reading_keeps_def writing_keeps_def waiting_keeps_def
      reflp_def transp_def SIGKILL_def split: if_splits option.splits)

theorem create_succeeds_when_asked_well_witness:
  "\<exists>w'. create kernel_os (sample_json\<lparr>js_state_out := (\<lambda>st. Inr [1])\<rparr>) ''/run/runtt'' ''app'' ''/b'' (Some ''/b/pid'') boot_kernel =
    (Inr (), w')"
proof -
  let ?J = "sample_json\<lparr>js_state_out := (\<lambda>st. Inr [1])\<rparr>"
  have "read_request kernel_os ?J ''/b'' boot_kernel = read_request kernel_os sample_json ''/b'' boot_kernel"
    by (simp add: read_request_def read_spec_def)
  then have request: "read_request kernel_os ?J ''/b'' boot_kernel =
      (Inr (''can:can0/0x42'', ''/b/rootfs/app.bin'', None, True), counted (counted boot_kernel))"
    by (simp only: boot_request)
  obtain w fd where claim: "acquire kernel_os ''/run/runtt'' ''can:can0/0x42'' (counted (counted boot_kernel)) = (Inr fd, w)"
    "k_fails w = (\<lambda>_. False)" using boot_acquire by blast
  show ?thesis
    by (rule create_succeeds_when_asked_well [OF kernel_obliges.obliging_host_axioms sample_id request claim(1)])
      (simp_all add: sound_kernel_def claim(2) is_ok_def)
qed

theorem recorded_containers_progress_witness:
  "\<exists>w w'. stored sample_json content ''/run/runtt'' w ''app'' = Some (sample_state Created) \<and>
    start kernel_os sample_json ''/run/runtt'' ''app'' w = (Inr (), w') \<and>
    stored sample_json content ''/run/runtt'' w' ''app'' = Some (sample_state Running)"
proof -
  obtain w where w: "k_alive w = [100]" "k_fails w = (\<lambda>_. False)"
    "content w [''run'', ''runtt'', ''app'', ''state.json''] = Some [1]" using boot_create by blast
  have rec: "stored sample_json content ''/run/runtt'' w ''app'' = Some (sample_state Created)"
    by (simp add: stored_def sample_id path_components_def w(3))
  have states: "(sample_state Created)\<lparr>cs_status := Running\<rparr> = sample_state Running"
    "(sample_state Created)\<lparr>cs_status := Stopped\<rparr> = sample_state Stopped" by (simp_all add: sample_state_def)
  have "is_ok (js_state_out sample_json (sample_state Stopped))" by (simp add: sample_json_def is_ok_def)
  then show ?thesis
    using recorded_containers_progress [OF kernel_obliges.obliging_host_axioms sample_reads_back _ rec
        sample_state_well_formed] w(1,2) rec states
    by (auto simp: sound_kernel_def alive_def is_ok_def)
qed

end
