(* ===== verification/Bench_Tools.thy ===== *)
theory Bench_Tools
  imports Log_Channel Trace_Logic
begin

text \<open>
  The command line tools for a board on the bench (\<open>crates/runtt-smp/examples\<close>: \<open>ping\<close>, \<open>can-ping\<close>, \<open>reset\<close>,
  \<open>stage\<close>, \<open>parse_image\<close>; \<open>crates/runtt-transport/examples\<close>: \<open>resolve\<close>, \<open>can-logs\<close>).  Each is \<open>main\<close> over its
  arguments, the name of the program first.  What is printed is one constructor per place it is
  printed from, with the values printed.
\<close>

datatype tool_line =
    CannotOpen string deploy_error
  | OpenedNode string nat
  | EchoIs string
  | EchoFailed deploy_error
  | NoImages
  | SlotLine image_slot
  | SlotAt string image_slot
  | ListFailed deploy_error
  | ListFailedAt string deploy_error
  | DescribeIs describe
  | DescribeFailed deploy_error
  | ResetSent
  | ResetRefused deploy_error
  | UploadingFile nat string
  | UploadComplete
  | TestAccepted
  | TestRefused deploy_error
  | Usage
  | CannotRead string deploy_error
  | ImageIs string nat image_info bytes
  | NotUsable image_error

text \<open>How \<open>main\<close> ends when it does not return: it exits, panics (\<open>expect\<close>), or never ends (\<open>mcuboot::parse\<close>).\<close>

datatype tool_end = Exit nat | Panicked | NeverEnds

record 'w bench =
  bn_rt :: "'w rt"
  bn_out :: "tool_line list"

type_synonym ('w, 'a) tool = "'w bench \<Rightarrow> (tool_end + 'a) \<times> 'w bench"

subsection \<open>Sequencing\<close>

definition tool_ok :: "'a \<Rightarrow> ('w, 'a) tool" where
  "tool_ok a b = (Inr a, b)"

definition leave :: "tool_end \<Rightarrow> ('w, 'a) tool" where
  "leave e b = (Inl e, b)"

definition goes_on :: "('w, 'a) tool \<Rightarrow> ('a \<Rightarrow> ('w, 'b) tool) \<Rightarrow> ('w, 'b) tool" where
  "goes_on m f b = (case m b of (Inl e, b') \<Rightarrow> (Inl e, b') | (Inr a, b') \<Rightarrow> f a b')"

definition tell :: "tool_line \<Rightarrow> ('w, unit) tool" where
  "tell l b = (Inr (), b\<lparr>bn_out := bn_out b @ [l]\<rparr>)"

definition tells :: "tool_line list \<Rightarrow> ('w, unit) tool" where
  "tells ls b = (Inr (), b\<lparr>bn_out := bn_out b @ ls\<rparr>)"

text \<open>A call of the client whose result the tool looks at; and one it expects to succeed.\<close>

definition tried :: "('w, 'a) rtm \<Rightarrow> ('w, deploy_error + 'a) tool" where
  "tried m b = (case m (bn_rt b) of (r, s) \<Rightarrow> (Inr r, b\<lparr>bn_rt := s\<rparr>))"

definition expect :: "('w, 'a) rtm \<Rightarrow> ('w, 'a) tool" where
  "expect m = goes_on (tried m) (\<lambda>r. case r of Inl e \<Rightarrow> leave Panicked | Inr a \<Rightarrow> tool_ok a)"

text \<open>A scope that owns the client: returning and panicking drop it, \<open>process::exit\<close> does not.\<close>

definition with_client :: "'w host \<Rightarrow> client \<Rightarrow> ('w, unit) tool \<Rightarrow> ('w, unit) tool" where
  "with_client H c m b =
     (case m b of
        (Inl (Exit code), b') \<Rightarrow> (Inl (Exit code), b')
      | (Inl NeverEnds, b') \<Rightarrow> (Inl NeverEnds, b')
      | (r, b') \<Rightarrow> (r, b'\<lparr>bn_rt := snd (close_handle H (cl_inner c) (bn_rt b'))\<rparr>))"

text \<open>\<open>SerialChannel::open\<close> without a context of the caller's.\<close>

definition bare :: "('w, 'a) rtm \<Rightarrow> ('w, 'a) rtm" where
  "bare m s = (case m s of (Inl (Context _ e), s') \<Rightarrow> (Inl e, s') | r \<Rightarrow> r)"

definition open_tool_port :: "'w host \<Rightarrow> string \<Rightarrow> nat \<Rightarrow> ('w, nat) rtm" where
  "open_tool_port H dev timeout = bare (open_handle (h_open_serial H dev 115200 timeout) (OpenSerialFailed dev))"

subsection \<open>Asking a board\<close>

definition show_echo :: "'w host \<Rightarrow> client \<Rightarrow> ('w, unit) tool" where
  "show_echo H c = goes_on (tried (echo H c ''runtt'')) (\<lambda>r. tell (case r of Inl e \<Rightarrow> EchoFailed e | Inr a \<Rightarrow> EchoIs a))"

definition show_images :: "'w host \<Rightarrow> client \<Rightarrow> ('w, unit) tool" where
  "show_images H c = goes_on (tried (image_list H c)) (\<lambda>r.
     tells (case r of Inl e \<Rightarrow> [ListFailed e] | Inr slots \<Rightarrow> if slots = [] then [NoImages] else map SlotLine slots))"

definition show_describe :: "'w host \<Rightarrow> client \<Rightarrow> ('w, unit) tool" where
  "show_describe H c = goes_on (tried (client_describe H c)) (\<lambda>r.
     tell (case r of Inl e \<Rightarrow> DescribeFailed e | Inr d \<Rightarrow> DescribeIs d))"

definition show_reset :: "'w host \<Rightarrow> client \<Rightarrow> ('w, unit) tool" where
  "show_reset H c = goes_on (tried (client_reset H c)) (\<lambda>r.
     tell (case r of Inl e \<Rightarrow> ResetRefused e | Inr _ \<Rightarrow> ResetSent))"

definition ping :: "'w host \<Rightarrow> string list \<Rightarrow> ('w, unit) tool" where
  "ping H args =
     (case args of
        _ # dev # _ \<Rightarrow>
          goes_on (tried (open_tool_port H dev 3000)) (\<lambda>r.
            case r of
              Inl e \<Rightarrow> goes_on (tell (CannotOpen dev e)) (\<lambda>_. leave (Exit 1))
            | Inr ch \<Rightarrow>
                goes_on (expect (client_new H ch 3000)) (\<lambda>c.
                with_client H c
                  (goes_on (show_echo H c) (\<lambda>_.
                   goes_on (show_images H c) (\<lambda>_.
                   goes_on (show_describe H c) (\<lambda>_.
                     if ''--reset'' \<in> set args then show_reset H c else tool_ok ()))))))
      | _ \<Rightarrow> leave Panicked)"

subsection \<open>Over a CAN bus\<close>

text \<open>\<open>trim_start_matches("0x")\<close> takes the prefix off as often as it is there.\<close>

function trim_hex_prefix :: "string \<Rightarrow> string" where
  "trim_hex_prefix s = (case strip_prefix ''0x'' s of Some rest \<Rightarrow> trim_hex_prefix rest | None \<Rightarrow> s)"
  by pat_completeness auto
termination
  by (relation "measure length") (auto simp: strip_prefix_Some)

declare trim_hex_prefix.simps [simp del]

definition tool_node :: "string \<Rightarrow> nat option" where
  "tool_node node = parse_unsigned 16 u32_max (trim_hex_prefix node)"

definition argument :: "string list \<Rightarrow> nat \<Rightarrow> string \<Rightarrow> string" where
  "argument args i otherwise = (if i < length args then args ! i else otherwise)"

definition can_ping :: "'w host \<Rightarrow> string list \<Rightarrow> ('w, unit) tool" where
  "can_ping H args =
     (let iface = argument args 1 ''vcan0''; node = argument args 2 ''0x42'' in
      case tool_node node of
        None \<Rightarrow> leave Panicked
      | Some node_id \<Rightarrow>
          goes_on (tried (bare (open_handle (h_open_isotp H iface node_id 3000) (OpenIsotpFailed iface node_id)))) (\<lambda>r.
            case r of
              Inl e \<Rightarrow> goes_on (tell (CannotOpen iface e)) (\<lambda>_. leave (Exit 1))
            | Inr ch \<Rightarrow>
                goes_on (tell (OpenedNode iface node_id)) (\<lambda>_.
                goes_on (expect (client_new H ch 3000)) (\<lambda>c.
                with_client H c
                  (goes_on (show_echo H c) (\<lambda>_. goes_on (show_images H c) (\<lambda>_. show_describe H c)))))))"

subsection \<open>Changing a board\<close>

definition reset_tool :: "'w host \<Rightarrow> string list \<Rightarrow> ('w, unit) tool" where
  "reset_tool H args =
     (case args of
        _ # dev # _ \<Rightarrow>
          goes_on (expect (open_tool_port H dev 3000)) (\<lambda>ch.
          goes_on (expect (client_new H ch 3000)) (\<lambda>c.
          with_client H c
            (goes_on (tried (echo H c ''runtt'')) (\<lambda>r.
               case r of
                 Inl e \<Rightarrow> goes_on (tell (EchoFailed e)) (\<lambda>_. leave (Exit 1))
               | Inr a \<Rightarrow> goes_on (tell (EchoIs a)) (\<lambda>_. show_reset H c)))))
      | _ \<Rightarrow> leave Panicked)"

text \<open>Two characters at a time; an odd one out is a slice out of range.\<close>

fun hex_digest :: "string \<Rightarrow> bytes option" where
  "hex_digest [] = Some []"
| "hex_digest [c] = None"
| "hex_digest (c1 # c2 # cs) =
     (case (parse_unsigned 16 255 [c1, c2], hex_digest cs) of
        (Some b, Some bs) \<Rightarrow> Some (of_nat b # bs)
      | _ \<Rightarrow> None)"

definition show_slots :: "'w host \<Rightarrow> client \<Rightarrow> string \<Rightarrow> ('w, unit) tool" where
  "show_slots H c moment = goes_on (tried (image_list H c)) (\<lambda>r.
     tells (case r of Inl e \<Rightarrow> [ListFailedAt moment e] | Inr slots \<Rightarrow> map (SlotAt moment) slots))"

definition stage :: "'w host \<Rightarrow> (bytes \<Rightarrow> bytes) \<Rightarrow> string option \<Rightarrow> string list \<Rightarrow> ('w, unit) tool" where
  "stage H sha stage_upload args =
     (case args of
        _ # dev # hx # rest \<Rightarrow>
          (case hex_digest hx of
             None \<Rightarrow> leave Panicked
           | Some digest \<Rightarrow>
               goes_on (expect (open_tool_port H dev 30000)) (\<lambda>ch.
               goes_on (expect (client_new H ch 30000)) (\<lambda>c.
               with_client H c
                 (goes_on (expect (tune_frame_size H c)) (\<lambda>_.
                  goes_on
                    (case stage_upload of
                       None \<Rightarrow> tool_ok ()
                     | Some path \<Rightarrow>
                         goes_on (expect (and_then (perform (h_read_file H path) (\<lambda>_. [])) raise_io)) (\<lambda>img.
                         goes_on (tell (UploadingFile (length img) path)) (\<lambda>_.
                         goes_on (expect (flash H sha c img (\<lambda>_. []))) (\<lambda>_. tell UploadComplete)))) (\<lambda>_.
                  goes_on (show_slots H c ''before'') (\<lambda>_.
                  goes_on (tried (client_set_state H c digest False)) (\<lambda>r.
                    case r of
                      Inl e \<Rightarrow> goes_on (tell (TestRefused e)) (\<lambda>_. leave (Exit 1))
                    | Inr _ \<Rightarrow>
                        goes_on (tell TestAccepted) (\<lambda>_.
                        goes_on (show_slots H c ''after'') (\<lambda>_.
                          if rest \<noteq> [] \<and> hd rest = ''reset'' then show_reset H c else tool_ok ()))))))))))
      | _ \<Rightarrow> leave Panicked)"

subsection \<open>Without a board\<close>

definition parse_image_tool :: "'w host \<Rightarrow> (bytes \<Rightarrow> bytes) \<Rightarrow> usize_cfg \<Rightarrow> string list \<Rightarrow> ('w, unit) tool" where
  "parse_image_tool H sha cfg args =
     (case args of
        _ # path # _ \<Rightarrow>
          goes_on (tried (and_then (perform (h_read_file H path) (\<lambda>_. [])) raise_io)) (\<lambda>r.
            case r of
              Inl e \<Rightarrow> goes_on (tell (CannotRead path e)) (\<lambda>_. leave (Exit 1))
            | Inr img \<Rightarrow>
                (case mcuboot_parse cfg img of
                   Some (Done (Inr info)) \<Rightarrow> tell (ImageIs path (length img) info (sha img))
                 | Some (Done (Inl e)) \<Rightarrow> goes_on (tell (NotUsable e)) (\<lambda>_. leave (Exit 1))
                 | Some Panic \<Rightarrow> leave Panicked
                 | None \<Rightarrow> leave NeverEnds))
      | _ \<Rightarrow> goes_on (tell Usage) (\<lambda>_. leave (Exit 2)))"

datatype resolve_line =
    LabelIs string
  | MgmtAt string
  | MgmtNode string nat nat
  | LogAt string
  | LogFrames string nat
  | NoLogChannel
  | NotFound string resolve_error
  | NotALabel string label_error

definition resolve_tool :: "sysfs \<Rightarrow> string list \<Rightarrow> resolve_line list" where
  "resolve_tool fs args =
     (let label = argument args 1 ''usb:3-4'' in
      case target_parse label of
        Inl e \<Rightarrow> [NotALabel label e]
      | Inr t \<Rightarrow>
          (case resolve fs t of
             Inl e \<Rightarrow> [NotFound label e]
           | Inr r \<Rightarrow>
               [LabelIs label,
                case r of SerialPort mgmt _ \<Rightarrow> MgmtAt mgmt | CanNode iface node_id _ \<Rightarrow> MgmtNode iface node_id (node_id + 1),
                case log_source r of
                  Some (LogSerial l) \<Rightarrow> LogAt l
                | Some (LogCan iface ident) \<Rightarrow> LogFrames iface ident
                | None \<Rightarrow> NoLogChannel]))"

text \<open>\<open>can-logs\<close>, observed over its next \<open>k\<close> reads; any error of a read ends it.  \<open>node_id + 2\<close> panics where it
  overflows in a build with overflow checks.\<close>

fun can_logs_loop :: "'w sockets \<Rightarrow> nat \<Rightarrow> log_pump \<Rightarrow> can_log_reader \<Rightarrow> 'w \<Rightarrow> log_pump \<times> log_end \<times> 'w" where
  "can_logs_loop K 0 p r w = (p, LogWaiting, w)"
| "can_logs_loop K (Suc k) p r w =
     (case can_log_read K BUFFER_SIZE r w of
        (Inl e, r', w1) \<Rightarrow>
          if e = EINTR then can_logs_loop K k p r' w1
          else (p, LogReadFailed, snd (sk_close K (lr_fd r') w1))
      | (Inr bs, r', w1) \<Rightarrow>
          (case pump_logs p [Chunk bs] of
             (p', LogWaiting) \<Rightarrow> can_logs_loop K k p' r' w1
           | (p', ending) \<Rightarrow> (p', ending, snd (sk_close K (lr_fd r') w1))))"

datatype can_logs_end = NodeNotHex | NodeOverflows | ListenFailed can_error | Listened log_pump log_end

definition can_logs :: "'w sockets \<Rightarrow> bool \<Rightarrow> nat \<Rightarrow> string list \<Rightarrow> 'w \<Rightarrow> can_logs_end \<times> 'w" where
  "can_logs K overflow_checked k args w =
     (let iface = argument args 1 ''vcan0''; node = argument args 2 ''0x42'' in
      case tool_node node of
        None \<Rightarrow> (NodeNotHex, w)
      | Some node_id \<Rightarrow>
          if overflow_checked \<and> u32_max < node_id + 2 then (NodeOverflows, w)
          else case can_log_open K iface (of_nat (node_id + 2)) LOG_TIMEOUT w of
            (Inl e, w1) \<Rightarrow> (ListenFailed e, w1)
          | (Inr r, w1) \<Rightarrow>
              (case can_logs_loop K k \<lparr>lp_line = [], lp_out = []\<rparr> r w1 of
                 (p, ending, w2) \<Rightarrow> (Listened p ending, w2)))"

subsection \<open>What is printed is what the container would print\<close>

lemma can_logs_loop_same: "can_logs_loop K k p r w = log_loop L K kind k p (CanLog r) w"
proof (induction k arbitrary: p r w)
  case (Suc k)
  then show ?case
    by (auto simp: log_read_def log_close_def split: prod.split sum.split log_end.split)
qed simp

lemma hex_prefix_once:
  assumes "parse_unsigned 16 m h = Some n"
  shows "trim_hex_prefix (''0x'' @ h) = h"
proof -
  have "strip_prefix ''0x'' h = None"
  proof (rule ccontr)
    assume "strip_prefix ''0x'' h \<noteq> None"
    then obtain rest where "h = ''0x'' @ rest" by (auto simp: strip_prefix_Some)
    with assms show False by (simp add: parse_unsigned_def digit_value_def)
  qed
  then have "trim_hex_prefix h = h" by (subst trim_hex_prefix.simps) simp
  moreover have "strip_prefix ''0x'' (''0x'' @ h) = Some h" by (simp only: strip_prefix_Some)
  ultimately show ?thesis by (subst trim_hex_prefix.simps) simp
qed

lemma tool_node_hex:
  assumes "parse_node_id (''0x'' @ h) = Inr n" and "trim (''0x'' @ h) = ''0x'' @ h"
  shows "tool_node (''0x'' @ h) = Some n"
proof -
  have "strip_prefix ''0x'' (''0x'' @ h) = Some h" by (simp only: strip_prefix_Some)
  with assms have "parse_unsigned 16 u32_max h = Some n"
    by (auto simp: parse_node_id_def Let_def split: option.splits if_splits)
  with hex_prefix_once [OF this] show ?thesis by (simp only: tool_node_def)
qed

text \<open>A decimal node id of a label is another node to the tools, which always read hex.\<close>

lemma tool_node_decimal: "parse_node_id ''66'' = Inr 66 \<and> tool_node ''66'' = Some 102"
proof -
  have "trim ''66'' = ''66''" by (rule trim_solid) (simp_all add: solid_def white_space_def)
  then have "parse_node_id ''66'' = Inr 66"
    by (simp add: parse_node_id_def parse_unsigned_def digit_value_def MAX_STD_ID_def LOG_ID_OFFSET_def)
  moreover have "trim_hex_prefix ''66'' = ''66''" by (subst trim_hex_prefix.simps) simp
  ultimately show ?thesis by (simp add: tool_node_def parse_unsigned_def digit_value_def)
qed

subsection \<open>What the tools do to a board\<close>

fun reads_only :: "event \<Rightarrow> bool" where
  "reads_only (EvUpload n img accepted) \<longleftrightarrow> False"
| "reads_only (EvReset n accepted) \<longleftrightarrow> False"
| "reads_only (EvSetState n digest confirm accepted) \<longleftrightarrow> False"
| "reads_only _ \<longleftrightarrow> True"

definition emits :: "(event \<Rightarrow> bool) \<Rightarrow> ('w, 'a) tool \<Rightarrow> bool" where
  "emits P m \<longleftrightarrow> (\<forall>b r b'. m b = (r, b') \<longrightarrow>
     (\<exists>tr. rt_trace (bn_rt b') = rt_trace (bn_rt b) @ tr \<and> list_all P tr))"

named_theorems emitting \<open>what a tool's operations add to the trace\<close>

lemma emits_pure [emitting]: "emits P (tool_ok a)" "emits P (leave e)" "emits P (tell l)" "emits P (tells ls)"
  by (simp_all add: emits_def tool_ok_def leave_def tell_def tells_def)

lemma emits_goes_on [emitting]:
  assumes "emits P m" and "\<And>a. emits P (f a)"
  shows "emits P (goes_on m f)"
  unfolding emits_def
proof (intro allI impI)
  fix b r b'
  assume run: "goes_on m f b = (r, b')"
  obtain r1 b1 where m: "m b = (r1, b1)" by fastforce
  with assms(1) obtain t where t: "rt_trace (bn_rt b1) = rt_trace (bn_rt b) @ t" "list_all P t"
    unfolding emits_def by blast
  show "\<exists>tr. rt_trace (bn_rt b') = rt_trace (bn_rt b) @ tr \<and> list_all P tr"
  proof (cases r1)
    case (Inl e)
    with run m t show ?thesis by (auto simp: goes_on_def)
  next
    case (Inr a)
    with run m have "f a b1 = (r, b')" by (simp add: goes_on_def)
    with assms(2) [of a] obtain u where "rt_trace (bn_rt b') = rt_trace (bn_rt b1) @ u" "list_all P u"
      unfolding emits_def by blast
    with t show ?thesis by (intro exI [of _ "t @ u"]) simp
  qed
qed

lemma emits_tried [emitting]: "yields m (\<lambda>_. list_all P) \<Longrightarrow> emits P (tried m)"
  by (fastforce simp: emits_def yields_def tried_def split: prod.splits)

lemma emits_cases [emitting]:
  "(\<And>x. emits P (f x)) \<Longrightarrow> (\<And>y. emits P (g y)) \<Longrightarrow> emits P (case q of Inl x \<Rightarrow> f x | Inr y \<Rightarrow> g y)"
  "(c \<Longrightarrow> emits P m) \<Longrightarrow> (\<not> c \<Longrightarrow> emits P m') \<Longrightarrow> emits P (if c then m else m')"
  by (auto split: sum.split)

lemma emits_expect [emitting]: "yields m (\<lambda>_. list_all P) \<Longrightarrow> emits P (expect m)"
  unfolding expect_def by (intro emitting)

lemma emits_with_client [emitting]:
  "P (EvClosed (cl_inner c)) \<Longrightarrow> emits P m \<Longrightarrow> emits P (with_client H c m)"
  by (fastforce simp: emits_def with_client_def close_handle_def perform_def split: prod.splits sum.splits tool_end.splits)

lemma yields_bare: "yields m (\<lambda>_. Q) \<Longrightarrow> yields (bare m) (\<lambda>_. Q)"
  by (fastforce simp: yields_def bare_def split: prod.splits sum.splits deploy_error.splits)

lemma yields_tool:
  "(\<And>n. P (EvOpened n)) \<Longrightarrow> P EvOpenFailed \<Longrightarrow> yields (open_tool_port H dev ms) (\<lambda>_. list_all P)"
  "(\<And>n. P (EvOpened n)) \<Longrightarrow> P EvOpenFailed \<Longrightarrow> yields (bare (open_handle call cx)) (\<lambda>_. list_all P)"
  "(\<And>n t. P (EvTimeout n t)) \<Longrightarrow> (\<And>n. P (EvClosed n)) \<Longrightarrow> yields (client_new H ch ms) (\<lambda>_. list_all P)"
  "(\<And>n p a. P (EvEcho n p a)) \<Longrightarrow> yields (echo H c payload) (\<lambda>_. list_all P)"
  "(\<And>n l. P (EvList n l)) \<Longrightarrow> yields (image_list H c) (\<lambda>_. list_all P)"
  "(\<And>n d. P (EvDescribe n d)) \<Longrightarrow> yields (client_describe H c) (\<lambda>_. list_all P)"
  "(\<And>n a. P (EvReset n a)) \<Longrightarrow> yields (client_reset H c) (\<lambda>_. list_all P)"
  "(\<And>n. P (EvAutoFrame n)) \<Longrightarrow> yields (tune_frame_size H c) (\<lambda>_. list_all P)"
  "(\<And>n a. P (EvSetState n h b a)) \<Longrightarrow> yields (client_set_state H c h b) (\<lambda>_. list_all P)"
  "(\<And>n a. P (EvUpload n img a)) \<Longrightarrow> (\<And>p. P (EvPrint p)) \<Longrightarrow> yields (flash H sha c img f) (\<lambda>_. list_all P)"
  "yields (and_then (perform call2 (\<lambda>_. [])) raise_io) (\<lambda>_. list_all P)"
  unfolding open_tool_port_def
  by (rule yields_bare [OF yields_weaken [OF yields_open]], force)
    (rule yields_bare [OF yields_weaken [OF yields_open]], force,
     rule yields_weaken [OF yields_client_new], force, rule yields_weaken [OF yields_echo], force,
     rule yields_weaken [OF yields_image_list], force, rule yields_weaken [OF yields_describe], force,
     rule yields_weaken [OF yields_reset], force, rule yields_weaken [OF yields_tune], force,
     rule yields_weaken [OF yields_set_state], force, rule yields_weaken [OF yields_flash], force simp: list_all_iff,
     rule yields_weaken [OF yields_and_then [OF yields_perform yields_raise]], force)

lemma emits_shows [emitting]:
  "(\<And>ev. reads_only ev \<Longrightarrow> P ev) \<Longrightarrow> emits P (show_echo H c)"
  "(\<And>ev. reads_only ev \<Longrightarrow> P ev) \<Longrightarrow> emits P (show_images H c)"
  "(\<And>ev. reads_only ev \<Longrightarrow> P ev) \<Longrightarrow> emits P (show_slots H c moment)"
  "(\<And>ev. reads_only ev \<Longrightarrow> P ev) \<Longrightarrow> emits P (show_describe H c)"
  "(\<And>n a. P (EvReset n a)) \<Longrightarrow> emits P (show_reset H c)"
  unfolding show_echo_def show_images_def show_slots_def show_describe_def show_reset_def
  by ((intro emitting yields_tool; simp)+)

lemma ping_emits: "emits (\<lambda>ev. reads_only ev \<or> (\<exists>n a. ev = EvReset n a) \<and> ''--reset'' \<in> set args) (ping H args)"
  unfolding ping_def by (cases args; cases "tl args"; simp) (intro emitting yields_tool; simp)+

lemma can_ping_emits: "emits reads_only (can_ping H args)"
  unfolding can_ping_def Let_def by (cases "tool_node (argument args 2 ''0x42'')"; simp) (intro emitting yields_tool; simp)+

lemma reset_tool_emits: "emits (\<lambda>ev. reads_only ev \<or> (\<exists>n a. ev = EvReset n a)) (reset_tool H args)"
  unfolding reset_tool_def by (cases args; cases "tl args"; simp) (intro emitting yields_tool; simp)+

lemma parse_image_emits: "emits reads_only (parse_image_tool H sha cfg args)"
proof -
  have "emits reads_only (case mcuboot_parse cfg img of
      Some (Done (Inr info)) \<Rightarrow> tell (ImageIs path (length img) info (sha img))
    | Some (Done (Inl e)) \<Rightarrow> goes_on (tell (NotUsable e)) (\<lambda>_. leave (Exit 1))
    | Some Panic \<Rightarrow> leave Panicked
    | None \<Rightarrow> leave NeverEnds)" for path img
    by (auto intro!: emitting split: option.split outcome.split sum.split)
  then show ?thesis
    unfolding parse_image_tool_def by (cases args; cases "tl args"; simp) (intro emitting yields_tool; simp)+
qed

definition stage_writes :: "string option \<Rightarrow> string list \<Rightarrow> event \<Rightarrow> bool" where
  "stage_writes upload args ev \<longleftrightarrow> reads_only ev \<or>
     (\<exists>n img a. ev = EvUpload n img a \<and> upload \<noteq> None) \<or>
     (\<exists>n digest a. ev = EvSetState n digest False a \<and> hex_digest (argument args 2 []) = Some digest) \<or>
     (\<exists>n a. ev = EvReset n a \<and> argument args 3 [] = ''reset'')"

lemma stage_emits: "emits (stage_writes upload args) (stage H sha upload args)"
proof (cases "\<exists>prog dev hx rest digest. args = prog # dev # hx # rest \<and> hex_digest hx = Some digest")
  case True
  then obtain prog dev hx rest digest where args: "args = prog # dev # hx # rest" and digest: "hex_digest hx = Some digest"
    by blast
  let ?P = "stage_writes upload (prog # dev # hx # rest)"
  have looks: "reads_only ev \<Longrightarrow> ?P ev" and uploads: "upload \<noteq> None \<Longrightarrow> ?P (EvUpload n img a)"
    and marks: "?P (EvSetState n digest False a)"
    and resets: "rest \<noteq> [] \<and> hd rest = ''reset'' \<Longrightarrow> ?P (EvReset n a)" for ev n img a
    using digest by (auto simp: stage_writes_def argument_def hd_conv_nth)
  have uploading: "emits ?P (case upload of None \<Rightarrow> tool_ok () | Some path \<Rightarrow>
      goes_on (expect (and_then (perform (h_read_file H path) (\<lambda>_. [])) raise_io)) (\<lambda>img.
      goes_on (tell (UploadingFile (length img) path)) (\<lambda>_.
      goes_on (expect (flash H sha c img (\<lambda>_. []))) (\<lambda>_. tell UploadComplete))))" for c
    using uploads looks by (cases upload) (simp_all, (intro emitting yields_tool; simp)+)
  show ?thesis
    unfolding stage_def args list.case digest option.case
    by (intro emitting yields_tool uploading; simp add: looks marks resets)
next
  case False
  then have "stage H sha upload args = leave Panicked"
    by (auto simp: stage_def split: list.split option.split)
  then show ?thesis by (simp add: emitting)
qed

text \<open>A digest as the tools print it is a digest as \<open>stage\<close> takes it.\<close>

lemma hex_digest_hex: "hex_digest (hex bs) = Some bs"
proof (induction bs)
  case (Cons b bs)
  have two: "parse_unsigned 16 255 [digit_char m, digit_char n] = Some (m * 16 + n)" if "m < 16" "n < 16" for m n
    using that digit_value_char [of m 16] digit_value_char [of n 16] digit_char_solid [of m]
    by (simp add: parse_unsigned_def)
  have "parse_unsigned 16 255 [digit_char (unat b div 16), digit_char (unat b mod 16)] = Some (unat b)"
    by (subst two) (simp_all add: div_mult_mod_eq less_mult_imp_div_less)
  with Cons show ?case by (simp add: hex_def)
qed (simp add: hex_def)

subsection \<open>Properties\<close>

text \<open>C38: no tool can make an image stay.  Whatever the board answers and wherever a tool ends, \<open>can-ping\<close> and
  \<open>parse_image\<close> only read; \<open>ping\<close> resets only when told to and \<open>reset\<close> does nothing but that; \<open>stage\<close> marks the
  digest it was given, as it prints it, for test and never confirms, uploads only what \<open>STAGE_UPLOAD\<close>
  names and resets only when told to.\<close>
theorem tools_confirm_nothing:
  "emits reads_only (can_ping H args) \<and> emits reads_only (parse_image_tool H sha cfg args) \<and>
   emits (\<lambda>ev. reads_only ev \<or> (\<exists>n a. ev = EvReset n a) \<and> ''--reset'' \<in> set args) (ping H args) \<and>
   emits (\<lambda>ev. reads_only ev \<or> (\<exists>n a. ev = EvReset n a)) (reset_tool H args) \<and>
   emits (stage_writes upload args) (stage H sha upload args) \<and> hex_digest (hex bs) = Some bs"
  by (intro conjI can_ping_emits parse_image_emits ping_emits reset_tool_emits stage_emits hex_digest_hex)

text \<open>C39: \<open>can-logs\<close> shows what the container would print.  For a node id in hex it listens on the identifier the
  runtime takes for the log of the same label, fails to open where the runtime does, and after any
  number of reads it has printed the same lines, and ended the same way, as the log thread.\<close>
theorem can_logs_shows_container_output:
  assumes "parse_node_id (''0x'' @ h) = Inr n" and "trim (''0x'' @ h) = ''0x'' @ h"
    and "log_source (CanNode iface n None) = Some source"
  shows "can_logs K checked k [prog, iface, ''0x'' @ h] w =
    (case log_thread L K kind k source w of
       (Inl (NoCanLog _ _ e), w') \<Rightarrow> (ListenFailed e, w')
     | (Inr (p, ending), w') \<Rightarrow> (Listened p ending, w'))"
proof -
  have "n + 2 \<le> MAX_STD_ID" using parse_node_id_bound [OF assms(1)] by (simp add: LOG_ID_OFFSET_def)
  then have "\<not> u32_max < n + 2" by (simp add: MAX_STD_ID_def)
  moreover have "source = LogCan iface (n + 2)" using assms(3) by (simp add: LOG_ID_OFFSET_def)
  ultimately show ?thesis
    using tool_node_hex [OF assms(1,2)]
    by (auto simp: can_logs_def argument_def Let_def log_thread_def log_open_def can_logs_loop_same [of K _ _ _ _ L kind]
        split: prod.split sum.split)
qed

lemma can_logs_shows_container_output_witness:
  "can_logs bus True 3 [''can-logs'', ''can0'', ''0x42''] [text_frame 0x44 [104, 105, 10]] =
    (case log_thread no_serial bus (\<lambda>_. KOther) 3 (LogCan ''can0'' 68) [text_frame 0x44 [104, 105, 10]] of
       (Inl (NoCanLog _ _ e), w') \<Rightarrow> (ListenFailed e, w')
     | (Inr (p, ending), w') \<Rightarrow> (Listened p ending, w'))"
proof -
  have "alt_hex 66 = ''0x42''" by (simp add: alt_hex_def radix_string.simps digit_char_def)
  with parse_node_id_hex [of 66] have node: "parse_node_id (''0x'' @ ''42'') = Inr 66"
    by (simp add: node_verdict_def LOG_ID_OFFSET_def MAX_STD_ID_def)
  have "trim (''0x'' @ ''42'') = ''0x'' @ ''42''"
    by (rule trim_solid) (simp_all add: solid_def white_space_def)
  from can_logs_shows_container_output [OF node this, of "''can0''" "LogCan ''can0'' 68" bus True 3 "''can-logs''"
      "[text_frame 0x44 [104, 105, 10]]" no_serial "\<lambda>_. KOther"]
  show ?thesis by (simp add: LOG_ID_OFFSET_def)
qed

end
