(* ===== verification/Label_Tests.thy ===== *)
theory Label_Tests
  imports Resolve Verbs Can_Transport
begin

text \<open>
  The unit tests of \<open>crates/runtt-transport/src/resolve.rs\<close>, of \<open>can.rs\<close> beside it and of
  \<open>crates/runtt/src/verbs.rs\<close>, each a predicate over what the test takes from its machine.  An assertion
  about the text of an error is one about the error.
\<close>

definition parses_transport_prefixes :: bool where
  "parses_transport_prefixes \<longleftrightarrow>
     target_parse ''usb:3-6'' = Inr (Usb (PortPath ''3-6'')) \<and>
     target_parse ''tty:ttyS3'' = Inr (Tty ''ttyS3'') \<and>
     target_parse ''can:vcan0/0x42'' = Inr (Can ''vcan0'' ''0x42'')"

definition rejects_a_label_with_no_prefix :: bool where
  "rejects_a_label_with_no_prefix \<longleftrightarrow> target_parse ''1-1.2'' = Inl (NoPrefix ''1-1.2'')"

definition rejects_an_unknown_prefix :: bool where
  "rejects_an_unknown_prefix \<longleftrightarrow> target_parse ''spi:0'' = Inl (UnknownPrefix ''spi'' ''spi:0'')"

definition displays_back :: "string \<Rightarrow> bool" where
  "displays_back label = (case target_parse label of Inl e \<Rightarrow> False | Inr t \<Rightarrow> target_display t = label)"

definition round_trips_through_display :: bool where
  "round_trips_through_display \<longleftrightarrow> list_all displays_back [''usb:3-6'', ''tty:ttyS3'', ''can:vcan0/0x42'']"

definition an_absolute_tty_path_is_taken_literally :: "sysfs \<Rightarrow> bool" where
  "an_absolute_tty_path_is_taken_literally fs =
     (case target_parse ''tty:/dev/null'' of
        Inl e \<Rightarrow> False
      | Inr t \<Rightarrow> resolve fs t = Inr (SerialPort ''/dev/null'' None))"

definition a_missing_tty_is_a_clear_error :: "sysfs \<Rightarrow> bool" where
  "a_missing_tty_is_a_clear_error fs =
     (case target_parse ''tty:/dev/definitely-not-here'' of
        Inl e \<Rightarrow> False
      | Inr t \<Rightarrow> resolve fs t = Inl (DoesNotExist ''/dev/definitely-not-here''))"

definition usb_selectors_are_told_apart_by_shape :: bool where
  "usb_selectors_are_told_apart_by_shape \<longleftrightarrow>
     list_all (\<lambda>p. usb_selector_parse p = PortPath p) [''3-6'', ''1-1.2'', ''3-4.1.2'', ''11-2''] \<and>
     list_all (\<lambda>s. usb_selector_parse s = SerialNumber s)
       [''feather-01'', ''arm-01'', ''3'', ''3-'', ''-4'', ''3-4a'', ''a-4'', ''3..4'', ''3-4.'']"

definition a_usb_label_round_trips_in_either_form :: bool where
  "a_usb_label_round_trips_in_either_form \<longleftrightarrow> list_all displays_back [''usb:3-6'', ''usb:feather-01'']"

definition node_ids_parse_in_hex_and_decimal :: bool where
  "node_ids_parse_in_hex_and_decimal \<longleftrightarrow> parse_node_id ''0x42'' = Inr 66 \<and> parse_node_id ''0X42'' = Inr 66 \<and>
     parse_node_id ''66'' = Inr 66 \<and> parse_node_id '' 0x42 '' = Inr 66"

definition a_non_numeric_node_id_says_so :: bool where
  "a_non_numeric_node_id_says_so \<longleftrightarrow> parse_node_id ''frobnicate'' = Inl (NodeNotANumber ''frobnicate'')"

definition an_extended_can_id_is_refused :: bool where
  "an_extended_can_id_is_refused \<longleftrightarrow> parse_node_id ''0x800'' = Inl (NodeTooLarge ''0x800'' 2048) \<and>
     parse_node_id ''0x7fd'' = Inr 2045"

definition a_node_id_with_no_room_for_the_reply_is_refused :: bool where
  "a_node_id_with_no_room_for_the_reply_is_refused \<longleftrightarrow>
     parse_node_id ''0x7ff'' = Inl (NodeLeavesNoRoom ''0x7ff'' 2047) \<and>
     parse_node_id ''0x7fe'' = Inl (NodeLeavesNoRoom ''0x7fe'' 2046)"

definition a_missing_can_interface_is_a_clear_error :: "sysfs \<Rightarrow> bool" where
  "a_missing_can_interface_is_a_clear_error fs =
     (case target_parse ''can:definitelynotaniface/0x42'' of
        Inl e \<Rightarrow> False
      | Inr t \<Rightarrow> resolve fs t = Inl (NoSuchInterface ''definitelynotaniface''))"

definition channel_counting_is_uniform_across_transports :: bool where
  "channel_counting_is_uniform_across_transports \<longleftrightarrow>
     (let serial = SerialPort ''/dev/ttyACM0'' None; can = CanNode ''vcan0'' 0x42 None;
          can' = set_log ''/dev/ttyACM1'' can
      in channels serial = 1 \<and> channels can = 2 \<and> log_source can = Some (LogCan ''vcan0'' 0x44) \<and>
         channels can' = 2 \<and> log_source can' = Some (LogSerial ''/dev/ttyACM1''))"

definition a_lock_key_resolves_symlinks :: "sysfs \<Rightarrow> string \<Rightarrow> bool" where
  "a_lock_key_resolves_symlinks fs dir =
     (let direct = SerialPort (path_join dir ''real-device'') None; aliased = SerialPort (path_join dir ''alias-device'') None
      in lock_key fs direct = lock_key fs aliased \<and> resolved_display direct \<noteq> resolved_display aliased)"

definition a_can_lock_key_is_the_bus_address :: "sysfs \<Rightarrow> bool" where
  "a_can_lock_key_is_the_bus_address fs \<longleftrightarrow> lock_key fs (CanNode ''vcan0'' 0x45 None) = ''can:vcan0/0x45''"

definition a_can_target_displays_its_address_not_a_path :: bool where
  "a_can_target_displays_its_address_not_a_path \<longleftrightarrow> resolved_display (CanNode ''vcan0'' 0x42 None) = ''can:vcan0/0x42''"

definition a_missing_interface_is_a_clear_error :: "'w sockets \<Rightarrow> 'w \<Rightarrow> bool" where
  "a_missing_interface_is_a_clear_error K w =
     (case fst (if_nametoindex K ''definitely-not-an-interface'' w) of
        Inl (LookupFailed name e) \<Rightarrow> name = ''definitely-not-an-interface''
      | _ \<Rightarrow> False)"

definition accepts_the_signals_engines_actually_send :: bool where
  "accepts_the_signals_engines_actually_send \<longleftrightarrow> parse_signal ''9'' = Inr SIGKILL \<and> parse_signal ''15'' = Inr SIGTERM \<and>
     parse_signal ''18'' = Inr SIGCONT \<and> parse_signal ''KILL'' = Inr SIGKILL \<and>
     parse_signal ''SIGTERM'' = Inr SIGTERM \<and> parse_signal ''sigcont'' = Inr SIGCONT"

definition accepts_realtime_signals_by_number :: bool where
  "accepts_realtime_signals_by_number \<longleftrightarrow> parse_signal ''34'' = Inr 34 \<and> parse_signal ''64'' = Inr 64"

definition rejects_nonsense_but_not_merely_unusual :: bool where
  "rejects_nonsense_but_not_merely_unusual \<longleftrightarrow> \<not> is_ok (parse_signal ''0'') \<and> \<not> is_ok (parse_signal ''99'') \<and>
     \<not> is_ok (parse_signal ''BANANA'')"

lemmas label_run = target_parse_def usb_selector_parse_def is_port_path_def is_digit_def

lemma label_tests: parses_transport_prefixes rejects_a_label_with_no_prefix rejects_an_unknown_prefix
  round_trips_through_display usb_selectors_are_told_apart_by_shape a_usb_label_round_trips_in_either_form
  by (simp_all add: parses_transport_prefixes_def rejects_a_label_with_no_prefix_def rejects_an_unknown_prefix_def
      round_trips_through_display_def usb_selectors_are_told_apart_by_shape_def
      a_usb_label_round_trips_in_either_form_def displays_back_def label_run)

lemmas number_run = trim_solid solid_def white_space_def parse_i32_def parse_unsigned_def digit_value_def

lemma upper_cases: "ascii_uppercase ''KILL'' = ''KILL''" "ascii_uppercase ''SIGTERM'' = ''SIGTERM''"
  "ascii_uppercase ''sigcont'' = ''SIGCONT''" "ascii_uppercase ''BANANA'' = ''BANANA''"
  by (simp_all add: ascii_uppercase_def char_of_def bit_Suc_0_iff)

lemma signal_tests: accepts_the_signals_engines_actually_send accepts_realtime_signals_by_number
  rejects_nonsense_but_not_merely_unusual
  by (simp_all add: accepts_the_signals_engines_actually_send_def accepts_realtime_signals_by_number_def
      rejects_nonsense_but_not_merely_unusual_def parse_signal_def number_run upper_cases signal_names_def
      signal_numbers is_ok_def ok_or_def)

lemma trim_spaces: "trim '' 0x42 '' = ''0x42''"
  by (simp add: trim_def strip_leading.simps white_space_def)

lemma node_tests: node_ids_parse_in_hex_and_decimal a_non_numeric_node_id_says_so an_extended_can_id_is_refused
  a_node_id_with_no_room_for_the_reply_is_refused
  by (simp_all add: node_ids_parse_in_hex_and_decimal_def a_non_numeric_node_id_says_so_def an_extended_can_id_is_refused_def
      a_node_id_with_no_room_for_the_reply_is_refused_def parse_node_id_def number_run trim_spaces MAX_STD_ID_def
      LOG_ID_OFFSET_def)

lemma channel_tests: channel_counting_is_uniform_across_transports a_can_target_displays_its_address_not_a_path
  by (simp_all add: channel_counting_is_uniform_across_transports_def a_can_target_displays_its_address_not_a_path_def
      channels_def LOG_ID_OFFSET_def alt_hex_def radix_string.simps digit_char_def)

lemma tty_tests:
  "fs_exists fs ''/dev/null'' \<Longrightarrow> an_absolute_tty_path_is_taken_literally fs"
  "\<not> fs_exists fs ''/dev/definitely-not-here'' \<Longrightarrow> a_missing_tty_is_a_clear_error fs"
  by (simp_all add: an_absolute_tty_path_is_taken_literally_def a_missing_tty_is_a_clear_error_def target_parse_def
      starts_with_def)

lemma can_tests:
  "\<not> fs_is_dir fs ''/sys/class/net/definitelynotaniface'' \<Longrightarrow> a_missing_can_interface_is_a_clear_error fs"
  "a_can_lock_key_is_the_bus_address fs"
  "fst (sk_if_nametoindex K ''definitely-not-an-interface'' w) = Inl e \<Longrightarrow> a_missing_interface_is_a_clear_error K w"
  using node_tests(1)
  by (auto simp: a_missing_can_interface_is_a_clear_error_def node_ids_parse_in_hex_and_decimal_def target_parse_def
      path_join_def ends_with_def starts_with_def bind_result_def a_can_lock_key_is_the_bus_address_def alt_hex_def
      radix_string.simps digit_char_def a_missing_interface_is_a_clear_error_def if_nametoindex_def suffix_to_prefix
      split: prod.split)

lemma symlink_test:
  assumes "fs_canonicalize fs (path_join dir ''real-device'') = Some p"
    and "fs_canonicalize fs (path_join dir ''alias-device'') = Some p"
  shows "a_lock_key_resolves_symlinks fs dir"
  using assms by (auto simp: a_lock_key_resolves_symlinks_def path_join_def starts_with_def)

end
