(* ===== verification/Board_Tests.thy ===== *)
theory Board_Tests
  imports Device Codec
begin

text \<open>
  The unit tests of \<open>crates/runtt-mock/src/device.rs\<close>, \<open>crates/runtt-mock/src/codec.rs\<close> and
  \<open>crates/runtt-smp/src/mcuboot.rs\<close>, each a predicate over the third-party code the test runs with; they
  are shown to hold whatever that is, as far as they do.
\<close>

definition literal :: "string \<Rightarrow> bytes" where
  "literal s = map of_char s"

subsection \<open>The image parser\<close>

definition rejects_an_unsigned_binary :: "usize_cfg \<Rightarrow> bool" where
  "rejects_an_unsigned_binary c \<longleftrightarrow> mcuboot_parse c (replicate 512 0) = Some (Done (Inl (BadMagic 0)))"

definition rejects_something_far_too_short :: "usize_cfg \<Rightarrow> bool" where
  "rejects_something_far_too_short c \<longleftrightarrow> mcuboot_parse c (literal ''nope'') = Some (Done (Inl (ImageTooShort 4)))"

lemma mcuboot_tests: "rejects_an_unsigned_binary c" "rejects_something_far_too_short c"
  by (simp_all add: rejects_an_unsigned_binary_def rejects_something_far_too_short_def mcuboot_parse_def HEADER_LEN_def
      literal_def u32le_def from_le32_def IMAGE_MAGIC_def)

subsection \<open>The emulated board\<close>

text \<open>A test runs on a board with the given fault; an upload ends with the outcome and the board it leaves.\<close>

definition on_board :: "usize_cfg \<Rightarrow> (bytes \<Rightarrow> bytes) \<Rightarrow> fault \<Rightarrow> (device \<Rightarrow> bool) \<Rightarrow> bool" where
  "on_board c sha f P = (case provisioned c sha f of None \<Rightarrow> False | Some d \<Rightarrow> P d)"

definition after_upload ::
    "usize_cfg \<Rightarrow> (bytes \<Rightarrow> bytes) \<Rightarrow> bytes \<Rightarrow> (upload_outcome \<Rightarrow> device \<Rightarrow> bool) \<Rightarrow> device \<Rightarrow> bool" where
  "after_upload c sha img P d = (case upload_whole c sha d img of None \<Rightarrow> False | Some (out, d') \<Rightarrow> P out d')"

fun completed :: "bool \<Rightarrow> upload_outcome \<Rightarrow> bool" where
  "completed matched (Complete n m) = (m = matched)"
| "completed matched _ = False"

definition in_slot :: "(slot_image \<Rightarrow> bool) \<Rightarrow> slot_image option \<Rightarrow> bool" where
  "in_slot P slot = (case slot of None \<Rightarrow> False | Some im \<Rightarrow> P im)"

text \<open>\<open>set_state(..).unwrap()\<close>.\<close>

definition after_set_state :: "bytes \<Rightarrow> bool \<Rightarrow> (device \<Rightarrow> bool) \<Rightarrow> device \<Rightarrow> bool" where
  "after_set_state hash confirm P d = (case set_state d (Some hash) confirm of (Inl e, d') \<Rightarrow> False | (Inr _, d') \<Rightarrow> P d')"

definition a_clean_upload_lands_in_slot_one :: "usize_cfg \<Rightarrow> (bytes \<Rightarrow> bytes) \<Rightarrow> bool" where
  "a_clean_upload_lands_in_slot_one c sha = on_board c sha NoFault
     (after_upload c sha (literal ''new-firmware-payload'') (\<lambda>out d.
        completed True out \<and> dev_slot1 d \<noteq> None \<and> in_slot im_confirmed (dev_slot0 d)))"

definition test_then_confirm_sticks :: "usize_cfg \<Rightarrow> (bytes \<Rightarrow> bytes) \<Rightarrow> bool" where
  "test_then_confirm_sticks c sha = on_board c sha NoFault
     (after_upload c sha (literal ''new-firmware-payload'') (\<lambda>_ d.
        in_slot (\<lambda>s1. let staged = im_hash s1 in
          after_set_state staged False (\<lambda>d.
            in_slot im_pending (dev_slot1 d) \<and> in_slot (\<lambda>s. \<not> im_permanent s) (dev_slot1 d) \<and>
            (let d = reset d in
              in_slot (\<lambda>s. im_hash s = staged) (dev_slot0 d) \<and> in_slot (\<lambda>s. \<not> im_confirmed s) (dev_slot0 d) \<and>
              dev_awaiting_confirm d \<and>
              after_set_state staged True (\<lambda>d.
                in_slot im_confirmed (dev_slot0 d) \<and> in_slot (\<lambda>s. im_hash s = staged) (dev_slot0 (reset d))) d)) d)
          (dev_slot1 d)))"

definition an_unconfirmed_image_reverts :: "usize_cfg \<Rightarrow> (bytes \<Rightarrow> bytes) \<Rightarrow> bool" where
  "an_unconfirmed_image_reverts c sha = on_board c sha NoFault (\<lambda>d.
     in_slot (\<lambda>s0. let factory = im_hash s0 in
       after_upload c sha (literal ''broken-firmware'') (\<lambda>_ d.
         in_slot (\<lambda>s1. let staged = im_hash s1 in
           after_set_state staged False (\<lambda>d.
             let d = reset d in in_slot (\<lambda>s. im_hash s = staged) (dev_slot0 d) \<and>
             (let d = reset d in in_slot (\<lambda>s. im_hash s = factory) (dev_slot0 d) \<and>
                staged \<in> set (dev_failed_digests d))) d)
           (dev_slot1 d)) d)
       (dev_slot0 d))"

definition confirm_marked_upfront_does_not_revert :: "usize_cfg \<Rightarrow> (bytes \<Rightarrow> bytes) \<Rightarrow> bool" where
  "confirm_marked_upfront_does_not_revert c sha = on_board c sha NoFault
     (after_upload c sha (literal ''trusted-firmware'') (\<lambda>_ d.
        in_slot (\<lambda>s1. let staged = im_hash s1 in
          after_set_state staged True (\<lambda>d.
            let d = reset d in in_slot im_confirmed (dev_slot0 d) \<and> \<not> dev_awaiting_confirm d \<and>
            in_slot (\<lambda>s. im_hash s = staged) (dev_slot0 (reset d))) d)
          (dev_slot1 d)))"

definition fault_bad_hash_stages_nothing :: "usize_cfg \<Rightarrow> (bytes \<Rightarrow> bytes) \<Rightarrow> bool" where
  "fault_bad_hash_stages_nothing c sha = on_board c sha BadHash
     (after_upload c sha (literal ''payload-the-device-hashes-differently'') (\<lambda>out d.
        completed False out \<and> dev_slot1 d = None))"

definition fault_disconnect_mid_upload_goes_silent :: "usize_cfg \<Rightarrow> (bytes \<Rightarrow> bytes) \<Rightarrow> bool" where
  "fault_disconnect_mid_upload_goes_silent c sha = on_board c sha (DisconnectMidUpload 2)
     (after_upload c sha (replicate 4096 0xAB) (\<lambda>out d. out = GoSilent \<and> dev_slot1 d = None))"

definition fault_restart_upload_demands_offset_zero_once :: "usize_cfg \<Rightarrow> (bytes \<Rightarrow> bytes) \<Rightarrow> bool" where
  "fault_restart_upload_demands_offset_zero_once c sha = on_board c sha (RestartUpload 256)
     (after_upload c sha (replicate 2048 0x5A) (\<lambda>out d.
        completed True out \<and> up_restart_demanded (dev_upload d)))"

definition fault_digest_already_failed_refuses_a_remark :: "usize_cfg \<Rightarrow> (bytes \<Rightarrow> bytes) \<Rightarrow> bool" where
  "fault_digest_already_failed_refuses_a_remark c sha = on_board c sha DigestAlreadyFailed
     (after_upload c sha (literal ''repeatedly-broken'') (\<lambda>_ d.
        in_slot (\<lambda>s1. let staged = im_hash s1 in
          fst (set_state (d\<lparr>dev_failed_digests := dev_failed_digests d @ [staged]\<rparr>) (Some staged) False) =
            Inl DigestFailedBefore)
          (dev_slot1 d)))"

definition an_out_of_step_client_is_told_the_real_offset :: "usize_cfg \<Rightarrow> (bytes \<Rightarrow> bytes) \<Rightarrow> bool" where
  "an_out_of_step_client_is_told_the_real_offset c sha = on_board c sha NoFault (\<lambda>d.
     let image = replicate 1024 1 in
     case upload_chunk c sha d 0 (Some 1024) (Some (sha image)) (take 128 image) of
       None \<Rightarrow> False
     | Some (_, d) \<Rightarrow>
         map_option fst (upload_chunk c sha d 900 None None (take 64 image)) = Some (Continue 128))"

text \<open>None of the test images has a header.\<close>

lemma image_without_header:
  "length img < 32 \<or> u32le img 0 \<noteq> IMAGE_MAGIC \<Longrightarrow> image_from_bytes c sha img v = Some \<lparr>im_version = v, im_hash = sha img,
     im_bytes = length img, im_bootable = True, im_pending = False, im_confirmed = False, im_permanent = False\<rparr>"
  by (auto simp: image_from_bytes_def mcuboot_parse_def HEADER_LEN_def)

lemma on_boardI:
  "(\<And>d s0. provisioned c sha f = Some d \<Longrightarrow> dev_slot0 d = Some s0 \<Longrightarrow> im_confirmed s0 \<Longrightarrow> im_hash s0 = sha factory_image \<Longrightarrow>
    \<not> im_pending s0 \<Longrightarrow> dev_slot1 d = None \<Longrightarrow> dev_fault d = f \<Longrightarrow> \<not> dev_awaiting_confirm d \<Longrightarrow>
    dev_upload d = upload_default \<Longrightarrow> P d) \<Longrightarrow> on_board c sha f P"
  by (simp add: on_board_def factory_provisioned)

lemma after_uploadI:
  assumes "img \<noteq> []" and "honest_fault (dev_fault d)" and "length img < 32 \<or> u32le img 0 \<noteq> IMAGE_MAGIC"
    and "\<And>d' s1. dev_slot1 d' = Some s1 \<Longrightarrow> im_hash s1 = sha img \<Longrightarrow> dev_slot0 d' = dev_slot0 d \<Longrightarrow>
      dev_fault d' = dev_fault d \<Longrightarrow> dev_awaiting_confirm d' = dev_awaiting_confirm d \<Longrightarrow>
      \<not> im_confirmed s1 \<Longrightarrow> P (Complete (length img) True) d'"
  shows "after_upload c sha img P d"
proof -
  obtain d' where up: "upload_whole c sha d img = Some (Complete (length img) True, d')"
    "dev_slot1 d' = Some \<lparr>im_version = ''2.0.0+staged'', im_hash = sha img, im_bytes = length img, im_bootable = True,
      im_pending = False, im_confirmed = False, im_permanent = False\<rparr>"
    using upload_whole_stages [OF assms(1,2) image_without_header [OF assms(3)]] by blast
  with upload_loop_frame [of c sha img d 0 "Continue 0"] assms(4) [of d'] show ?thesis
    by (simp add: after_upload_def upload_whole_def same_run_def)
qed

lemmas board_run = in_slot_def after_set_state_def set_state_def reset_def confirm_running_def

lemma clean_upload_test: "a_clean_upload_lands_in_slot_one c sha"
  unfolding a_clean_upload_lands_in_slot_one_def
  by (rule on_boardI, rule after_uploadI) (simp_all add: literal_def honest_fault_def in_slot_def)

lemma already_failed_test: "fault_digest_already_failed_refuses_a_remark c sha"
  unfolding fault_digest_already_failed_refuses_a_remark_def
  by (rule on_boardI, rule after_uploadI) (simp_all add: literal_def honest_fault_def in_slot_def set_state_def)

lemma test_then_confirm_test:
  "sha factory_image \<noteq> sha (literal ''new-firmware-payload'') \<Longrightarrow> test_then_confirm_sticks c sha"
  unfolding test_then_confirm_sticks_def
  by (rule on_boardI, rule after_uploadI) (simp_all add: literal_def honest_fault_def board_run Let_def)

lemma confirm_upfront_test:
  "sha factory_image \<noteq> sha (literal ''trusted-firmware'') \<Longrightarrow> confirm_marked_upfront_does_not_revert c sha"
  unfolding confirm_marked_upfront_does_not_revert_def
  by (rule on_boardI, rule after_uploadI) (simp_all add: literal_def honest_fault_def board_run Let_def)

lemma unconfirmed_reverts_test:
  assumes "sha factory_image \<noteq> sha (literal ''broken-firmware'')"
  shows "an_unconfirmed_image_reverts c sha"
  unfolding an_unconfirmed_image_reverts_def
proof (rule on_boardI, goal_cases)
  case (1 d s0)
  then have "after_upload c sha (literal ''broken-firmware'') P d" if "\<And>d' s1. dev_slot1 d' = Some s1 \<Longrightarrow>
      im_hash s1 = sha (literal ''broken-firmware'') \<Longrightarrow> dev_slot0 d' = Some s0 \<Longrightarrow> dev_fault d' = NoFault \<Longrightarrow>
      \<not> dev_awaiting_confirm d' \<Longrightarrow> P (Complete (length (literal ''broken-firmware'')) True) d'" for P
    by (intro after_uploadI that) (simp_all add: literal_def honest_fault_def)
  with 1 assms show ?case by (simp add: board_run Let_def)
qed

lemma bad_hash_test: "fault_bad_hash_stages_nothing c sha"
  unfolding fault_bad_hash_stages_nothing_def
  by (rule on_boardI) (simp add: after_upload_def upload_whole_def upload_loop.simps [of _ _ _ _ 0] upload_chunk_def
      literal_def Let_def upload_default_def)

lemma out_of_step_test: "an_out_of_step_client_is_told_the_real_offset c sha"
  unfolding an_out_of_step_client_is_told_the_real_offset_def
  by (rule on_boardI) (simp add: upload_chunk_def Let_def)

lemma disconnect_test: "fault_disconnect_mid_upload_goes_silent c sha"
  unfolding fault_disconnect_mid_upload_goes_silent_def
  by (rule on_boardI) (simp add: after_upload_def upload_whole_def upload_loop.simps [of _ _ _ _ 0]
      upload_loop.simps [of _ _ _ _ 128] upload_chunk_def Let_def upload_default_def)

text \<open>The restart: once demanded it stays demanded, so the second run of the loop goes straight through.\<close>

lemma chunk_keeps_restart:
  "upload_chunk c sha d off len dig data = Some (out, d') \<Longrightarrow> up_restart_demanded (dev_upload d) \<Longrightarrow>
    up_restart_demanded (dev_upload d')"
  by (auto simp: upload_chunk_def Let_def split: if_splits option.splits fault.splits)

lemma loop_keeps_restart:
  assumes "upload_loop c sha img d off prev = Some y" and "up_restart_demanded (dev_upload d)"
  shows "up_restart_demanded (dev_upload (snd y))"
proof -
  have "up_restart_demanded (dev_upload d) \<longrightarrow> up_restart_demanded (dev_upload (snd y))"
  proof (rule upload_loop.raw_induct [of "\<lambda>c sha img d off prev y. up_restart_demanded (dev_upload d) \<longrightarrow>
        up_restart_demanded (dev_upload (snd y))", OF _ assms(1)], goal_cases)
    case (1 loop c sha img d off prev y)
    show ?case
    proof (cases "off < length img")
      case False
      with 1(2) show ?thesis by auto
    next
      case True
      with 1(2) obtain out d' where chunk: "whole_chunk c sha img d off = Some (out, d')"
        and rest: "(case out of Continue next_off \<Rightarrow> loop c sha img d' next_off out
          | Complete n b \<Rightarrow> Some (out, d') | GoSilent \<Rightarrow> Some (out, d')) = Some y"
        by (auto split: option.splits)
      from chunk_keeps_restart [OF chunk] rest 1(1) [of c sha img d'] show ?thesis by (cases out) auto
    qed
  qed
  with assms(2) show ?thesis by simp
qed

lemma restart_test: "fault_restart_upload_demands_offset_zero_once c sha"
  unfolding fault_restart_upload_demands_offset_zero_once_def
proof (rule on_boardI, goal_cases)
  case (1 d s0)
  let ?img = "replicate 2048 0x5A :: bytes"
  have len: "length ?img = 2048" and ne: "?img \<noteq> []" by simp_all
  have "u32le ?img 0 \<noteq> IMAGE_MAGIC" by (simp add: u32le_def from_le32_def IMAGE_MAGIC_def)
  then obtain im where im: "image_from_bytes c sha ?img ''2.0.0+staged'' = Some im"
    using image_without_header by blast
  define d3 where "d3 = d\<lparr>dev_upload := \<lparr>up_expected_len = 2048, up_declared_sha = Some (sha ?img),
    up_received = [], up_chunks = Suc (Suc 0), up_restart_demanded = True\<rparr>\<rparr>"
  have "upload_whole c sha d ?img = upload_loop c sha ?img d3 0 (Continue 0)"
    unfolding upload_whole_def using 1
    by (subst upload_loop.simps, simp add: upload_chunk_def Let_def upload_default_def,
        subst upload_loop.simps, simp add: upload_chunk_def Let_def,
        subst upload_loop.simps, simp add: upload_chunk_def Let_def d3_def)
  moreover from upload_loop_plain [of 0 ?img d3 c sha im "Continue 0"] im ne 1
  obtain d' where run: "upload_loop c sha ?img d3 0 (Continue 0) = Some (Complete 2048 True, d')"
    by (auto simp: d3_def honest_fault_def uploading_def armed_def)
  moreover note loop_keeps_restart [OF run]
  ultimately show ?case by (simp add: after_upload_def d3_def)
qed

subsection \<open>The framing codec\<close>

text \<open>\<open>feed\<close> pushes the lines of a stream; the \<open>unwrap\<close> of a rejected packet panics.\<close>

fun feed_lines :: "(bytes \<Rightarrow> u16) \<Rightarrow> (bytes \<Rightarrow> bytes option) \<Rightarrow> decoder \<Rightarrow> bytes list \<Rightarrow> bytes option outcome" where
  "feed_lines crc unb64 d [] = Done None"
| "feed_lines crc unb64 d (line # ls) =
     (if line = [] then feed_lines crc unb64 d ls
      else case push_line crc unb64 d line of
        (Inl _, _) \<Rightarrow> Panic
      | (Inr (Some body), _) \<Rightarrow> Done (Some body)
      | (Inr None, d') \<Rightarrow> feed_lines crc unb64 d' ls)"

definition feed :: "(bytes \<Rightarrow> u16) \<Rightarrow> (bytes \<Rightarrow> bytes option) \<Rightarrow> bytes \<Rightarrow> bytes option outcome" where
  "feed crc unb64 wire = (case split_lines wire of (ls, rest) \<Rightarrow> feed_lines crc unb64 decoder_new (ls @ [rest]))"

text \<open>The frame the tests build, and a test on what \<open>encode(&f, MAX_LINE).unwrap()\<close> gives.\<close>

definition test_frame :: "byte \<Rightarrow> u16 \<Rightarrow> byte \<Rightarrow> byte \<Rightarrow> bytes \<Rightarrow> frame" where
  "test_frame op grp seq cmd payload = \<lparr>fr_op = op, fr_version = 1, fr_flags = 0, fr_group = grp, fr_seq = seq,
     fr_cmd = cmd, fr_payload = payload\<rparr>"

definition on_wire :: "(bytes \<Rightarrow> u16) \<Rightarrow> (bytes \<Rightarrow> bytes) \<Rightarrow> frame \<Rightarrow> (bytes \<Rightarrow> bool) \<Rightarrow> bool" where
  "on_wire crc b64 f P = (case encode crc b64 f MAX_LINE of Inl e \<Rightarrow> False | Inr wire \<Rightarrow> P wire)"

definition fed_back :: "(bytes \<Rightarrow> u16) \<Rightarrow> (bytes \<Rightarrow> bytes option) \<Rightarrow> (frame \<Rightarrow> bool) \<Rightarrow> bytes \<Rightarrow> bool" where
  "fed_back crc unb64 P wire = (case feed crc unb64 wire of
     Done (Some body) \<Rightarrow> (case frame_parse body of Inl e \<Rightarrow> False | Inr f \<Rightarrow> P f)
   | _ \<Rightarrow> False)"

definition byte0_matches_the_bytes_mcumgr_toolkit_sends :: bool where
  "byte0_matches_the_bytes_mcumgr_toolkit_sends \<longleftrightarrow>
     list_all (\<lambda>(op, expected). header_bytes (test_frame op 0 0 0 []) ! 0 = expected) [(OP_READ, 0x08), (OP_WRITE, 0x0a)] \<and>
     list_all (\<lambda>(byte0, op). case frame_parse [byte0, 0, 0, 0, 0, 0, 0, 0] of
         Inl e \<Rightarrow> False | Inr f \<Rightarrow> fr_op f = op \<and> fr_version f = 1) [(0x08, OP_READ), (0x0a, OP_WRITE)]"

definition crc16_xmodem_matches_the_known_vector :: "(bytes \<Rightarrow> u16) \<Rightarrow> bool" where
  "crc16_xmodem_matches_the_known_vector crc \<longleftrightarrow> crc (literal ''123456789'') = 0x31C3"

definition header_is_big_endian_and_eight_bytes :: bool where
  "header_is_big_endian_and_eight_bytes \<longleftrightarrow>
     header_bytes (test_frame OP_WRITE 0x0102 0x42 0x07 [0xa0]) = [0x0a, 0, 0, 1, 1, 2, 0x42, 7]"

definition group_id_is_sixteen_bits ::
    "(bytes \<Rightarrow> u16) \<Rightarrow> (bytes \<Rightarrow> bytes) \<Rightarrow> (bytes \<Rightarrow> bytes option) \<Rightarrow> bool" where
  "group_id_is_sixteen_bits crc b64 unb64 \<longleftrightarrow>
     list_all (\<lambda>grp. on_wire crc b64 (test_frame OP_READ grp 1 0 [0xa0]) (fed_back crc unb64 (\<lambda>f. fr_group f = grp)))
       [GROUP_OS, GROUP_IMG, GROUP_PERUSER, 300, 0xBEEF]"

definition round_trips_a_single_line_packet ::
    "(bytes \<Rightarrow> u16) \<Rightarrow> (bytes \<Rightarrow> bytes) \<Rightarrow> (bytes \<Rightarrow> bytes option) \<Rightarrow> bool" where
  "round_trips_a_single_line_packet crc b64 unb64 \<longleftrightarrow> (let f = test_frame OP_WRITE GROUP_OS 9 0 [0xa0] in
     on_wire crc b64 f (\<lambda>wire. take 2 wire = MARKER_START \<and> wire \<noteq> [] \<and> last wire = 10 \<and> fed_back crc unb64 (\<lambda>g. g = f) wire))"

definition round_trips_a_fragmented_packet ::
    "(bytes \<Rightarrow> u16) \<Rightarrow> (bytes \<Rightarrow> bytes) \<Rightarrow> (bytes \<Rightarrow> bytes option) \<Rightarrow> bool" where
  "round_trips_a_fragmented_packet crc b64 unb64 \<longleftrightarrow>
     (let f = test_frame OP_WRITE GROUP_IMG 3 1 (map (\<lambda>i. of_nat (i mod 251)) [0..<512]) in
      on_wire crc b64 f (\<lambda>wire. case split_lines wire of (ls, rest) \<Rightarrow>
        let lines = filter (\<lambda>l. l \<noteq> []) (ls @ [rest]) in
        1 < length lines \<and> take 2 (lines ! 0) = MARKER_START \<and>
        list_all (\<lambda>l. take 2 l = MARKER_CONT) (tl lines) \<and> fed_back crc unb64 (\<lambda>g. g = f) wire))"

definition every_line_respects_the_127_byte_limit :: "(bytes \<Rightarrow> u16) \<Rightarrow> (bytes \<Rightarrow> bytes) \<Rightarrow> bool" where
  "every_line_respects_the_127_byte_limit crc b64 \<longleftrightarrow>
     on_wire crc b64 (test_frame OP_WRITE GROUP_IMG 0 1 (replicate 4096 0x41)) (\<lambda>wire.
       case split_lines wire of (ls, rest) \<Rightarrow>
         list_all (\<lambda>l. length l + 1 \<le> MAX_LINE) ls \<and> length rest \<le> MAX_LINE)"

definition rejects_a_corrupted_crc ::
    "(bytes \<Rightarrow> u16) \<Rightarrow> (bytes \<Rightarrow> bytes) \<Rightarrow> (bytes \<Rightarrow> bytes option) \<Rightarrow> bool" where
  "rejects_a_corrupted_crc crc b64 unb64 \<longleftrightarrow>
     on_wire crc b64 (test_frame OP_WRITE GROUP_OS 1 0 [0xa0]) (\<lambda>wire.
       let line = filter (\<lambda>b. b \<noteq> 10) wire; i = length line div 2;
           corrupted = line[i := (if line ! i = 65 then 66 else 65)]
       in case push_line crc unb64 decoder_new corrupted of (Inl e, _) \<Rightarrow> True | (Inr _, _) \<Rightarrow> False)"

definition a_stray_continuation_is_dropped :: "(bytes \<Rightarrow> u16) \<Rightarrow> (bytes \<Rightarrow> bytes option) \<Rightarrow> bool" where
  "a_stray_continuation_is_dropped crc unb64 \<longleftrightarrow>
     fst (push_line crc unb64 decoder_new (MARKER_CONT @ literal ''AAAA'')) = Inr None"

text \<open>What the decoder yields when its lines are pushed one by one is what \<open>feed\<close> returns first.\<close>

lemma feed_lines_pushed:
  "push_lines crc unb64 d ls = (replicate k (Inr None) @ [Inr (Some body)], d') \<Longrightarrow>
    feed_lines crc unb64 d (ls @ rest) = Done (Some body)"
proof (induction ls arbitrary: d k)
  case (Cons l ls)
  then show ?case by (cases k) (auto simp: push_line_def split: prod.splits if_splits)
qed simp

lemma feed_encoded:
  assumes "base64_engine b64 unb64" and "length (fr_payload f) < 65526"
    and "fr_op f AND 7 = fr_op f" and "fr_version f AND 3 = fr_version f"
  shows "\<exists>wire. encode crc b64 f MAX_LINE = Inr wire \<and> fed_back crc unb64 (\<lambda>g. g = f) wire"
proof -
  obtain wire where wire: "encode crc b64 f MAX_LINE = Inr wire" by (auto simp: encode_def Let_def MAX_LINE_def)
  from base64_engine.encode_pushed [OF assms(1) wire assms(2)] obtain k d' where
    "push_lines crc unb64 decoder_new (fst (split_lines wire)) =
      (replicate k (Inr None) @ [Inr (Some (header_bytes f @ fr_payload f))], d')" by blast
  from feed_lines_pushed [OF this] have "feed crc unb64 wire = Done (Some (header_bytes f @ fr_payload f))"
    by (simp add: feed_def split_beta)
  moreover have "frame_parse (header_bytes f @ fr_payload f) = Inr f"
    using frame_parse_header [of f] assms(2-4) by simp
  ultimately show ?thesis using wire by (simp add: fed_back_def)
qed

lemma fed_back_mono: "fed_back crc unb64 P wire \<Longrightarrow> (\<And>f. P f \<Longrightarrow> Q f) \<Longrightarrow> fed_back crc unb64 Q wire"
  by (auto simp: fed_back_def split: outcome.splits option.splits sum.splits)

lemma last_stream: "ls \<noteq> [] \<Longrightarrow> last (concat (map (\<lambda>l. l @ [x]) ls)) = x"
  by (induction ls) auto

lemmas op_defs = OP_READ_def OP_WRITE_def GROUP_OS_def GROUP_IMG_def GROUP_PERUSER_def

lemma byte0_test: "byte0_matches_the_bytes_mcumgr_toolkit_sends"
  by (simp add: byte0_matches_the_bytes_mcumgr_toolkit_sends_def header_bytes_def test_frame_def frame_parse_def
      from_be16_def op_defs)

lemma crc_test: "crc16_xmodem_matches_the_known_vector crc16_xmodem"
  using crc16_xmodem_check by (simp add: crc16_xmodem_matches_the_known_vector_def literal_def)

lemma header_test: "header_is_big_endian_and_eight_bytes"
  by (simp add: header_is_big_endian_and_eight_bytes_def header_bytes_def test_frame_def op_defs)

lemma group_test:
  assumes "base64_engine b64 unb64"
  shows "group_id_is_sixteen_bits crc b64 unb64"
proof -
  have "on_wire crc b64 (test_frame OP_READ g 1 0 [0xa0]) (fed_back crc unb64 (\<lambda>f. fr_group f = g))" for g
  proof -
    let ?f = "test_frame OP_READ g 1 0 [0xa0]"
    obtain wire where "encode crc b64 ?f MAX_LINE = Inr wire" and "fed_back crc unb64 (\<lambda>f. f = ?f) wire"
      using feed_encoded [OF assms, of ?f crc] by (auto simp: test_frame_def op_defs)
    then show ?thesis
      by (auto simp: on_wire_def test_frame_def intro: fed_back_mono)
  qed
  then show ?thesis by (simp add: group_id_is_sixteen_bits_def)
qed

lemma single_line_test:
  assumes "base64_engine b64 unb64"
  shows "round_trips_a_single_line_packet crc b64 unb64"
proof -
  let ?f = "test_frame OP_WRITE GROUP_OS 9 0 [0xa0]"
  obtain wire where wire: "encode crc b64 ?f MAX_LINE = Inr wire" and fb: "fed_back crc unb64 (\<lambda>f. f = ?f) wire"
    using feed_encoded [OF assms, of ?f crc] by (auto simp: test_frame_def op_defs)
  from base64_engine.encode_stream [OF assms wire] obtain ls where
    ls: "split_lines wire = (ls, [])" "wire = concat (map (\<lambda>l. l @ [10]) ls)" by blast
  from encode_framing [OF assms wire] ls(1) obtain l ls' where "ls = l # ls'" and start: "take 2 l = MARKER_START"
    by auto
  moreover from this have "2 \<le> length l" by (cases l; cases "tl l") (auto simp: MARKER_START_def)
  ultimately have "take 2 wire = MARKER_START" "wire \<noteq> []" using ls(2) by auto
  moreover have "last wire = 10" unfolding ls(2) using \<open>ls = l # ls'\<close> by (simp add: last_stream)
  ultimately show ?thesis
    using wire fb by (simp add: round_trips_a_single_line_packet_def on_wire_def)
qed

lemma fragmented_test:
  assumes "base64_engine b64 unb64" and long: "\<And>xs. length (b64 xs) = 4 * ((length xs + 2) div 3)"
  shows "round_trips_a_fragmented_packet crc b64 unb64"
proof -
  let ?f = "test_frame OP_WRITE GROUP_IMG 3 1 (map (\<lambda>i. of_nat (i mod 251)) [0..<512])"
  obtain wire where wire: "encode crc b64 ?f MAX_LINE = Inr wire" and fb: "fed_back crc unb64 (\<lambda>f. f = ?f) wire"
    using feed_encoded [OF assms(1), of ?f crc] by (auto simp: test_frame_def op_defs)
  from base64_engine.encode_lines [OF assms(1) wire] obtain cs where
    cs: "split_lines wire = (marked_lines True cs, [])" "cs \<noteq> []" "\<forall>c \<in> set cs. length c \<le> MAX_LINE - 3"
      "concat cs = b64 (packet crc (header_bytes ?f @ fr_payload ?f))" by blast
  have "length (concat cs) = 700"
    unfolding cs(4) by (simp add: long packet_def test_frame_def)
  then have "1 < length cs"
    using cs(2,3) by (cases cs; cases "tl cs") (auto simp: MAX_LINE_def)
  then obtain c c' cs' where [simp]: "cs = c # c' # cs'" by (cases cs; cases "tl cs") auto
  have marked: "l \<noteq> [] \<and> take 2 l = MARKER_CONT" if "l \<in> set (marked_lines False xs)" for l and xs :: "bytes list"
    using that by (induction xs) (auto simp: MARKER_CONT_def)
  then have "filter (\<lambda>l. l \<noteq> []) (marked_lines False xs) = marked_lines False xs" for xs :: "bytes list"
    by (auto intro: filter_True)
  with marked [of _ "c' # cs'"] cs(1) fb wire show ?thesis
    by (auto simp: round_trips_a_fragmented_packet_def on_wire_def list_all_iff MARKER_START_def MARKER_CONT_def Let_def)
qed

lemma line_limit_test:
  assumes "base64_engine b64 unb64"
  shows "every_line_respects_the_127_byte_limit crc b64"
proof -
  let ?f = "test_frame OP_WRITE GROUP_IMG 0 1 (replicate 4096 0x41)"
  obtain wire where "encode crc b64 ?f MAX_LINE = Inr wire" by (auto simp: encode_def Let_def MAX_LINE_def)
  with encode_framing [OF assms this] show ?thesis
    by (auto simp: every_line_respects_the_127_byte_limit_def on_wire_def list_all_iff split_beta)
qed

lemma stray_test: "a_stray_continuation_is_dropped crc unb64"
  by (simp add: a_stray_continuation_is_dropped_def push_line_def MARKER_START_def MARKER_CONT_def decoder_new_def)

lemma corrupted_test: "rejects_a_corrupted_crc crc16_xmodem rfc4648_encode rfc4648_decode"
proof -
  have "encode crc16_xmodem rfc4648_encode (test_frame OP_WRITE GROUP_OS 1 0 [0xa0]) MAX_LINE =
      Inr [6, 9, 65, 65, 115, 75, 65, 65, 65, 66, 65, 65, 65, 66, 65, 75, 65, 111, 52, 103, 61, 61, 10]"
    by (simp add: encode_def test_frame_def op_defs header_bytes_def to_be16_def crc16_xmodem_def crc16_byte_def
        crc16_shift_def b64_symbol_def chunks_step MARKER_START_def MAX_LINE_def)
  moreover have "\<exists>e. fst (push_line crc16_xmodem rfc4648_decode decoder_new
      [6, 9, 65, 65, 115, 75, 65, 65, 65, 66, 65, 66, 65, 66, 65, 75, 65, 111, 52, 103, 61, 61]) = Inl e"
    by (simp add: push_line_def try_complete_def decoder_new_def MARKER_START_def b64_value_def
        b64_byte_def from_be16_def crc16_xmodem_def crc16_byte_def crc16_shift_def)
  ultimately show ?thesis
    by (auto simp: rejects_a_corrupted_crc_def on_wire_def Let_def split: prod.splits sum.splits)
qed

end
