(* ===== verification/Lock_Tests.thy ===== *)
theory Lock_Tests
  imports Kernel
begin

text \<open>
  The unit tests of \<open>crates/runtt/src/lock.rs\<close>: predicates over the operating system they run on, and
  that they hold on the kernel of the theory \<open>Kernel\<close> while no call of it fails.
\<close>

text \<open>The scratch directory each test begins with; what it ends with is not asserted.\<close>

definition in_scratch :: "'w os \<Rightarrow> string \<Rightarrow> ('w \<Rightarrow> bool) \<Rightarrow> 'w \<Rightarrow> bool" where
  "in_scratch S root P w = (case os_create_dir_all S root (snd (os_remove_dir_all S root w)) of
     (Inl e, w') \<Rightarrow> False | (Inr _, w') \<Rightarrow> P w')"

definition claimed :: "'w os \<Rightarrow> string \<Rightarrow> string \<Rightarrow> (int \<Rightarrow> 'w \<Rightarrow> bool) \<Rightarrow> 'w \<Rightarrow> bool" where
  "claimed S root key P w = (case acquire_resolved S root key w of (Inl e, w') \<Rightarrow> False | (Inr fd, w') \<Rightarrow> P fd w')"

definition one_device_cannot_be_claimed_twice :: "'w os \<Rightarrow> string \<Rightarrow> 'w \<Rightarrow> bool" where
  "one_device_cannot_be_claimed_twice S root = in_scratch S root
     (let key = ''/dev/ttyACM_fake_for_test'' in
      claimed S root key (\<lambda>first w.
        case acquire_resolved S root key w of
          (Inr _, _) \<Rightarrow> False
        | (Inl e, w) \<Rightarrow> e = AlreadyClaimed \<and> claimed S root key (\<lambda>_ _. True) (snd (os_close S first w))))"

definition different_devices_do_not_contend :: "'w os \<Rightarrow> string \<Rightarrow> 'w \<Rightarrow> bool" where
  "different_devices_do_not_contend S root = in_scratch S root
     (claimed S root ''/dev/ttyACM0'' (\<lambda>a. claimed S root ''/dev/ttyACM1'' (\<lambda>b w. a \<noteq> b)))"

text \<open>Claims on a kernel whose calls do not fail.\<close>

definition unfailing :: "kernel \<Rightarrow> bool" where
  "unfailing w \<longleftrightarrow> k_fails w = (\<lambda>_. False) \<and> locks_open k_held opened w"

lemma kernel_claim:
  assumes "unfailing w"
  shows "\<exists>w'. acquire_resolved kernel_os root key w =
      (if k_held w (lock_path root key) = None then Inr (fresh_fd w) else Inl AlreadyClaimed, w') \<and>
    unfailing w' \<and>
    k_held w' = (if k_held w (lock_path root key) = None then (k_held w)(lock_path root key \<mapsto> fresh_fd w) else k_held w)"
proof -
  have fresh: "k_held w p \<noteq> Some (fresh_fd w)" for p
    using assms fresh_not_opened [of w] by (auto simp: unfailing_def locks_open_def)
  have [simp]: "fresh_fd (w\<lparr>k_calls := n\<rparr>) = fresh_fd w" "content (w\<lparr>k_calls := n\<rparr>) = content w" for n
    by (simp_all add: fresh_fd_def content_def)
  have held: "k_held w (lock_path root key) = Some a \<Longrightarrow> a \<noteq> fresh_fd w" for a using fresh by auto
  show ?thesis
    using assms fresh
    by (cases "content w (lock_path root key)"; cases "k_held w (lock_path root key)")
      (simp_all add: held acquire_resolved_def acquire_named_def clear_cloexec_def io_run kernel_os_def kernel_open_def Let_def
        kernel_flock_def kernel_close_def lock_path_def [symmetric] put_file_def counted_def kernel_fails_def opened_def
        unfailing_def locks_open_def fun_eq_iff delete_fun)
qed

lemma kernel_release:
  assumes "unfailing w"
  shows "unfailing (snd (os_close kernel_os fd w)) \<and>
    k_held (snd (os_close kernel_os fd w)) = (\<lambda>p. if k_held w p = Some fd then None else k_held w p)"
  using assms by (auto simp: unfailing_def locks_open_def kernel_os_def kernel_close_def opened_def delete_fun counted_def)

lemma kernel_scratch:
  assumes "unfailing w"
  shows "\<exists>w'. in_scratch kernel_os root P w = P w' \<and> unfailing w' \<and> k_held w' = k_held w"
  using assms by (auto simp: in_scratch_def kernel_os_def kernel_remove_dir_def kernel_fails_def counted_def unfailing_def
      locks_open_def opened_def)

lemma one_device_test:
  assumes "unfailing w" and free: "k_held w (lock_path root ''/dev/ttyACM_fake_for_test'') = None"
  shows "one_device_cannot_be_claimed_twice kernel_os root w"
proof -
  let ?key = "''/dev/ttyACM_fake_for_test''" and ?os = "kernel_os"
  let ?P = "claimed ?os root ?key (\<lambda>first w. case acquire_resolved ?os root ?key w of
      (Inr _, _) \<Rightarrow> False
    | (Inl e, w) \<Rightarrow> e = AlreadyClaimed \<and> claimed ?os root ?key (\<lambda>_ _. True) (snd (os_close ?os first w)))"
  from kernel_scratch [OF assms(1), of root ?P] obtain w1 where w1: "in_scratch ?os root ?P w = ?P w1" "unfailing w1"
    "k_held w1 = k_held w" by blast
  from kernel_claim [OF w1(2), of root ?key] free w1(3) obtain w2 where
    w2: "acquire_resolved ?os root ?key w1 = (Inr (fresh_fd w1), w2)" "unfailing w2"
      "k_held w2 (lock_path root ?key) = Some (fresh_fd w1)" by auto
  from kernel_claim [OF w2(2), of root ?key] w2(3) obtain w3 where
    w3: "acquire_resolved ?os root ?key w2 = (Inl AlreadyClaimed, w3)" "unfailing w3"
      "k_held w3 (lock_path root ?key) = Some (fresh_fd w1)" by auto
  from kernel_release [OF w3(2), of "fresh_fd w1"] w3(3) kernel_claim [of "snd (os_close ?os (fresh_fd w1) w3)" root ?key]
  have "claimed ?os root ?key (\<lambda>_ _. True) (snd (os_close ?os (fresh_fd w1) w3))" by (auto simp: claimed_def)
  with w1(1) w2(1) w3(1) show ?thesis
    by (simp add: one_device_cannot_be_claimed_twice_def claimed_def Let_def)
qed

lemma different_devices_test:
  assumes "unfailing w" and "k_held w (lock_path root ''/dev/ttyACM0'') = None" and "k_held w (lock_path root ''/dev/ttyACM1'') = None"
  shows "different_devices_do_not_contend kernel_os root w"
proof -
  let ?a = "''/dev/ttyACM0''" and ?b = "''/dev/ttyACM1''" and ?os = "kernel_os"
  let ?P = "claimed ?os root ?a (\<lambda>a. claimed ?os root ?b (\<lambda>b w. a \<noteq> b))"
  have differ: "lock_path root ?a \<noteq> lock_path root ?b"
    by (simp add: lock_path_eq device_lock_name_def sanitise_def continuation_byte_def ascii_alphanumeric_def)
  from kernel_scratch [OF assms(1), of root ?P] obtain w1 where w1: "in_scratch ?os root ?P w = ?P w1" "unfailing w1"
    "k_held w1 = k_held w" by blast
  from kernel_claim [OF w1(2), of root ?a] assms(2) w1(3) obtain w2 where
    w2: "acquire_resolved ?os root ?a w1 = (Inr (fresh_fd w1), w2)" "unfailing w2"
      "k_held w2 = (k_held w1)(lock_path root ?a \<mapsto> fresh_fd w1)" by auto
  from kernel_claim [OF w2(2), of root ?b] w2(3) w1(3) assms(3) differ obtain w3 where
    w3: "acquire_resolved ?os root ?b w2 = (Inr (fresh_fd w2), w3)" by auto
  have "opened w2 (fresh_fd w1) = Some (lock_path root ?a)" using w2(2,3) by (auto simp: unfailing_def locks_open_def)
  with fresh_not_opened [of w2] have "fresh_fd w1 \<noteq> fresh_fd w2" by auto
  with w1(1) w2(1) w3 show ?thesis by (simp add: different_devices_do_not_contend_def claimed_def)
qed

end
