(* ===== verification/Source_Tests.thy ===== *)
theory Source_Tests
  imports Label_Tests Board_Tests Lock_Tests
begin

text \<open>
  The unit tests of the sources, gathered: checks of the definitions against what the authors expect of single
  functions on their examples.  Where a test leans on a machine (a symbolic link that resolves, a null device)
  or on third-party code, that is an assumption of its lemma.
\<close>

definition device_tests :: "usize_cfg \<Rightarrow> (bytes \<Rightarrow> bytes) \<Rightarrow> bool" where
  "device_tests c sha \<longleftrightarrow> a_clean_upload_lands_in_slot_one c sha \<and> test_then_confirm_sticks c sha \<and>
     an_unconfirmed_image_reverts c sha \<and> confirm_marked_upfront_does_not_revert c sha \<and>
     fault_bad_hash_stages_nothing c sha \<and> fault_disconnect_mid_upload_goes_silent c sha \<and>
     fault_restart_upload_demands_offset_zero_once c sha \<and> fault_digest_already_failed_refuses_a_remark c sha \<and>
     an_out_of_step_client_is_told_the_real_offset c sha"

definition framing_tests :: "(bytes \<Rightarrow> u16) \<Rightarrow> (bytes \<Rightarrow> bytes) \<Rightarrow> (bytes \<Rightarrow> bytes option) \<Rightarrow> bool" where
  "framing_tests crc b64 unb64 \<longleftrightarrow> byte0_matches_the_bytes_mcumgr_toolkit_sends \<and> header_is_big_endian_and_eight_bytes \<and>
     group_id_is_sixteen_bits crc b64 unb64 \<and> round_trips_a_single_line_packet crc b64 unb64 \<and>
     round_trips_a_fragmented_packet crc b64 unb64 \<and> every_line_respects_the_127_byte_limit crc b64 \<and>
     a_stray_continuation_is_dropped crc unb64"

definition pure_label_tests :: bool where
  "pure_label_tests \<longleftrightarrow> parses_transport_prefixes \<and> rejects_a_label_with_no_prefix \<and> rejects_an_unknown_prefix \<and>
     round_trips_through_display \<and> usb_selectors_are_told_apart_by_shape \<and> a_usb_label_round_trips_in_either_form \<and>
     node_ids_parse_in_hex_and_decimal \<and> a_non_numeric_node_id_says_so \<and> an_extended_can_id_is_refused \<and>
     a_node_id_with_no_room_for_the_reply_is_refused \<and> channel_counting_is_uniform_across_transports \<and>
     a_can_target_displays_its_address_not_a_path"

definition signal_name_tests :: bool where
  "signal_name_tests \<longleftrightarrow> accepts_the_signals_engines_actually_send \<and> accepts_realtime_signals_by_number \<and>
     rejects_nonsense_but_not_merely_unusual"

definition resolve_tests :: "sysfs \<Rightarrow> string \<Rightarrow> bool" where
  "resolve_tests fs dir \<longleftrightarrow> an_absolute_tty_path_is_taken_literally fs \<and> a_missing_tty_is_a_clear_error fs \<and>
     a_missing_can_interface_is_a_clear_error fs \<and> a_lock_key_resolves_symlinks fs dir \<and> a_can_lock_key_is_the_bus_address fs"

text \<open>The machine the resolver's tests take for granted: a null device, no such device and interface,
  and in \<open>dir\<close> a file and a link to it.\<close>

definition test_machine :: "sysfs \<Rightarrow> string \<Rightarrow> bool" where
  "test_machine fs dir \<longleftrightarrow> fs_exists fs ''/dev/null'' \<and> \<not> fs_exists fs ''/dev/definitely-not-here'' \<and>
     \<not> fs_is_dir fs ''/sys/class/net/definitelynotaniface'' \<and>
     fs_canonicalize fs (path_join dir ''real-device'') \<noteq> None \<and>
     fs_canonicalize fs (path_join dir ''alias-device'') = fs_canonicalize fs (path_join dir ''real-device'')"

text \<open>A hash that tells the factory image from the images the tests upload.\<close>

definition tells_apart :: "(bytes \<Rightarrow> bytes) \<Rightarrow> bool" where
  "tells_apart sha \<longleftrightarrow> list_all (\<lambda>img. sha factory_image \<noteq> sha (literal img))
     [''new-firmware-payload'', ''broken-firmware'', ''trusted-firmware'']"

lemma device_tests_pass: "tells_apart sha \<Longrightarrow> device_tests c sha"
  unfolding device_tests_def tells_apart_def
  by (intro conjI clean_upload_test test_then_confirm_test unconfirmed_reverts_test confirm_upfront_test bad_hash_test
      disconnect_test restart_test already_failed_test out_of_step_test) simp_all

lemma framing_tests_pass:
  "base64_engine b64 unb64 \<Longrightarrow> (\<And>xs. length (b64 xs) = 4 * ((length xs + 2) div 3)) \<Longrightarrow> framing_tests crc b64 unb64"
  unfolding framing_tests_def
  by (intro conjI byte0_test header_test group_test single_line_test fragmented_test line_limit_test stray_test)

lemma resolve_tests_pass: "test_machine fs dir \<Longrightarrow> resolve_tests fs dir"
  using tty_tests [of fs] can_tests(1,2) [of fs] symlink_test [of fs dir]
  by (auto simp: resolve_tests_def test_machine_def)

lemma pure_label_tests_pass: pure_label_tests
  by (simp add: pure_label_tests_def label_tests node_tests channel_tests)

lemma signal_name_tests_pass: signal_name_tests
  by (simp add: signal_name_tests_def signal_tests)

lemma rfc4648_length: "length (rfc4648_encode xs) = 4 * ((length xs + 2) div 3)"
proof (induction xs rule: rfc4648_encode.induct)
  case (4 a b c rest)
  then show ?case by simp presburger
qed simp_all

text \<open>The framing tests on the base64 of RFC 4648, the claims on the kernel in memory.\<close>

lemma framing_tests_rfc4648: "framing_tests crc rfc4648_encode rfc4648_decode"
  by (rule framing_tests_pass [OF rfc4648.base64_engine_axioms rfc4648_length])

lemma lock_tests_kernel:
  assumes "unfailing w" and "k_held w = Map.empty"
  shows "one_device_cannot_be_claimed_twice kernel_os root w \<and> different_devices_do_not_contend kernel_os root w"
  using assms by (simp add: one_device_test different_devices_test)

end
