(* ===== verification/Spec2Isabelle.thy ===== *)
theory Spec2Isabelle
  imports Codec Demux Mcuboot Device Server Target Resolve Flash Deploy_Safety Resident Board_Host Mock_Deploy
    State_Writers Kernel Can_Transport Shared_Link Log_Channel Describe Mock_Main Trace Liveness Kernel_Run
    Proxy_Process Stop_Request Bench_Tools Source_Tests
begin

text \<open>
  \<open>runtt\<close> is an OCI runtime that deploys firmware to a microcontroller instead of starting a container.
  A container engine calls it once per verb (create, start, state, kill, delete); \<open>create\<close> leaves a
  resident proxy behind, which is what the engine takes for the container.  The proxy resolves the
  placement label to a device, claims the board, drives it over MCUmgr SMP (upload, test mark, reset,
  confirm) and then watches it.  The workspace has four crates, all of them in Rust: \<open>runtt\<close> (verbs,
  proxy, deploy sequence), \<open>runtt-transport\<close> (labels, sysfs, serial and CAN), \<open>runtt-smp\<close> (the SMP client,
  image parser, log demultiplexer) and \<open>runtt-mock\<close> (an emulated board with an SMP server).

  \<^bold>\<open>Conventions.\<close>  Machine integers are words where their width matters and naturals where the code
  only counts; strings are lists of UTF-8 bytes as characters; times are milliseconds.  A fallible
  function returns a sum, the error on the left, with one constructor per error site; a call that
  may not return gives an option (\<open>partial_function\<close>), and where it does return that is proved.  What
  is not under \<open>crates/\<close> is a parameter: a record of calls over an arbitrary world (\<open>host\<close>, \<open>os\<close>, \<open>sysfs\<close>,
  \<open>sockets\<close>), the engines \<open>b64\<close>, \<open>crc\<close>, \<open>sha\<close>, \<open>cenc\<close>, \<open>cdec\<close>, or a script of what the environment does at each
  turn of a loop.  What a proof needs of a parameter is a locale, interpreted on a concrete one.

  \<^bold>\<open>Foundations.\<close>  \<open>Rust_Prelude\<close> and \<open>Rust_Strings\<close>: the parts of the standard library the sources use.
  \<open>Runtime_Io\<close>: the operating system as the verbs see it, fallible sequencing (\<open>io_bind\<close>, \<open>io_context\<close>) and
  \<open>keeping\<close>, the frame logic of the verbs.  \<open>Trace_Logic\<close>: the program logic of the deploy sequence.

  \<^bold>\<open>The board and its wire\<close> (\<open>crates/runtt-mock\<close>, \<open>crates/runtt-smp\<close>).
  \<open>Codec\<close> is \<open>codec.rs\<close>: a frame encoded to lines comes back from any decoder state, and only verified
  bodies are released; the base64 engine is the locale \<open>base64_engine\<close> (\<open>Base64_Engine\<close>), interpreted on
  RFC 4648.  \<open>Device\<close> is \<open>device.rs\<close> and \<open>faults.rs\<close>: two slots, uploads, MCUboot's decision at reset; an
  image on probation reverts unless confirmed, uploads stage what was sent or nothing, and the
  reachable boards keep an invariant.  \<open>Server\<close> is \<open>server.rs\<close>: the dispatcher and the serve loop over a
  script; every request is answered once, by an answer that matches it.  \<open>Mcuboot\<close> is \<open>mcuboot.rs\<close>: the
  digest of a signed image, and on which inputs the parser returns.  \<open>Demux\<close> is \<open>demux.rs\<close>: routing of a
  shared byte stream, however it is cut into reads.  \<open>Shared_Link\<close> puts the server and the demultiplexer on
  one link: the client reads what a silent board would have written, the log gets the rest.  \<open>Describe\<close>
  is \<open>describe.rs\<close> against the server's answer to it, \<open>Mock_Main\<close> the \<open>main.rs\<close> of the emulated board.

  \<^bold>\<open>From label to board\<close> (\<open>crates/runtt-transport\<close>).  \<open>Target\<close> is \<open>lib.rs\<close>: parsing accepts exactly the printed
  forms.  \<open>Resolve\<close> is \<open>resolve.rs\<close>: sysfs scans, port paths, serial numbers, node ids; a serial number
  leads to one board, and occupancy keys are equal exactly for the same board.  \<open>Can_Transport\<close> is
  \<open>can.rs\<close> of both crates and the loop of \<open>pump_logs\<close> of \<open>flash.rs\<close>: the identifiers of a node, SMP over ISO-TP,
  and console lines put together from reads.  \<open>Serial_Port\<close> is \<open>usb.rs\<close> and the handles of the demultiplexer
  over \<open>tty_service\<close>: which handles are open when, and that no terminal is left flagged exclusive.
  \<open>Log_Channel\<close> is the thread that prints the log channel, from opening it on either bearer to its end.

  \<^bold>\<open>The deploy\<close> (\<open>crates/runtt/src/flash.rs\<close>, \<open>crates/runtt-smp/src/toolkit.rs\<close>).  \<open>Smp_Client\<close> is the client over
  the record \<open>host\<close>, with a trace of what is sent; \<open>Flash\<close> is the deploy sequence and the heartbeat loop.
  \<open>Deploy_Safety\<close> and \<open>Resident\<close> hold for every host, board and timing: the gate in front of a
  confirmation, what is left confirmed after which end, settings in force during the upload, handles
  opened and closed, the bound on reconnecting, and when the resident loop ends.  \<open>Board_Host\<close> states the
  contract of a board (\<open>update_cycle\<close>), \<open>Mock_Deploy\<close> proves it of the emulated board, so that a deploy to
  it is shown to end with the new image confirmed.  \<open>Stop_Request\<close> lets a signal arrive during any call (the
  locale \<open>stop_request\<close>, with a bound on the calls until it does): when the proxy honours it, and when it forgets it.
  \<open>Bench_Tools\<close> is the seven programs under \<open>examples/\<close>: what each may do to a board, and that \<open>can-logs\<close> prints
  what the log thread would.

  \<^bold>\<open>The verbs\<close> (\<open>crates/runtt/src\<close>).  \<open>State_Store\<close> is \<open>state.rs\<close> and \<open>annotations.rs\<close> over the locale \<open>file_system\<close>;
  \<open>State_Writers\<close> takes its write apart into system calls: atomic for one writer, not for two.  \<open>Lock\<close> is
  \<open>lock.rs\<close> over \<open>lock_service\<close>: one board, one proxy.  \<open>Proxy\<close> is \<open>proxy.rs\<close>: waiting for start as a step
  relation with signals between any two steps, and the deploy under the claim; \<open>Proxy_Process\<close> is the whole
  process, from the command line \<open>create\<close> spawns it with (\<open>clap\<close> is the locale \<open>option_words\<close>) over installing the
  handlers to its exit code.  \<open>Verbs\<close> is \<open>verbs.rs\<close> and the dispatch of \<open>main.rs\<close>, \<open>Trace\<close> is \<open>trace.rs\<close> and what
  \<open>main\<close> does with it and with its log file, over \<open>trace_files\<close>; \<open>Trace_Apart\<close> shows that a traced command ends as an
  untraced one (\<open>unseen\<close>, \<open>traced_apart\<close>), unless an argument is not Unicode.  \<open>Lifecycle\<close> proves that
  the verbs refine an abstract map of statuses and keep every recorded state well formed on every
  \<open>container_host\<close>; \<open>Processes\<close> says which processes they spawn, probe and kill (\<open>process_host\<close>), and that each
  returns on a clock that sleeping moves (\<open>ticking\<close>), after how many such steps at most (\<open>timed_host\<close>) and with
  which exit code; \<open>Liveness\<close> says that they succeed on a host whose calls
  do (\<open>obliging_host\<close>).  \<open>System\<close> composes the verbs an engine runs with the proxies they spawn (\<open>runtime_host\<close>):
  an invariant over every such run, whichever calls fail.  \<open>Kernel\<close> is an operating system in memory in
  which any call may fail and \<open>Kernel_Run\<close> brings a container up on it; they interpret the interfaces of
  the verbs, the state store, the locks, the tracer and the system, and hold the witnesses.

  \<^bold>\<open>The tests of the sources.\<close>  \<open>Board_Tests\<close>, \<open>Label_Tests\<close> and \<open>Lock_Tests\<close> state the unit tests of \<open>device.rs\<close>,
  \<open>codec.rs\<close>, \<open>mcuboot.rs\<close>, \<open>resolve.rs\<close>, \<open>can.rs\<close>, \<open>verbs.rs\<close> and \<open>lock.rs\<close> as predicates over the third-party code
  and the machine they run on; \<open>Source_Tests\<close> gathers them, as checks of the definitions on the authors' examples.

  \<^bold>\<open>Bounds.\<close>  No definition uses fuel; \<open>log_loop\<close> and \<open>can_logs_loop\<close> are observed over a number of reads that
  the theorem leaves open.  Loops that may not end are \<open>await_loop\<close>, \<open>resident_loop\<close>, \<open>write_all\<close>, \<open>find_sha256\<close> and \<open>upload_loop\<close>;
  that they end is \<open>commands_return\<close> (\<open>await_loop\<close>), \<open>unplugged_board_ends\<close>, \<open>isotp_frame_roundtrip\<close>, \<open>parse_returns\<close> and
  \<open>upload_completes\<close>.

  \<^bold>\<open>Panics.\<close>  A panic is an outcome where the source can panic on its input: in the image parser (\<open>Panic\<close>), in the prints of
  the verbs and of \<open>main\<close> (\<open>PrintPanicked\<close>) and in a trace record (\<open>RecordPanicked\<close>); the latter two are exit code 101.
  The prints of the resident proxy, of its log threads and of the bench tools are taken to succeed and to
  return, and so are the sink of the demultiplexer and the read it has begun when it is dropped (\<open>demux_drop\<close>).  The
  \<open>u32\<close> counters of the emulated board count on as naturals and are read modulo \<open>2 ^ 32\<close>, as in a release build.

  \<^bold>\<open>Identity of boards.\<close>  Two serial labels name the same board where \<open>canonicalize\<close> gives the same path for both, and
  where it fails the path as it stands; that is what the code goes by (\<open>same_board\<close>), so for serial labels
  \<open>lock_key_iff_same_board\<close> says no more than that the key is exactly this path, and nothing else is mixed in.

  \<^bold>\<open>Not modelled.\<close>  How \<open>clap\<close> and \<open>liboci_cli\<close> read the commands of the engine, setting up \<open>tracing_subscriber\<close>
  and what is logged through \<open>tracing\<close>, the trace records made inside \<open>create\<close> and the proxy, accessors that
  only expose a field, \<open>IsoTpChannel::send_frame\<close> (nothing calls it), the integration tests under \<open>tests/\<close>, the unit test of the
  memory layout of \<open>sockaddr_can\<close> and the scripts.  Third-party code is not modelled but taken as a parameter: \<open>mcumgr-toolkit\<close>,
  \<open>serialport\<close>, \<open>serde_json\<close>, \<open>oci_spec\<close>, \<open>ciborium\<close>, \<open>base64\<close>, \<open>crc\<close>, \<open>sha2\<close>.
\<close>

end
